(* ===== verification/Prelude.thy ===== *)
theory Prelude
  imports
    Main
    "HOL-Library.Word"
    "HOL-Library.Char_ord"
    "HOL-Library.List_Lexorder"
begin

text \<open>
  Shared vocabulary of the development: machine integers, Rust's \<open>Result\<close> and \<open>Option\<close>
  combinators, the early-exit folds (\<open>Iterator::try_fold\<close>), ordered maps
  (\<open>std::collections::BTreeMap\<close>, a key-sorted association list) and insertion-ordered
  maps (\<open>indexmap::IndexMap\<close>, an association list in insertion order), with the lemmas
  the components share.

  A \<open>Result<T, E>\<close> is a value of the sum type \<open>'e + 't\<close>; \<open>Ok\<close> and \<open>Err\<close> name the
  injections, so that a definition reads like the Rust it translates.
\<close>

named_theorems result_simps \<open>equations of the Result and Option combinators\<close>
named_theorems map_laws \<open>what a lookup returns after an update of a map\<close>
named_theorems map_invs \<open>the map operations keep the invariant of their map\<close>

section \<open>Machine integers, bytes and time\<close>

type_synonym u8 = "8 word"
type_synonym u16 = "16 word"
type_synonym u32 = "32 word"
type_synonym u64 = "64 word"
type_synonym usize = "64 word"
type_synonym bytes = "u8 list"

text \<open>
  The value range of Rust's \<open>i128\<close>, and the checked conversions \<open>TryFrom<i128>\<close> into the
  smaller integer types: the result is the value, or the conversion fails.
\<close>

definition i128_range :: "int \<Rightarrow> bool" where
  "i128_range v \<longleftrightarrow> - (2 ^ 127) \<le> v \<and> v < 2 ^ 127"

definition try_into_unsigned :: "int \<Rightarrow> 'w::len word option" where
  "try_into_unsigned v =
     (if 0 \<le> v \<and> v < 2 ^ LENGTH('w) then Some (word_of_int v) else None)"

definition try_into_signed :: "int \<Rightarrow> 'w::len word option" where
  "try_into_signed v =
     (if - (2 ^ (LENGTH('w) - 1)) \<le> v \<and> v < 2 ^ (LENGTH('w) - 1)
      then Some (word_of_int v) else None)"

text \<open>
  \<open>std::time::Duration\<close>, counted in nanoseconds. \<open>as_millis\<close> drops what is below a
  millisecond.
\<close>

type_synonym duration = nat

definition from_millis :: "u64 \<Rightarrow> duration" where
  "from_millis ms = unat ms * 1000000"

definition as_millis :: "duration \<Rightarrow> nat" where
  "as_millis d = d div 1000000"

definition from_secs :: "u64 \<Rightarrow> duration" where
  "from_secs s = unat s * 1000000000"

definition as_secs :: "duration \<Rightarrow> nat" where
  "as_secs d = d div 1000000000"

section \<open>Result and Option\<close>

abbreviation Ok :: "'a \<Rightarrow> 'e + 'a" where "Ok \<equiv> Inr"
abbreviation Err :: "'e \<Rightarrow> 'e + 'a" where "Err \<equiv> Inl"

fun and_then :: "'e + 'a \<Rightarrow> ('a \<Rightarrow> 'e + 'b) \<Rightarrow> 'e + 'b" where
  "and_then (Ok x) f = f x"
| "and_then (Err e) f = Err e"

fun map_err :: "('e \<Rightarrow> 'f) \<Rightarrow> 'e + 'a \<Rightarrow> 'f + 'a" where
  "map_err g (Ok x) = Ok x"
| "map_err g (Err e) = Err (g e)"

fun map_ok :: "('a \<Rightarrow> 'b) \<Rightarrow> 'e + 'a \<Rightarrow> 'e + 'b" where
  "map_ok g (Ok x) = Ok (g x)"
| "map_ok g (Err e) = Err e"

fun ok :: "'e + 'a \<Rightarrow> 'a option" where
  "ok (Ok x) = Some x"
| "ok (Err e) = None"

fun is_ok :: "'e + 'a \<Rightarrow> bool" where
  "is_ok (Ok x) = True"
| "is_ok (Err e) = False"

fun ok_or :: "'a option \<Rightarrow> 'e \<Rightarrow> 'e + 'a" where
  "ok_or (Some x) e = Ok x"
| "ok_or None e = Err e"

fun unwrap_or :: "'a option \<Rightarrow> 'a \<Rightarrow> 'a" where
  "unwrap_or (Some x) d = x"
| "unwrap_or None d = d"

text \<open>\<open>Iterator::try_fold\<close>: the first error ends the loop.\<close>

fun try_fold :: "('s \<Rightarrow> 'a \<Rightarrow> 'e + 's) \<Rightarrow> 's \<Rightarrow> 'a list \<Rightarrow> 'e + 's" where
  "try_fold f s [] = Ok s"
| "try_fold f s (x # xs) =
     (case f s x of Err e \<Rightarrow> Err e | Ok s' \<Rightarrow> try_fold f s' xs)"

text \<open>
  The pattern \<open>iter.try_fold(vec![], |mut acc, x| { acc.push(f(x)?); Ok(acc) })\<close>, which the
  sources also write as \<open>map(f).collect::<Result<Vec<_>, _>>()\<close>.
\<close>

fun try_map :: "('a \<Rightarrow> 'e + 'b) \<Rightarrow> 'a list \<Rightarrow> 'e + 'b list" where
  "try_map f [] = Ok []"
| "try_map f (x # xs) =
     (case f x of
        Err e \<Rightarrow> Err e
      | Ok y \<Rightarrow> (case try_map f xs of Err e \<Rightarrow> Err e | Ok ys \<Rightarrow> Ok (y # ys)))"

text \<open>A computation that may panic.\<close>

datatype 'a outcome = Returns 'a | Panics string

section \<open>Ordered and insertion-ordered maps\<close>

text \<open>
  \<open>BTreeMap\<close>: iteration is in key order, so the map is its key-sorted list of entries.
  Rust compares \<open>String\<close> keys byte by byte, which is the order of
  \<open>HOL-Library.List_Lexorder\<close> over \<open>HOL-Library.Char_ord\<close> on \<open>string\<close>.
\<close>

type_synonym ('k, 'v) btree_map = "('k \<times> 'v) list"

fun bt_insert :: "'k::linorder \<Rightarrow> 'v \<Rightarrow> ('k, 'v) btree_map \<Rightarrow> ('k, 'v) btree_map" where
  "bt_insert k v [] = [(k, v)]"
| "bt_insert k v ((a, b) # m) =
     (if k < a then (k, v) # (a, b) # m
      else if k = a then (k, v) # m
      else (a, b) # bt_insert k v m)"

fun bt_remove :: "'k::linorder \<Rightarrow> ('k, 'v) btree_map \<Rightarrow> ('k, 'v) btree_map" where
  "bt_remove k [] = []"
| "bt_remove k ((a, b) # m) = (if k = a then m else (a, b) # bt_remove k m)"

abbreviation bt_get :: "('k, 'v) btree_map \<Rightarrow> 'k \<Rightarrow> 'v option" where
  "bt_get \<equiv> map_of"

text \<open>\<open>BTreeMap::from\<close> on an array and \<open>collect\<close>: entries are inserted from the left.\<close>

definition bt_from :: "('k::linorder \<times> 'v) list \<Rightarrow> ('k, 'v) btree_map" where
  "bt_from xs = fold (\<lambda>(k, v). bt_insert k v) xs []"

definition bt_inv :: "('k::linorder, 'v) btree_map \<Rightarrow> bool" where
  "bt_inv m \<longleftrightarrow> sorted_wrt (<) (map fst m)"

text \<open>
  \<open>IndexMap\<close>: iteration is in the order in which keys were first inserted; inserting an
  existing key replaces its value in place.
\<close>

type_synonym ('k, 'v) index_map = "('k \<times> 'v) list"

fun im_insert :: "'k \<Rightarrow> 'v \<Rightarrow> ('k, 'v) index_map \<Rightarrow> ('k, 'v) index_map" where
  "im_insert k v [] = [(k, v)]"
| "im_insert k v ((a, b) # m) = (if k = a then (k, v) # m else (a, b) # im_insert k v m)"

abbreviation im_get :: "('k, 'v) index_map \<Rightarrow> 'k \<Rightarrow> 'v option" where
  "im_get \<equiv> map_of"

text \<open>\<open>entry(k).or_insert_with(v)\<close> and \<open>entry(k).and_modify(f).or_insert_with(v)\<close>.\<close>

definition im_or_insert :: "'k \<Rightarrow> 'v \<Rightarrow> ('k, 'v) index_map \<Rightarrow> ('k, 'v) index_map" where
  "im_or_insert k v m = (case im_get m k of None \<Rightarrow> im_insert k v m | Some _ \<Rightarrow> m)"

definition im_modify_or_insert ::
  "'k \<Rightarrow> ('v \<Rightarrow> 'v) \<Rightarrow> 'v \<Rightarrow> ('k, 'v) index_map \<Rightarrow> ('k, 'v) index_map" where
  "im_modify_or_insert k f v m =
     (case im_get m k of None \<Rightarrow> im_insert k v m | Some w \<Rightarrow> im_insert k (f w) m)"

definition im_inv :: "('k, 'v) index_map \<Rightarrow> bool" where
  "im_inv m \<longleftrightarrow> distinct (map fst m)"

text \<open>The first index at which a predicate holds (\<open>Iterator::position\<close>).\<close>

fun position :: "('a \<Rightarrow> bool) \<Rightarrow> 'a list \<Rightarrow> nat option" where
  "position P [] = None"
| "position P (x # xs) = (if P x then Some 0 else map_option Suc (position P xs))"

text \<open>\<open>Vec::swap_remove\<close> within range: the last element takes the removed one's place.\<close>

definition swap_remove :: "nat \<Rightarrow> 'a list \<Rightarrow> 'a list" where
  "swap_remove i xs =
     (if i = length xs - 1 then butlast xs else butlast (xs[i := last xs]))"

section \<open>Lemmas on results\<close>

lemma and_then_cong [fundef_cong]:
  "r = r' \<Longrightarrow> (\<And>x. r' = Ok x \<Longrightarrow> f x = g x) \<Longrightarrow> and_then r f = and_then r' g"
  by (cases r') auto

lemma try_fold_ext:
  "\<forall>s. \<forall>x \<in> set xs. f s x = g s x \<Longrightarrow> try_fold f s xs = try_fold g s xs"
proof (induction xs arbitrary: s)
  case (Cons x xs)
  then have "f s x = g s x" and "\<And>t. try_fold f t xs = try_fold g t xs"
    by simp_all
  then show ?case by (simp split: sum.split)
qed simp

lemma try_fold_cong [fundef_cong]:
  "s = t \<Longrightarrow> xs = ys \<Longrightarrow> (\<And>s x. x \<in> set ys \<Longrightarrow> f s x = g s x) \<Longrightarrow>
   try_fold f s xs = try_fold g t ys"
  by (blast intro: try_fold_ext)

lemma try_map_ext: "\<forall>x \<in> set xs. f x = g x \<Longrightarrow> try_map f xs = try_map g xs"
  by (induction xs) (simp_all split: sum.split)

lemma try_map_cong [fundef_cong]:
  "xs = ys \<Longrightarrow> (\<And>x. x \<in> set ys \<Longrightarrow> f x = g x) \<Longrightarrow> try_map f xs = try_map g ys"
  by (blast intro: try_map_ext)

lemma and_then_eq_Ok [result_simps]:
  "and_then r f = Ok y \<longleftrightarrow> (\<exists>x. r = Ok x \<and> f x = Ok y)"
  by (cases r) auto

lemma and_then_assoc: "and_then (and_then r f) g = and_then r (\<lambda>x. and_then (f x) g)"
  by (cases r) auto

lemma and_then_eq_Err:
  "and_then r f = Err e \<longleftrightarrow> r = Err e \<or> (\<exists>x. r = Ok x \<and> f x = Err e)"
  by (cases r) auto

lemma map_err_eq_Err: "map_err g r = Err e \<longleftrightarrow> (\<exists>d. r = Err d \<and> e = g d)"
  by (cases r) auto

lemma map_err_eq_Ok [result_simps]: "map_err g r = Ok x \<longleftrightarrow> r = Ok x"
  by (cases r) auto

lemma map_ok_eq_Ok [result_simps]: "map_ok g r = Ok y \<longleftrightarrow> (\<exists>x. r = Ok x \<and> y = g x)"
  by (cases r) auto

lemma ok_or_eq_Ok [result_simps]: "ok_or p e = Ok x \<longleftrightarrow> p = Some x"
  by (cases p) auto

lemma ok_eq_Some [result_simps]: "ok r = Some x \<longleftrightarrow> r = Ok x"
  by (cases r) auto

lemma is_ok_iff [result_simps]: "is_ok r \<longleftrightarrow> (\<exists>x. r = Ok x)"
  by (cases r) auto

text \<open>
  \<open>try_map\<close> is the push-fold the sources write, and succeeds exactly when every element
  does.
\<close>

lemma try_fold_push:
  "try_fold (\<lambda>acc x. and_then (f x) (\<lambda>y. Ok (acc @ [y]))) acc xs = map_ok (\<lambda>ys. acc @ ys) (try_map f xs)"
proof (induction xs arbitrary: acc)
  case (Cons x xs)
  then show ?case by (cases "f x"; cases "try_map f xs") auto
qed simp

lemma try_fold_push_Nil:
  "try_fold (\<lambda>acc x. and_then (f x) (\<lambda>y. Ok (acc @ [y]))) [] xs = try_map f xs"
  by (cases "try_map f xs") (simp_all add: try_fold_push)

lemma and_then_Ok: "and_then r (\<lambda>x. Ok (g x)) = map_ok g r"
  by (cases r) auto

lemma try_map_eq_Ok [result_simps]:
  "try_map f xs = Ok ys \<longleftrightarrow> list_all2 (\<lambda>x y. f x = Ok y) xs ys"
proof (induction xs arbitrary: ys)
  case Nil
  then show ?case by (cases ys) auto
next
  case (Cons x xs)
  show ?case
    using Cons.IH by (cases ys; cases "f x"; cases "try_map f xs") (auto)
qed

lemma try_map_map_Ok:
  "(\<And>x. x \<in> set xs \<Longrightarrow> f (g x) = Ok x) \<Longrightarrow> try_map f (map g xs) = Ok xs"
  by (induction xs) auto

lemma list_all2_choice: "\<forall>x \<in> set xs. \<exists>y. Q x y \<Longrightarrow> \<exists>ys. list_all2 Q xs ys"
proof (induction xs)
  case (Cons x xs)
  then obtain y ys where "Q x y" "list_all2 Q xs ys" by auto
  then show ?case by (intro exI [of _ "y # ys"]) simp
qed auto

text \<open>The push-fold of two vectors at once.\<close>

lemma try_fold_push2:
  "try_fold (\<lambda>acc x. and_then (f x) (\<lambda>p. Ok (fst acc @ [fst p], snd acc @ snd p))) acc xs =
     map_ok (\<lambda>ps. (fst acc @ map fst ps, snd acc @ concat (map snd ps))) (try_map f xs)"
proof (induction xs arbitrary: acc)
  case (Cons x xs)
  then show ?case by (cases "f x"; cases "try_map f xs") auto
qed simp

lemma try_fold_insert:
  "try_fold (\<lambda>acc x. and_then (f x) (\<lambda>p. Ok (bt_insert (fst p) (snd p) acc))) acc xs =
     map_ok (\<lambda>ps. fold (\<lambda>p. bt_insert (fst p) (snd p)) ps acc) (try_map f xs)"
proof (induction xs arbitrary: acc)
  case (Cons x xs)
  then show ?case by (cases "f x"; cases "try_map f xs") auto
qed simp

lemma try_map_Err:
  "try_map f xs = Err e \<Longrightarrow> \<exists>x \<in> set xs. f x = Err e"
  by (induction xs) (auto split: sum.splits)

lemma try_fold_append:
  "try_fold f s (xs @ ys) = and_then (try_fold f s xs) (\<lambda>s'. try_fold f s' ys)"
  by (induction xs arbitrary: s) (simp_all split: sum.split)

text \<open>An invariant of the accumulator that every successful step keeps.\<close>

lemma try_fold_invariant:
  assumes "try_fold f s xs = Ok t" and "I s"
    and step: "\<And>s x s'. I s \<Longrightarrow> x \<in> set xs \<Longrightarrow> f s x = Ok s' \<Longrightarrow> I s'"
  shows "I t"
proof -
  have "set zs \<subseteq> set xs \<Longrightarrow> I s \<Longrightarrow> try_fold f s zs = Ok t \<Longrightarrow> I t" for zs s
  proof (induction zs arbitrary: s)
    case (Cons z zs)
    from Cons.prems(3) obtain s' where s': "f s z = Ok s'" "try_fold f s' zs = Ok t"
      by (cases "f s z") simp_all
    have "I s'" by (rule step [OF Cons.prems(2) _ s'(1)]) (use Cons.prems(1) in simp)
    with Cons.IH [of s'] Cons.prems(1) s'(2) show ?case by simp
  qed simp
  with assms(1,2) show ?thesis by blast
qed

section \<open>Lemmas on checked conversions and durations\<close>

lemma uint_try_into_unsigned [result_simps]:
  "try_into_unsigned v = Some (w :: 'w::len word) \<longleftrightarrow> uint w = v"
proof
  assume "try_into_unsigned v = Some w"
  then show "uint w = v"
    by (auto simp: try_into_unsigned_def uint_word_of_int split: if_splits)
next
  assume "uint w = v"
  then show "try_into_unsigned v = Some w"
    using uint_lt2p [of w] by (auto simp: try_into_unsigned_def)
qed

lemma sint_try_into_signed [result_simps]:
  "try_into_signed v = Some (w :: 'w::len word) \<longleftrightarrow> sint w = v"
proof
  assume "try_into_signed v = Some w"
  then show "sint w = v"
    by (auto simp: try_into_signed_def sint_sbintrunc' signed_take_bit_int_eq_self split: if_splits)
next
  assume "sint w = v"
  then show "try_into_signed v = Some w"
    using sint_range_size [of w] by (auto simp: try_into_signed_def word_size)
qed

lemma uint_word_of_int_range:
  "0 \<le> v \<Longrightarrow> v < 2 ^ LENGTH('w) \<Longrightarrow> uint (word_of_int v :: 'w::len word) = v"
  by (simp add: uint_word_of_int)

lemma sint_word_of_int_range:
  "- (2 ^ (LENGTH('w) - 1)) \<le> v \<Longrightarrow> v < 2 ^ (LENGTH('w) - 1) \<Longrightarrow>
   sint (word_of_int v :: 'w::len word) = v"
  by (simp add: sint_sbintrunc' signed_take_bit_int_eq_self)

lemma as_millis_from_millis [simp]: "as_millis (from_millis ms) = unat ms"
  by (simp add: as_millis_def from_millis_def)

section \<open>Lemmas on the maps\<close>

lemma bt_get_insert [map_laws]: "bt_get (bt_insert k v m) = (bt_get m)(k \<mapsto> v)"
  by (induction m) (auto simp: fun_eq_iff)

lemma bt_keys_insert [map_laws]: "fst ` set (bt_insert k v m) = insert k (fst ` set m)"
  by (induction m rule: bt_insert.induct) auto

lemma bt_inv_Nil [map_invs, simp]: "bt_inv []"
  by (simp add: bt_inv_def)

lemma bt_inv_Cons:
  "bt_inv ((k, v) # m) \<longleftrightarrow> (\<forall>a \<in> fst ` set m. k < a) \<and> bt_inv m"
  by (simp add: bt_inv_def)

lemma bt_inv_insert [map_invs]: "bt_inv m \<Longrightarrow> bt_inv (bt_insert k v m)"
proof (induction k v m rule: bt_insert.induct)
  case (2 k v a b m)
  consider "k < a" | "k = a" | "a < k" by fastforce
  then show ?case
  proof cases
    case 1
    with "2.prems" show ?thesis by (fastforce simp: bt_inv_Cons)
  next
    case 2
    with "2.prems" show ?thesis by (simp add: bt_inv_Cons)
  next
    case 3
    with "2.prems" "2.IH" show ?thesis by (auto simp: bt_inv_Cons bt_keys_insert)
  qed
qed (simp add: bt_inv_def)

lemma bt_inv_fold_insert: "bt_inv m \<Longrightarrow> bt_inv (fold (\<lambda>(k, v). bt_insert k v) xs m)"
  by (induction xs arbitrary: m) (auto intro: bt_inv_insert)

lemma bt_from_fold: "bt_from = (\<lambda>ps. fold (\<lambda>p. bt_insert (fst p) (snd p)) ps [])"
  by (auto simp: bt_from_def fun_eq_iff case_prod_unfold)

lemma bt_inv_from [map_invs, simp]: "bt_inv (bt_from xs)"
  by (simp add: bt_from_def bt_inv_fold_insert)

lemma bt_inv_distinct: "bt_inv m \<Longrightarrow> distinct (map fst m)"
  by (simp add: bt_inv_def strict_sorted_iff)

lemma bt_set_remove: "set (bt_remove k m) \<subseteq> set m"
  by (induction k m rule: bt_remove.induct) auto

lemma bt_inv_remove [map_invs]: "bt_inv m \<Longrightarrow> bt_inv (bt_remove k m)"
proof (induction m)
  case (Cons p m)
  obtain a b where p: "p = (a, b)" by (cases p)
  show ?case
    using Cons bt_set_remove [of k m] by (auto simp: p bt_inv_Cons)
qed simp

lemma bt_get_remove [map_laws]: "bt_inv m \<Longrightarrow> bt_get (bt_remove k m) = (bt_get m)(k := None)"
proof (induction m)
  case (Cons p m)
  obtain a b where p: "p = (a, b)" by (cases p)
  from Cons.prems have "a \<notin> fst ` set m" by (auto simp: p bt_inv_Cons)
  then have "bt_get m a = None" by (simp add: map_of_eq_None_iff)
  with Cons show ?case by (auto simp: p bt_inv_Cons fun_eq_iff)
qed auto

text \<open>Two ordered maps with the same lookups are the same list of entries.\<close>

lemma entries_of_keys:
  "distinct (map fst m) \<Longrightarrow> map (\<lambda>k. (k, the (map_of m k))) (map fst m) = m"
  by (auto intro!: map_idI simp: map_of_is_SomeI)

lemma bt_ext:
  assumes "bt_inv m" and "bt_inv n" and "bt_get m = bt_get n"
  shows "m = n"
proof -
  have "set (map fst m) = set (map fst n)"
    using assms(3) by (metis dom_map_of_conv_image_fst set_map)
  then have keys: "map fst m = map fst n"
    using assms(1,2) by (auto simp: bt_inv_def intro: strict_sorted_equal)
  have "map (\<lambda>k. (k, the (bt_get m k))) (map fst m) =
        map (\<lambda>k. (k, the (bt_get n k))) (map fst n)"
    using keys assms(3) by simp
  then show ?thesis
    by (simp only: entries_of_keys [OF bt_inv_distinct [OF assms(1)]]
        entries_of_keys [OF bt_inv_distinct [OF assms(2)]])
qed

lemma bt_get_fold_insert:
  "bt_get (fold (\<lambda>(k, v). bt_insert k v) xs m) k =
     (case map_of (rev xs) k of Some v \<Rightarrow> Some v | None \<Rightarrow> bt_get m k)"
  by (induction xs arbitrary: m) (auto simp: map_laws map_add_def split: option.splits)

lemma bt_get_from: "bt_get (bt_from xs) = map_of (rev xs)"
  by (auto simp: bt_from_def bt_get_fold_insert fun_eq_iff split: option.splits)

lemma map_of_rev_distinct: "distinct (map fst m) \<Longrightarrow> map_of (rev m) = map_of m"
  by (rule map_of_eqI [THEN sym]) (auto simp: map_of_eq_Some_iff rev_map [symmetric] set_map)

lemma bt_from_sorted: "bt_inv m \<Longrightarrow> bt_from m = m"
proof (rule bt_ext)
  assume inv: "bt_inv m"
  then have "distinct (map fst m)" by (rule bt_inv_distinct)
  then show "bt_get (bt_from m) = bt_get m"
    by (simp add: bt_get_from map_of_rev_distinct)
qed auto

lemma im_get_insert [map_laws]: "im_get (im_insert k v m) = (im_get m)(k \<mapsto> v)"
  by (induction m) (auto simp: fun_eq_iff)

lemma im_keys_insert [map_laws]: "fst ` set (im_insert k v m) = insert k (fst ` set m)"
  by (induction m rule: im_insert.induct) auto

lemma im_inv_Nil [map_invs, simp]: "im_inv []"
  by (simp add: im_inv_def)

lemma im_inv_insert [map_invs]: "im_inv m \<Longrightarrow> im_inv (im_insert k v m)"
proof (induction m)
  case (Cons p m)
  then show ?case
    using im_keys_insert [of k v m] by (cases p) (auto simp: im_inv_def)
qed (simp add: im_inv_def)

lemma im_get_or_insert [map_laws]:
  "im_get (im_or_insert k v m) = (\<lambda>x. if x = k \<and> im_get m k = None then Some v else im_get m x)"
  by (auto simp: im_or_insert_def map_laws fun_eq_iff split: option.splits)

lemma im_inv_or_insert [map_invs]: "im_inv m \<Longrightarrow> im_inv (im_or_insert k v m)"
  by (auto simp: im_or_insert_def im_inv_insert split: option.splits)

lemma im_get_modify_or_insert [map_laws]:
  "im_get (im_modify_or_insert k f v m) =
     (im_get m)(k \<mapsto> (case im_get m k of None \<Rightarrow> v | Some w \<Rightarrow> f w))"
  by (auto simp: im_modify_or_insert_def map_laws fun_eq_iff split: option.splits)

lemma im_inv_modify_or_insert [map_invs]: "im_inv m \<Longrightarrow> im_inv (im_modify_or_insert k f v m)"
  by (auto simp: im_modify_or_insert_def im_inv_insert split: option.splits)

lemma position_Some:
  "position P xs = Some i \<Longrightarrow> i < length xs \<and> P (xs ! i) \<and> (\<forall>j < i. \<not> P (xs ! j))"
proof (induction xs arbitrary: i)
  case (Cons x xs)
  show ?case
  proof (cases "P x")
    case True
    with Cons.prems show ?thesis by auto
  next
    case False
    with Cons.prems obtain k where "position P xs = Some k" "i = Suc k" by auto
    with Cons.IH [of k] False show ?thesis by (auto simp: nth_Cons split: nat.splits)
  qed
qed simp

lemma position_None: "position P xs = None \<longleftrightarrow> (\<forall>x \<in> set xs. \<not> P x)"
  by (induction xs) auto

end
