(* ===== verification/Ipld.thy ===== *)
theory Ipld
  imports Prelude
begin

text \<open>
  The IPLD data model the sources exchange (\<open>libipld::Ipld\<close>), content identifiers, the
  error type of \<open>homestar-core\<close>, and the two codec traits of \<open>homestar-core/src/ipld\<close>:
  \<open>DagCbor\<close> (a value's CID is the SHA3-256 hash of its DAG-CBOR encoding) and \<open>DagJson\<close>.

  The encoders, the hash function, \<open>libipld::serde::from_ipld\<close>, and the parsers and printers
  of CIDs, URLs and principals are third-party code. They are the fields of the record
  \<open>deps\<close>, the first argument of every definition that calls them; what is relied on about
  them is stated by the predicates \<open>serde_ok\<close>, \<open>cid_text_ok\<close>, \<open>cbor_ok\<close> and so on, each of
  them one documented behaviour.
\<close>

section \<open>Values\<close>

datatype multihash = Multihash (mh_code: u64) (mh_digest: bytes)

datatype cid = Cid (cid_version: nat) (cid_codec: u64) (cid_hash: multihash)

text \<open>An \<open>f64\<close> is its bit pattern, an \<open>i128\<close> an \<^typ>\<open>int\<close> within \<^const>\<open>i128_range\<close>.\<close>

datatype ipld =
    INull
  | IBool bool
  | IInteger int
  | IFloat u64
  | IString string
  | IBytes bytes
  | IList "ipld list"
  | IMap "(string \<times> ipld) list"
  | ILink cid

text \<open>The values Rust's type has: integers in range, maps sorted by key.\<close>

fun wf_ipld :: "ipld \<Rightarrow> bool" where
  "wf_ipld (IInteger v) = i128_range v"
| "wf_ipld (IList xs) = (\<forall>x \<in> set xs. wf_ipld x)"
| "wf_ipld (IMap m) = (bt_inv m \<and> (\<forall>p \<in> set m. wf_ipld (snd p)))"
| "wf_ipld _ = True"

definition ipld_of_u64 :: "u64 \<Rightarrow> ipld" where
  "ipld_of_u64 n = IInteger (uint n)"

text \<open>\<open>Cid::new_v1\<close>.\<close>

definition new_v1 :: "u64 \<Rightarrow> multihash \<Rightarrow> cid" where
  "new_v1 codec hash = Cid 1 codec hash"

datatype url = Url (url_serialization: string)
datatype principal = Principal (principal_bytes: bytes)

section \<open>Errors of homestar-core\<close>

text \<open>Errors of other crates carry their message.\<close>

datatype 't error =
    CidEncode string
  | ConditionNotMet string
  | DagCborTranslation string
  | FromIpld string
  | InvalidDiscriminant 't
  | MissingField string
  | ParseResource string
  | Unknown
  | UnexpectedIpldType ipld
  | Utf8 string
  | Io string

definition unexpected_ipld :: "ipld \<Rightarrow> 't error" where
  "unexpected_ipld x = UnexpectedIpldType x"

definition not_an_ipld_list :: "'t error" where
  "not_an_ipld_list = FromIpld ''invalid type: sequence, expected an Ipld list / sequence''"

text \<open>\<open>From<Error<Unit>> for Error<String>\<close> and back: every error becomes \<open>Unknown\<close>.\<close>

definition error_string_of_unit :: "unit error \<Rightarrow> string error" where
  "error_string_of_unit e = Unknown"

definition error_unit_of_string :: "string error \<Rightarrow> unit error" where
  "error_unit_of_string e = Unknown"

section \<open>Third-party code\<close>

record deps =
  from_ipld_map :: "ipld \<Rightarrow> string + (string, ipld) btree_map"
  from_ipld_cid :: "ipld \<Rightarrow> string + cid"
  from_ipld_string :: "ipld \<Rightarrow> string + string"
  from_ipld_u64 :: "ipld \<Rightarrow> string + u64"
  from_ipld_u32 :: "ipld \<Rightarrow> string + u32"
  from_ipld_vec :: "ipld \<Rightarrow> string + ipld list"
  from_ipld_cids :: "ipld \<Rightarrow> string + cid list"
  from_ipld_principal :: "ipld \<Rightarrow> string + principal"
  cbor_encode :: "ipld \<Rightarrow> string + bytes"
  cbor_decode :: "bytes \<Rightarrow> string + ipld"
  json_encode :: "ipld \<Rightarrow> string + bytes"
  json_decode :: "bytes \<Rightarrow> string + ipld"
  sha3_256 :: "bytes \<Rightarrow> multihash"
  cid_to_string :: "cid \<Rightarrow> string"
  cid_to_string_of_base :: "cid \<Rightarrow> string + string"
  cid_from_str :: "string \<Rightarrow> string + cid"
  cid_to_bytes :: "cid \<Rightarrow> bytes"
  cid_from_bytes :: "bytes \<Rightarrow> string + cid"
  url_parse :: "string \<Rightarrow> string + url"
  url_to_string :: "url \<Rightarrow> string"
  principal_from_str :: "string \<Rightarrow> string + principal"
  principal_to_string :: "principal \<Rightarrow> string"
  base32hex_lower :: "bytes \<Rightarrow> string"

text \<open>
  \<open>libipld::serde::from_ipld\<close> deserialises a value of exactly the matching kind, an integer
  only when it is in the range of the target type.
\<close>

definition serde_ok :: "deps \<Rightarrow> bool" where
  "serde_ok D \<longleftrightarrow>
     (\<forall>x m. from_ipld_map D x = Ok m \<longleftrightarrow> x = IMap m) \<and>
     (\<forall>x c. from_ipld_cid D x = Ok c \<longleftrightarrow> x = ILink c) \<and>
     (\<forall>x s. from_ipld_string D x = Ok s \<longleftrightarrow> x = IString s) \<and>
     (\<forall>x n. from_ipld_u64 D x = Ok n \<longleftrightarrow> x = IInteger (uint n)) \<and>
     (\<forall>x n. from_ipld_u32 D x = Ok n \<longleftrightarrow> x = IInteger (uint n)) \<and>
     (\<forall>x xs. from_ipld_vec D x = Ok xs \<longleftrightarrow> x = IList xs) \<and>
     (\<forall>x cs. from_ipld_cids D x = Ok cs \<longleftrightarrow> x = IList (map ILink cs))"

text \<open>Printed CIDs, URLs and principals parse back to themselves.\<close>

definition cid_text_ok :: "deps \<Rightarrow> bool" where
  "cid_text_ok D \<longleftrightarrow> (\<forall>c. cid_from_str D (cid_to_string D c) = Ok c)"

definition cid_bytes_ok :: "deps \<Rightarrow> bool" where
  "cid_bytes_ok D \<longleftrightarrow> (\<forall>c. cid_from_bytes D (cid_to_bytes D c) = Ok c)"

definition url_text_ok :: "deps \<Rightarrow> bool" where
  "url_text_ok D \<longleftrightarrow> (\<forall>u. url_parse D (url_to_string D u) = Ok u)"

definition principal_text_ok :: "deps \<Rightarrow> bool" where
  "principal_text_ok D \<longleftrightarrow>
     (\<forall>p. principal_from_str D (principal_to_string D p) = Ok p)"

text \<open>What the DAG-CBOR encoder writes, its decoder reads back.\<close>

definition cbor_ok :: "deps \<Rightarrow> bool" where
  "cbor_ok D \<longleftrightarrow> (\<forall>x b. cbor_encode D x = Ok b \<longrightarrow> cbor_decode D b = Ok x)"

text \<open>
  DAG-JSON reserves the key \<open>"/"\<close>, so its round trip is required of a given value only.
\<close>

definition json_ok :: "deps \<Rightarrow> ipld \<Rightarrow> bool" where
  "json_ok D x \<longleftrightarrow> (\<forall>b. json_encode D x = Ok b \<longrightarrow> json_decode D b = Ok x)"

section \<open>Strings and their bytes\<close>

text \<open>
  A Rust \<open>String\<close> is its UTF-8 byte sequence. \<open>utf8\<close> is the validity check of
  \<open>std::str::from_utf8\<close>: no overlong form, no surrogate, nothing above U+10FFFF.
\<close>

definition byte_of :: "char \<Rightarrow> u8" where
  "byte_of c = word_of_nat (of_char c)"

definition as_bytes :: "string \<Rightarrow> bytes" where
  "as_bytes s = map byte_of s"

definition in_range :: "u8 \<Rightarrow> u8 \<Rightarrow> u8 \<Rightarrow> bool" where
  "in_range lo hi b \<longleftrightarrow> lo \<le> b \<and> b \<le> hi"

abbreviation cont :: "u8 \<Rightarrow> bool" where
  "cont \<equiv> in_range 0x80 0xBF"

fun utf8 :: "bytes \<Rightarrow> bool" where
  "utf8 [] = True"
| "utf8 (a # bs) =
     (if a < 0x80 then utf8 bs
      else (case bs of
        [] \<Rightarrow> False
      | b # cs \<Rightarrow>
          if in_range 0xC2 0xDF a then cont b \<and> utf8 cs
          else (case cs of
            [] \<Rightarrow> False
          | c # ds \<Rightarrow>
              if in_range 0xE0 0xEF a
              then in_range (if a = 0xE0 then 0xA0 else 0x80) (if a = 0xED then 0x9F else 0xBF) b
                   \<and> cont c \<and> utf8 ds
              else (case ds of
                [] \<Rightarrow> False
              | d # es \<Rightarrow>
                  in_range 0xF0 0xF4 a
                  \<and> in_range (if a = 0xF0 then 0x90 else 0x80) (if a = 0xF4 then 0x8F else 0xBF) b
                  \<and> cont c \<and> cont d \<and> utf8 es))))"

definition from_utf8 :: "bytes \<Rightarrow> string + string" where
  "from_utf8 bs =
     (if utf8 bs then Ok (map (\<lambda>b. char_of (unat b)) bs) else Err ''invalid utf-8 sequence'')"

section \<open>The codec traits\<close>

definition DAG_CBOR :: u64 where
  "DAG_CBOR = 0x71"

text \<open>\<open>DagCbor::to_cid\<close>; the trait bound \<open>Ipld: From<Self>\<close> is the first argument.\<close>

definition to_cid :: "deps \<Rightarrow> ('a \<Rightarrow> ipld) \<Rightarrow> 'a \<Rightarrow> unit error + cid" where
  "to_cid D into self =
     (let x = into self in
      and_then (map_err DagCborTranslation (cbor_encode D x)) (\<lambda>bytes.
      let hash = sha3_256 D bytes in
      Ok (new_v1 DAG_CBOR hash)))"

text \<open>\<open>DagJson\<close>; the bounds \<open>Ipld: From<Self>\<close> and \<open>Self: TryFrom<Ipld>\<close> are arguments.\<close>

definition to_json :: "deps \<Rightarrow> ('a \<Rightarrow> ipld) \<Rightarrow> 'a \<Rightarrow> unit error + bytes" where
  "to_json D into self = map_err DagCborTranslation (json_encode D (into self))"

definition to_json_string :: "deps \<Rightarrow> ('a \<Rightarrow> ipld) \<Rightarrow> 'a \<Rightarrow> unit error + string" where
  "to_json_string D into self =
     and_then (to_json D into self) (\<lambda>encoded. map_err Utf8 (from_utf8 encoded))"

definition from_json :: "deps \<Rightarrow> (ipld \<Rightarrow> 'e + 'a) \<Rightarrow> bytes \<Rightarrow> unit error + 'a" where
  "from_json D try_from data =
     and_then (map_err DagCborTranslation (json_decode D data)) (\<lambda>x.
     map_err (\<lambda>_. UnexpectedIpldType x) (try_from x))"

definition from_json_string :: "deps \<Rightarrow> (ipld \<Rightarrow> 'e + 'a) \<Rightarrow> string \<Rightarrow> unit error + 'a" where
  "from_json_string D try_from json = from_json D try_from (as_bytes json)"

section \<open>Lemmas\<close>

lemma serde_okD [result_simps]:
  assumes "serde_ok D"
  shows "from_ipld_map D x = Ok m \<longleftrightarrow> x = IMap m"
    and "from_ipld_cid D x = Ok c \<longleftrightarrow> x = ILink c"
    and "from_ipld_string D x = Ok s \<longleftrightarrow> x = IString s"
    and "from_ipld_u64 D x = Ok n \<longleftrightarrow> x = IInteger (uint n)"
    and "from_ipld_u32 D x = Ok k \<longleftrightarrow> x = IInteger (uint k)"
    and "from_ipld_vec D x = Ok xs \<longleftrightarrow> x = IList xs"
    and "from_ipld_cids D x = Ok cs \<longleftrightarrow> x = IList (map ILink cs)"
  using assms by (simp_all add: serde_ok_def)

lemma serde_ok_simps:
  assumes "serde_ok D"
  shows "from_ipld_map D (IMap m) = Ok m"
    and "from_ipld_cid D (ILink c) = Ok c"
    and "from_ipld_string D (IString s) = Ok s"
    and "from_ipld_u64 D (IInteger (uint n)) = Ok n"
    and "from_ipld_u32 D (IInteger (uint k)) = Ok k"
    and "from_ipld_vec D (IList xs) = Ok xs"
    and "from_ipld_cids D (IList (map ILink cs)) = Ok cs"
  using assms by (simp_all add: serde_ok_def)

lemma char_of_byte_of: "char_of (unat (byte_of c)) = c"
proof -
  have "(of_char c :: nat) < 256" by (metis nat_of_char_less_256)
  then show ?thesis by (simp add: byte_of_def unat_of_nat take_bit_nat_eq_self)
qed

lemma byte_of_char_of: "byte_of (char_of (unat (b :: u8))) = b"
  using unsigned_less [where 'a = nat and w = b] by (simp add: byte_of_def)

text \<open>A byte sequence read as a string has that byte sequence.\<close>

lemma as_bytes_from_utf8: "from_utf8 bs = Ok s \<Longrightarrow> as_bytes s = bs"
  by (auto simp: from_utf8_def as_bytes_def byte_of_char_of comp_def split: if_splits)

lemma from_utf8_as_bytes: "utf8 (as_bytes s) \<Longrightarrow> from_utf8 (as_bytes s) = Ok s"
  by (simp add: from_utf8_def as_bytes_def char_of_byte_of comp_def)

lemma to_cid_eq_Ok [result_simps]:
  "to_cid D into x = Ok c \<longleftrightarrow>
     (\<exists>b. cbor_encode D (into x) = Ok b \<and> c = new_v1 DAG_CBOR (sha3_256 D b))"
  by (auto simp: to_cid_def Let_def result_simps)

section \<open>The contract of a type with an IPLD form\<close>

text \<open>
  A type that implements \<open>From<T> for Ipld\<close> and \<open>TryFrom<Ipld> for T\<close> promises that a value
  it wrote is read back. What follows for lists of such values, for its JSON form and for
  its CIDs is proved once.
\<close>

locale ipld_codec =
  fixes into :: "'a \<Rightarrow> ipld"
    and try_from :: "ipld \<Rightarrow> 'e + 'a"
    and valid :: "'a \<Rightarrow> bool"
  assumes try_from_into: "valid x \<Longrightarrow> try_from (into x) = Ok x"
begin

lemma into_inj: "valid x \<Longrightarrow> valid y \<Longrightarrow> into x = into y \<Longrightarrow> x = y"
  by (metis try_from_into sum.inject(2))

lemma list_roundtrip: "\<forall>x \<in> set xs. valid x \<Longrightarrow> try_map try_from (map into xs) = Ok xs"
  by (simp add: try_map_map_Ok try_from_into)

lemma json_roundtrip:
  assumes "valid x" and "json_ok D (into x)" and "to_json D into x = Ok b"
  shows "from_json D try_from b = Ok x"
  using assms by (auto simp: to_json_def from_json_def json_ok_def try_from_into result_simps)

lemma json_string_roundtrip:
  assumes "valid x" and "json_ok D (into x)" and "to_json_string D into x = Ok s"
  shows "from_json_string D try_from s = Ok x"
proof -
  from assms(3) obtain b where "to_json D into x = Ok b" and "from_utf8 b = Ok s"
    by (auto simp: to_json_string_def result_simps)
  then show ?thesis
    using json_roundtrip [OF assms(1,2)] as_bytes_from_utf8 by (auto simp: from_json_string_def)
qed

text \<open>
  Content addressing: two values with the same CID are equal, unless the encodings of
  two different values collide under the hash function.
\<close>

lemma cid_determines:
  assumes "valid x" and "valid y" and "cbor_ok D"
    and "to_cid D into x = Ok c" and "to_cid D into y = Ok c"
    and no_collision: "\<And>a b. cbor_encode D (into x) = Ok a \<Longrightarrow> cbor_encode D (into y) = Ok b \<Longrightarrow>
      sha3_256 D a = sha3_256 D b \<Longrightarrow> a = b"
  shows "x = y"
proof -
  from assms(4,5) obtain a b
    where "cbor_encode D (into x) = Ok a" "cbor_encode D (into y) = Ok b"
      and "sha3_256 D a = sha3_256 D b"
    by (auto simp: result_simps new_v1_def)
  moreover from this no_collision have "a = b" by blast
  ultimately have "into x = into y"
    using assms(3) unfolding cbor_ok_def by (metis sum.inject(2))
  with assms(1,2) show ?thesis by (rule into_inj)
qed

end

end
