(* ===== verification/Atoms.thy ===== *)
theory Atoms
  imports Ipld
begin

text \<open>
  The small types of \<open>homestar-core/src/workflow\<close>: pointers and awaits (\<open>pointer.rs\<close>),
  abilities (\<open>ability.rs\<close>), nonces (\<open>nonce.rs\<close>), issuers (\<open>issuer.rs\<close>), proofs (\<open>prf.rs\<close>),
  instruction results (\<open>instruction_result.rs\<close>) and resource limits (\<open>config.rs\<close>), each with
  its conversions to and from IPLD. Every pair of conversions is an instance of
  \<open>ipld_codec\<close>, on the values for which the code round-trips.
\<close>

section \<open>Pointers and awaited promises\<close>

definition OK_BRANCH :: string where "OK_BRANCH = ''await/ok''"
definition ERR_BRANCH :: string where "ERR_BRANCH = ''await/error''"
definition PTR_BRANCH :: string where "PTR_BRANCH = ''await/*''"

lemmas branch_defs = OK_BRANCH_def ERR_BRANCH_def PTR_BRANCH_def

datatype await_result = AwaitOk | AwaitError | AwaitPtr

fun branch :: "await_result \<Rightarrow> string" where
  "branch AwaitOk = OK_BRANCH"
| "branch AwaitError = ERR_BRANCH"
| "branch AwaitPtr = PTR_BRANCH"

definition await_result_of :: "string \<Rightarrow> await_result option" where
  "await_result_of s =
     (if s = OK_BRANCH then Some AwaitOk
      else if s = ERR_BRANCH then Some AwaitError
      else if s = PTR_BRANCH then Some AwaitPtr else None)"

datatype pointer = Pointer (ptr_cid: cid)

definition pointer_into :: "pointer \<Rightarrow> ipld" where
  "pointer_into p = ILink (ptr_cid p)"

definition pointer_try_from :: "deps \<Rightarrow> ipld \<Rightarrow> unit error + pointer" where
  "pointer_try_from D x =
     and_then (map_err FromIpld (from_ipld_cid D x)) (\<lambda>s. Ok (Pointer s))"

text \<open>The SQL text form of a pointer (\<open>ToSql<Text>\<close>, \<open>FromSql<Text>\<close>).\<close>

definition pointer_to_sql :: "deps \<Rightarrow> pointer \<Rightarrow> string" where
  "pointer_to_sql D p = cid_to_string D (ptr_cid p)"

definition pointer_from_sql :: "deps \<Rightarrow> string \<Rightarrow> string + pointer" where
  "pointer_from_sql D s = and_then (cid_from_str D s) (\<lambda>c. Ok (Pointer c))"

record await =
  aw_instruction :: pointer
  aw_result :: await_result

definition instruction_cid :: "await \<Rightarrow> cid" where
  "instruction_cid a = ptr_cid (aw_instruction a)"

definition await_into :: "await \<Rightarrow> ipld" where
  "await_into a = IMap (bt_from [(branch (aw_result a), pointer_into (aw_instruction a))])"

definition await_try_from :: "deps \<Rightarrow> ipld \<Rightarrow> unit error + await" where
  "await_try_from D x =
     and_then (map_err FromIpld (from_ipld_map D x)) (\<lambda>m.
     if length m \<noteq> 1
     then Err (ConditionNotMet ''await promise must jave only a single key ain a map'')
     else
       (let (key, value) = hd m in
        and_then (pointer_try_from D value) (\<lambda>p.
        let r = (if key = OK_BRANCH then AwaitOk
                 else if key = ERR_BRANCH then AwaitError
                 else AwaitPtr)
        in Ok \<lparr>aw_instruction = p, aw_result = r\<rparr>)))"

section \<open>Abilities\<close>

text \<open>
  \<open>str::trim\<close> and \<open>str::to_lowercase\<close> on ASCII text: the white space of ASCII is the
  characters 9 to 13 and 32, and \<open>A\<close>..\<open>Z\<close> are 65 to 90. Other characters are kept.
\<close>

definition is_whitespace :: "char \<Rightarrow> bool" where
  "is_whitespace c \<longleftrightarrow> (let n = (of_char c :: nat) in 9 \<le> n \<and> n \<le> 13 \<or> n = 32)"

definition trim :: "string \<Rightarrow> string" where
  "trim s = rev (dropWhile is_whitespace (rev (dropWhile is_whitespace s)))"

definition lower_char :: "char \<Rightarrow> char" where
  "lower_char c = (let n = (of_char c :: nat) in if 65 \<le> n \<and> n \<le> 90 then char_of (n + 32) else c)"

definition to_lowercase :: "string \<Rightarrow> string" where
  "to_lowercase s = map lower_char s"

datatype ability = Ability (ability_str: string)

definition ability_from :: "string \<Rightarrow> ability" where
  "ability_from s = Ability (to_lowercase (trim s))"

definition ability_into :: "ability \<Rightarrow> ipld" where
  "ability_into a = IString (ability_str a)"

definition ability_try_from :: "deps \<Rightarrow> ipld \<Rightarrow> unit error + ability" where
  "ability_try_from D x =
     and_then (map_err FromIpld (from_ipld_string D x)) (\<lambda>s. Ok (ability_from s))"

text \<open>The abilities \<open>Ability::from\<close> builds.\<close>

definition ability_normal :: "ability \<Rightarrow> bool" where
  "ability_normal a \<longleftrightarrow> ability_from (ability_str a) = a"

section \<open>Nonces\<close>

datatype nonce = Nonce96 bytes | Nonce128 bytes | NonceEmpty

text \<open>\<open>GenericArray<u8, U12>\<close> and \<open>GenericArray<u8, U16>\<close> fix the lengths.\<close>

fun nonce_wf :: "nonce \<Rightarrow> bool" where
  "nonce_wf (Nonce96 v) = (length v = 12)"
| "nonce_wf (Nonce128 v) = (length v = 16)"
| "nonce_wf NonceEmpty = True"

fun nonce_to_string :: "deps \<Rightarrow> nonce \<Rightarrow> string" where
  "nonce_to_string D (Nonce96 v) = base32hex_lower D v"
| "nonce_to_string D (Nonce128 v) = base32hex_lower D v"
| "nonce_to_string D NonceEmpty = ''''"

fun nonce_into :: "nonce \<Rightarrow> ipld" where
  "nonce_into (Nonce96 v) = IBytes v"
| "nonce_into (Nonce128 v) = IBytes v"
| "nonce_into NonceEmpty = IString ''''"

fun nonce_try_from :: "ipld \<Rightarrow> unit error + nonce" where
  "nonce_try_from (IBytes v) =
     (if length v = 12 then Ok (Nonce96 v)
      else if length v = 16 then Ok (Nonce128 v)
      else Err (unexpected_ipld (IInteger (int (length v)))))"
| "nonce_try_from _ = Ok NonceEmpty"

section \<open>Issuers\<close>

datatype issuer = Issuer (issuer_principal: principal)

definition issuer_to_string :: "deps \<Rightarrow> issuer \<Rightarrow> string" where
  "issuer_to_string D i = principal_to_string D (issuer_principal i)"

definition issuer_into :: "deps \<Rightarrow> issuer \<Rightarrow> ipld" where
  "issuer_into D i = IString (principal_to_string D (issuer_principal i))"

definition issuer_try_from :: "deps \<Rightarrow> ipld \<Rightarrow> unit error + issuer" where
  "issuer_try_from D x =
     and_then (map_err FromIpld (from_ipld_string D x)) (\<lambda>s.
     and_then (map_err DagCborTranslation (principal_from_str D s)) (\<lambda>p. Ok (Issuer p)))"

section \<open>Proofs\<close>

text \<open>A \<open>Link<UcanIpld>\<close> is the CID it wraps (\<open>homestar-core/src/ipld/link.rs\<close>).\<close>

datatype ucan_prf = UcanPrf (prf_links: "cid list")

definition prf_into :: "ucan_prf \<Rightarrow> ipld" where
  "prf_into p = IList (map ILink (prf_links p))"

definition prf_try_from :: "deps \<Rightarrow> ipld \<Rightarrow> unit error + ucan_prf" where
  "prf_try_from D x =
     (case x of
        IList inner \<Rightarrow>
          and_then
            (try_fold (\<lambda>acc x.
               and_then (map_err FromIpld (from_ipld_cid D x)) (\<lambda>c. Ok (acc @ [c]))) [] inner)
            (\<lambda>prf. Ok (UcanPrf prf))
      | _ \<Rightarrow> Ok (UcanPrf []))"

section \<open>Instruction results\<close>

datatype 't instruction_result = IrOk 't | IrError 't | IrJust 't

fun ir_inner :: "'t instruction_result \<Rightarrow> 't" where
  "ir_inner (IrOk t) = t"
| "ir_inner (IrError t) = t"
| "ir_inner (IrJust t) = t"

fun ir_into :: "('t \<Rightarrow> ipld) \<Rightarrow> 't instruction_result \<Rightarrow> ipld" where
  "ir_into into (IrOk res) = IList [IString ''ok'', into res]"
| "ir_into into (IrError res) = IList [IString ''error'', into res]"
| "ir_into into (IrJust res) = IList [IString ''just'', into res]"

definition ir_try_from :: "(ipld \<Rightarrow> 't) \<Rightarrow> ipld \<Rightarrow> unit error + 't instruction_result" where
  "ir_try_from from x =
     (case x of
        IList v \<Rightarrow>
          (case v of
             [IString result, res] \<Rightarrow>
               if result = ''ok'' then Ok (IrOk (from res))
               else if result = ''error'' then Ok (IrError (from res))
               else if result = ''just'' then Ok (IrJust (from res))
               else Err (unexpected_ipld (IList v))
           | _ \<Rightarrow> Err (unexpected_ipld (IList v)))
      | _ \<Rightarrow> Err not_an_ipld_list)"

text \<open>The SQL binary form (\<open>ToSql<Binary>\<close>, \<open>FromSql<Binary>\<close>) of an \<open>InstructionResult<Ipld>\<close>.\<close>

definition ir_to_sql :: "deps \<Rightarrow> ipld instruction_result \<Rightarrow> string + bytes" where
  "ir_to_sql D r = cbor_encode D (ir_into id r)"

definition ir_from_sql :: "deps \<Rightarrow> bytes \<Rightarrow> unit error + ipld instruction_result" where
  "ir_from_sql D b =
     and_then (map_err DagCborTranslation (cbor_decode D b)) (\<lambda>x. ir_try_from id x)"

section \<open>Resource limits\<close>

definition WASM_MAX_MEMORY :: u64 where
  "WASM_MAX_MEMORY = 4 * 1024 * 1024 * 1024"

record resources =
  fuel :: "u64 option"
  memory :: "u64 option"
  time :: "duration option"

definition resources_default :: resources where
  "resources_default =
     \<lparr>fuel = Some (- 1), memory = Some WASM_MAX_MEMORY, time = Some (from_millis 100000)\<rparr>"

definition resources_new :: "u64 \<Rightarrow> u64 \<Rightarrow> duration \<Rightarrow> resources" where
  "resources_new f m t = \<lparr>fuel = Some f, memory = Some m, time = Some t\<rparr>"

definition set_fuel :: "u64 \<Rightarrow> resources \<Rightarrow> resources" where
  "set_fuel f r = r\<lparr>fuel := Some f\<rparr>"

definition set_time :: "duration \<Rightarrow> resources \<Rightarrow> resources" where
  "set_time t r = r\<lparr>time := Some t\<rparr>"

definition set_memory :: "u64 \<Rightarrow> resources \<Rightarrow> resources" where
  "set_memory m r = r\<lparr>memory := Some m\<rparr>"

definition resources_into :: "resources \<Rightarrow> ipld" where
  "resources_into r =
     IMap (bt_from
       [(''fuel'', case fuel r of Some f \<Rightarrow> ipld_of_u64 f | None \<Rightarrow> INull),
        (''memory'', case memory r of Some m \<Rightarrow> ipld_of_u64 m | None \<Rightarrow> INull),
        (''time'', case time r of Some t \<Rightarrow> IInteger (int (as_millis t)) | None \<Rightarrow> INull)])"

definition resources_try_from :: "deps \<Rightarrow> ipld \<Rightarrow> unit error + resources" where
  "resources_try_from D x =
     and_then (map_err FromIpld (from_ipld_map D x)) (\<lambda>m.
     let f = Option.bind (bt_get m ''fuel'') (\<lambda>v. case v of
               INull \<Rightarrow> None | v \<Rightarrow> ok (from_ipld_u64 D v));
         mem = Option.bind (bt_get m ''memory'') (\<lambda>v. case v of
               INull \<Rightarrow> None | v \<Rightarrow> ok (from_ipld_u64 D v));
         t = Option.bind (bt_get m ''time'') (\<lambda>v. case v of
               INull \<Rightarrow> None
             | v \<Rightarrow> let ms = unwrap_or (ok (from_ipld_u64 D v)) 100000
                    in Some (from_millis ms))
     in Ok \<lparr>fuel = f, memory = mem, time = t\<rparr>)"

text \<open>Timeouts the IPLD form keeps exactly: whole milliseconds that fit a \<open>u64\<close>.\<close>

definition resources_exact :: "resources \<Rightarrow> bool" where
  "resources_exact r \<longleftrightarrow>
     (case time r of None \<Rightarrow> True | Some t \<Rightarrow> t mod 1000000 = 0 \<and> as_millis t < 2 ^ 64)"

section \<open>Lemmas\<close>

lemma bt_from_single [simp]: "bt_from [(k, v)] = [(k, v)]"
  by (simp add: bt_from_def)

lemma branch_inj: "branch a = branch b \<longleftrightarrow> a = b"
  by (cases a; cases b) (simp_all add: branch_defs)

lemma await_result_of_branch: "await_result_of (branch r) = Some r"
  by (cases r) (simp_all add: await_result_of_def branch_defs)

lemma await_result_of_Some: "await_result_of s = Some r \<longleftrightarrow> s = branch r"
  by (cases r) (auto simp: await_result_of_def branch_defs)

lemma pointer_try_from_eq_Ok:
  "serde_ok D \<Longrightarrow> pointer_try_from D x = Ok p \<longleftrightarrow> x = ILink (ptr_cid p)"
  by (cases p) (auto simp: pointer_try_from_def result_simps)

lemma pointer_sql_roundtrip:
  "cid_text_ok D \<Longrightarrow> pointer_from_sql D (pointer_to_sql D p) = Ok p"
  by (simp add: cid_text_ok_def pointer_from_sql_def pointer_to_sql_def)

text \<open>
  A map is read as an awaited promise exactly when it has one key and its value is a link;
  the key decides the branch, every key but the two tagged ones reading as \<open>await/*\<close>.
\<close>

lemma await_try_from_eq_Ok:
  assumes "serde_ok D"
  shows "await_try_from D x = Ok a \<longleftrightarrow>
    (\<exists>k. x = IMap [(k, ILink (instruction_cid a))] \<and>
         aw_result a = (if k = OK_BRANCH then AwaitOk
                        else if k = ERR_BRANCH then AwaitError else AwaitPtr))"
    (is "?l \<longleftrightarrow> ?r")
proof
  assume ?l
  then obtain m where x: "x = IMap m" and m: "length m = 1"
    and a: "(case hd m of (key, value) \<Rightarrow>
        and_then (pointer_try_from D value) (\<lambda>p.
        Ok \<lparr>aw_instruction = p, aw_result = if key = OK_BRANCH then AwaitOk
           else if key = ERR_BRANCH then AwaitError else AwaitPtr\<rparr>)) = Ok a"
    using assms by (auto simp: await_try_from_def result_simps Let_def split: if_splits)
  from m obtain k v where "m = [(k, v)]" by (auto simp: length_Suc_conv)
  with a x assms show ?r
    by (auto simp: pointer_try_from_eq_Ok result_simps instruction_cid_def)
next
  assume ?r
  then obtain k where "x = IMap [(k, ILink (instruction_cid a))]"
    and "aw_result a = (if k = OK_BRANCH then AwaitOk
                        else if k = ERR_BRANCH then AwaitError else AwaitPtr)" by auto
  with assms show ?l
    by (cases a) (auto simp: await_try_from_def pointer_try_from_def serde_ok_simps
        instruction_cid_def)
qed

lemma dropWhile_hd: "dropWhile P xs = y # ys \<Longrightarrow> \<not> P y"
  by (metis hd_dropWhile list.distinct(1) list.sel(1))

lemma is_whitespace_lower: "is_whitespace (lower_char c) \<longleftrightarrow> is_whitespace c"
proof -
  have "(of_char c :: nat) < 256" by simp
  then show ?thesis by (auto simp: is_whitespace_def lower_char_def Let_def)
qed

lemma lower_char_idem: "lower_char (lower_char c) = lower_char c"
  by (auto simp: lower_char_def Let_def)

lemma dropWhile_lower:
  "dropWhile is_whitespace (map lower_char s) = map lower_char (dropWhile is_whitespace s)"
  by (induction s) (simp_all add: is_whitespace_lower)

lemma trim_lower: "trim (to_lowercase s) = to_lowercase (trim s)"
  by (simp add: trim_def to_lowercase_def dropWhile_lower rev_map)

lemma trim_idem: "trim (trim s) = trim s"
proof -
  have dw: "dropWhile P (rev (dropWhile P (rev (dropWhile P xs)))) = rev (dropWhile P (rev (dropWhile P xs)))"
    for P and xs :: "char list"
  proof (cases "dropWhile P xs")
    case (Cons y ys)
    then have "\<not> P y" by (rule dropWhile_hd)
    then have "rev (dropWhile P (rev ys @ [y])) = y # rev (dropWhile P (rev ys))"
      by (induction ys rule: rev_induct) (auto simp: dropWhile_append)
    with Cons \<open>\<not> P y\<close> show ?thesis by simp
  next
    case Nil
    show ?thesis by (simp only: Nil rev.simps dropWhile.simps)
  qed
  show ?thesis by (simp add: trim_def dw)
qed

lemma ability_from_normal: "ability_normal (ability_from s)"
  by (simp add: ability_normal_def ability_from_def trim_lower trim_idem)
    (simp add: to_lowercase_def lower_char_idem)

text \<open>The spellings of an ability that differ in case and wrapping white space are one ability.\<close>

lemma ability_from_cong:
  "to_lowercase (trim s) = to_lowercase (trim t) \<Longrightarrow> ability_from s = ability_from t"
  by (simp add: ability_from_def)

lemma nonce_try_from_wf: "nonce_try_from x = Ok n \<Longrightarrow> nonce_wf n"
  by (induction x rule: nonce_try_from.induct) (auto split: if_splits)

lemma prf_try_from_list:
  "prf_try_from D (IList xs) =
     map_ok UcanPrf (try_map (\<lambda>x. map_err FromIpld (from_ipld_cid D x)) xs)"
  by (simp add: prf_try_from_def try_fold_push_Nil) (simp add: and_then_Ok)

lemma ir_try_from_eq_Ok:
  "ir_try_from from x = Ok r \<longleftrightarrow>
     (\<exists>res. ir_inner r = from res \<and> x = ir_into (\<lambda>_. res) r)"
  by (cases r) (auto simp: ir_try_from_def split: ipld.splits list.splits if_splits)

text \<open>The sorted form of the map \<open>Resources\<close> writes.\<close>

lemma resources_into_map:
  "resources_into r = IMap
       [(''fuel'', case fuel r of Some f \<Rightarrow> ipld_of_u64 f | None \<Rightarrow> INull),
        (''memory'', case memory r of Some m \<Rightarrow> ipld_of_u64 m | None \<Rightarrow> INull),
        (''time'', case time r of Some t \<Rightarrow> IInteger (int (as_millis t)) | None \<Rightarrow> INull)]"
  by (simp add: resources_into_def bt_from_def)

lemma u64_of_nat_cast: "n < 2 ^ 64 \<Longrightarrow> int n = uint (word_of_nat n :: u64)"
  by (simp add: unsigned_of_nat take_bit_nat_eq_self)

text \<open>Writing and reading a limit truncates the timeout to the millisecond, nothing else.\<close>

lemma resources_roundtrip_truncates:
  assumes "serde_ok D" and "\<And>t. time r = Some t \<Longrightarrow> as_millis t < 2 ^ 64"
  shows "resources_try_from D (resources_into r) =
    Ok (r\<lparr>time := map_option (\<lambda>t. as_millis t * 1000000) (time r)\<rparr>)"
proof -
  have t: "from_ipld_u64 D (IInteger (int (as_millis t))) = Ok (word_of_nat (as_millis t))"
    if "time r = Some t" for t
    using assms that by (simp only: u64_of_nat_cast serde_ok_simps)
  have "unat (word_of_nat (as_millis t) :: u64) = as_millis t" if "time r = Some t" for t
    using assms(2) [OF that] by (simp add: unat_of_nat take_bit_nat_eq_self)
  with assms(1) t show ?thesis
    by (cases r)
      (auto simp: resources_into_map resources_try_from_def serde_ok_simps ipld_of_u64_def
        from_millis_def split: option.splits)
qed

section \<open>The codecs\<close>

interpretation pointer_codec: ipld_codec pointer_into "pointer_try_from D" "\<lambda>_. serde_ok D" for D
  by unfold_locales (simp add: pointer_into_def pointer_try_from_eq_Ok)

interpretation await_codec: ipld_codec await_into "await_try_from D" "\<lambda>_. serde_ok D" for D
proof
  fix a :: await
  assume "serde_ok D"
  moreover have "await_into a = IMap [(branch (aw_result a), ILink (instruction_cid a))]"
    by (simp add: await_into_def pointer_into_def instruction_cid_def)
  ultimately show "await_try_from D (await_into a) = Ok a"
    by (cases "aw_result a") (auto simp: await_try_from_eq_Ok branch_defs)
qed

interpretation ability_codec: ipld_codec ability_into "ability_try_from D"
    "\<lambda>a. serde_ok D \<and> ability_normal a" for D
  by unfold_locales
    (simp add: ability_into_def ability_try_from_def serde_ok_simps ability_normal_def)

interpretation nonce_codec: ipld_codec nonce_into nonce_try_from nonce_wf
proof
  show "nonce_wf n \<Longrightarrow> nonce_try_from (nonce_into n) = Ok n" for n
    by (cases n) simp_all
qed

interpretation issuer_codec: ipld_codec "issuer_into D" "issuer_try_from D"
    "\<lambda>_. serde_ok D \<and> principal_text_ok D" for D
  by unfold_locales
    (simp add: issuer_into_def issuer_try_from_def serde_ok_simps principal_text_ok_def)

interpretation prf_codec: ipld_codec prf_into "prf_try_from D" "\<lambda>_. serde_ok D" for D
proof
  fix p
  assume "serde_ok D"
  then show "prf_try_from D (prf_into p) = Ok p"
    by (cases p) (simp add: prf_into_def prf_try_from_list try_map_map_Ok serde_ok_simps)
qed

interpretation ir_codec: ipld_codec "ir_into into" "ir_try_from from"
    "\<lambda>r. from (into (ir_inner r)) = ir_inner r" for into and "from"
proof
  show "from (into (ir_inner r)) = ir_inner r \<Longrightarrow> ir_try_from from (ir_into into r) = Ok r" for r
    by (cases r) (simp_all add: ir_try_from_def)
qed

interpretation resources_codec: ipld_codec resources_into "resources_try_from D"
    "\<lambda>r. serde_ok D \<and> resources_exact r" for D
proof
  fix r :: resources
  assume "serde_ok D \<and> resources_exact r"
  moreover from this have "map_option (\<lambda>t. as_millis t * 1000000) (time r) = time r"
    by (auto simp: resources_exact_def as_millis_def split: option.splits)
  ultimately show "resources_try_from D (resources_into r) = Ok r"
    by (subst resources_roundtrip_truncates) (auto simp: resources_exact_def)
qed

lemma ir_sql_roundtrip:
  "cbor_ok D \<Longrightarrow> ir_to_sql D r = Ok b \<Longrightarrow> ir_from_sql D b = Ok r"
  by (simp add: cbor_ok_def ir_to_sql_def ir_from_sql_def ir_codec.try_from_into)

end
