(* ===== verification/Input.thy ===== *)
theory Input
  imports Atoms
begin

text \<open>
  Inputs of instructions (\<open>homestar-core/src/workflow/input.rs\<close>, \<open>input/parse.rs\<close>): their
  conversions to and from IPLD, the promises and links they wait for, and the resolution of
  both by a lookup function. The type parameter \<open>'t\<close> is the task-specific value type; its
  conversions \<open>Ipld: From<T>\<close> and \<open>T: From<Ipld>\<close> are the arguments \<open>into\<close> and \<open>from\<close>. The
  asynchronous lookup is a function from a CID to a result, and \<open>join_all\<close> the list of the
  results in order.
\<close>

datatype resolve_error = Runtime string | Transport string | UnresolvedCid string

datatype 't input = InputIpld ipld | Deferred await | Arg "'t instruction_result"

datatype 't args = Args (args_inner: "'t input list")

section \<open>Conversions\<close>

fun input_into :: "('t \<Rightarrow> ipld) \<Rightarrow> 't input \<Rightarrow> ipld" where
  "input_into into (InputIpld x) = x"
| "input_into into (Deferred promise) = await_into promise"
| "input_into into (Arg arg) = ir_into into arg"

text \<open>The part of \<open>Input::try_from\<close> that runs when no await branch is present.\<close>

definition input_arg_or_ipld :: "(ipld \<Rightarrow> 't) \<Rightarrow> ipld \<Rightarrow> 't input" where
  "input_arg_or_ipld from x =
     (case ir_try_from from x of Ok r \<Rightarrow> Arg r | Err _ \<Rightarrow> InputIpld x)"

definition get_key_value :: "(string, ipld) btree_map \<Rightarrow> string \<Rightarrow> (string \<times> ipld) option" where
  "get_key_value m k = map_option (Pair k) (bt_get m k)"

fun or_else :: "'a option \<Rightarrow> 'a option \<Rightarrow> 'a option" where
  "or_else (Some x) y = Some x"
| "or_else None y = y"

definition input_try_from :: "deps \<Rightarrow> (ipld \<Rightarrow> 't) \<Rightarrow> ipld \<Rightarrow> string error + 't input" where
  "input_try_from D from x =
     (case from_ipld_map D x of
        Err _ \<Rightarrow> Ok (input_arg_or_ipld from x)
      | Ok m \<Rightarrow>
          (case or_else (or_else (get_key_value m OK_BRANCH) (get_key_value m ERR_BRANCH))
                  (get_key_value m PTR_BRANCH) of
             None \<Rightarrow> Ok (input_arg_or_ipld from x)
           | Some (br, y) \<Rightarrow>
               and_then (map_err error_string_of_unit (pointer_try_from D y)) (\<lambda>instruction.
               and_then (ok_or (await_result_of br) (InvalidDiscriminant br)) (\<lambda>r.
               Ok (Deferred \<lparr>aw_instruction = instruction, aw_result = r\<rparr>)))))"

definition args_into :: "('t \<Rightarrow> ipld) \<Rightarrow> 't args \<Rightarrow> ipld" where
  "args_into into args = IList (map (input_into into) (args_inner args))"

text \<open>One element of the list \<open>Args::try_from\<close> reads.\<close>

definition args_item :: "deps \<Rightarrow> (ipld \<Rightarrow> 't) \<Rightarrow> ipld \<Rightarrow> 't input" where
  "args_item D from x =
     (case ir_try_from from x of
        Ok r \<Rightarrow> Arg r
      | Err _ \<Rightarrow>
          (case await_try_from D x of
             Ok a \<Rightarrow> Deferred a
           | Err _ \<Rightarrow> InputIpld x))"

definition args_try_from :: "deps \<Rightarrow> (ipld \<Rightarrow> 't) \<Rightarrow> ipld \<Rightarrow> 'e error + 't args" where
  "args_try_from D from x =
     (case x of
        IList vec \<Rightarrow> Ok (Args (fold (\<lambda>x acc. acc @ [args_item D from x]) vec []))
      | _ \<Rightarrow> Err not_an_ipld_list)"

section \<open>What arguments wait for\<close>

definition deferreds :: "'t args \<Rightarrow> cid list" where
  "deferreds args =
     List.map_filter (\<lambda>i. case i of Deferred a \<Rightarrow> Some (instruction_cid a) | _ \<Rightarrow> None)
       (args_inner args)"

definition links :: "'t args \<Rightarrow> cid list" where
  "links args =
     List.map_filter (\<lambda>i. case i of InputIpld (ILink c) \<Rightarrow> Some c | _ \<Rightarrow> None)
       (args_inner args)"

section \<open>Resolution\<close>

text \<open>\<open>resolve_links\<close>: every link the lookup knows is replaced by the value it returns.\<close>

fun resolve_links ::
  "('t \<Rightarrow> ipld) \<Rightarrow> (cid \<Rightarrow> 'e + 't instruction_result) \<Rightarrow> ipld \<Rightarrow> ipld" where
  "resolve_links into f (IMap m) =
     IMap (bt_from (map (\<lambda>(k, v).
       case v of
         ILink c \<Rightarrow>
           (case f c of
              Ok r \<Rightarrow> if k = PTR_BRANCH then (k, ir_into into r) else (k, into (ir_inner r))
            | Err _ \<Rightarrow> (k, v))
       | IMap _ \<Rightarrow> (k, resolve_links into f v)
       | IList _ \<Rightarrow> (k, resolve_links into f v)
       | _ \<Rightarrow> (k, v)) m))"
| "resolve_links into f (IList l) =
     IList (map (\<lambda>v.
       case v of
         ILink c \<Rightarrow> (case f c of Ok r \<Rightarrow> into (ir_inner r) | Err _ \<Rightarrow> v)
       | IMap _ \<Rightarrow> resolve_links into f v
       | IList _ \<Rightarrow> resolve_links into f v
       | _ \<Rightarrow> v) l)"
| "resolve_links into f (ILink c) =
     (case f c of Ok r \<Rightarrow> into (ir_inner r) | Err _ \<Rightarrow> ILink c)"
| "resolve_links into f x = x"

definition input_resolve ::
  "deps \<Rightarrow> ('t \<Rightarrow> ipld) \<Rightarrow> (cid \<Rightarrow> 'e + 't instruction_result) \<Rightarrow> 't input \<Rightarrow> 't input" where
  "input_resolve D into f i =
     (case i of
        InputIpld x \<Rightarrow>
          (case await_try_from D x of
             Ok a \<Rightarrow> (case f (instruction_cid a) of Ok r \<Rightarrow> Arg r | Err _ \<Rightarrow> Deferred a)
           | Err _ \<Rightarrow> InputIpld (resolve_links into f x))
      | Arg r \<Rightarrow> Arg r
      | Deferred a \<Rightarrow> (case f (instruction_cid a) of Ok r \<Rightarrow> Arg r | Err _ \<Rightarrow> Deferred a))"

definition resolve_args ::
  "deps \<Rightarrow> ('t \<Rightarrow> ipld) \<Rightarrow> (cid \<Rightarrow> 'e + 't instruction_result) \<Rightarrow> 't input list \<Rightarrow> 't input list" where
  "resolve_args D into f is = map (input_resolve D into f) is"

definition args_resolve ::
  "deps \<Rightarrow> ('t \<Rightarrow> ipld) \<Rightarrow> (cid \<Rightarrow> 'e + 't instruction_result) \<Rightarrow> 't args \<Rightarrow> resolve_error + 't args" where
  "args_resolve D into f args = Ok (Args (resolve_args D into f (args_inner args)))"

section \<open>Parsing\<close>

datatype 't input_parse_error =
    ParseFromIpld string
  | IpldToArgs "'t args"
  | UnexpectedTaskInput "'t input"
  | ParseWorkflow "'t error"

record 't parsed =
  parsed_args :: "'t args"
  parsed_fun :: "string option"

definition parsed_with :: "'t args \<Rightarrow> 't parsed" where
  "parsed_with a = \<lparr>parsed_args = a, parsed_fun = None\<rparr>"

definition parsed_with_fn :: "string \<Rightarrow> 't args \<Rightarrow> 't parsed" where
  "parsed_with_fn f a = \<lparr>parsed_args = a, parsed_fun = Some f\<rparr>"

text \<open>\<open>homestar-core/src/unit.rs\<close>: the unit value type and its parser.\<close>

definition unit_into :: "unit \<Rightarrow> ipld" where
  "unit_into u = INull"

definition unit_from :: "ipld \<Rightarrow> unit" where
  "unit_from x = ()"

definition unit_parse :: "deps \<Rightarrow> unit input \<Rightarrow> unit input_parse_error + unit parsed" where
  "unit_parse D i =
     and_then
       (case input_into unit_into i of
          IList v \<Rightarrow> map_err ParseWorkflow (args_try_from D unit_from (IList v))
        | x \<Rightarrow> and_then
                 (map_err (\<lambda>e. ParseWorkflow (error_unit_of_string e)) (input_try_from D unit_from x))
                 (\<lambda>arg. Ok (Args [arg])))
       (\<lambda>args. Ok (parsed_with args))"

section \<open>Lemmas on conversions\<close>

lemma fold_push: "fold (\<lambda>x acc. acc @ [g x]) xs acc = acc @ map g xs"
  by (induction xs arbitrary: acc) auto

lemma args_try_from_eq_Ok:
  "args_try_from D from x = Ok a \<longleftrightarrow> (\<exists>xs. x = IList xs \<and> a = Args (map (args_item D from) xs))"
  by (auto simp: args_try_from_def fold_push split: ipld.splits)

lemma ir_try_from_map: "\<exists>e. ir_try_from from (IMap m) = Err e"
  by (simp add: ir_try_from_def)

lemma from_ipld_map_cases:
  assumes "serde_ok D"
  obtains (map) m where "x = IMap m" "from_ipld_map D x = Ok m"
  | (other) e where "from_ipld_map D x = Err e" "\<And>m. x \<noteq> IMap m"
  using assms by (cases "from_ipld_map D x") (auto simp: serde_okD)

text \<open>
  Inputs whose IPLD form reads back as the same input: a literal must not look like a result
  or carry an await branch, an argument must survive the conversion of its value.
\<close>

fun input_exact :: "('t \<Rightarrow> ipld) \<Rightarrow> (ipld \<Rightarrow> 't) \<Rightarrow> 't input \<Rightarrow> bool" where
  "input_exact into from (InputIpld x) =
     ((\<forall>r. ir_try_from from x \<noteq> Ok r) \<and>
      (case x of IMap m \<Rightarrow> (\<forall>r. bt_get m (branch r) = None) | _ \<Rightarrow> True))"
| "input_exact into from (Deferred a) = True"
| "input_exact into from (Arg r) = (from (into (ir_inner r)) = ir_inner r)"

lemma input_try_from_plain:
  assumes "serde_ok D" and "input_exact into from (InputIpld x)"
  shows "input_try_from D from x = Ok (InputIpld x)"
proof -
  have arg: "input_arg_or_ipld from x = InputIpld x"
    using assms(2) by (auto simp: input_arg_or_ipld_def split: sum.splits)
  from assms(1) show ?thesis
  proof (cases rule: from_ipld_map_cases [where x = x])
    case (map m)
    with assms(2) have "bt_get m (branch r) = None" for r by simp
    from this [of AwaitOk] this [of AwaitError] this [of AwaitPtr] show ?thesis
      using map arg by (simp add: input_try_from_def get_key_value_def)
  qed (simp add: input_try_from_def arg)
qed

lemma input_try_from_await:
  assumes "serde_ok D"
  shows "input_try_from D from (await_into a) = Ok (Deferred a)"
proof (cases a)
  case (fields p r)
  have "await_into a = IMap [(branch r, ILink (ptr_cid p))]"
    by (simp add: fields await_into_def pointer_into_def)
  with assms show ?thesis
    by (cases r)
      (simp_all add: fields input_try_from_def serde_ok_simps get_key_value_def pointer_try_from_def
        await_result_of_def branch_defs)
qed

lemma from_ipld_map_list: "serde_ok D \<Longrightarrow> \<exists>e. from_ipld_map D (IList xs) = Err e"
  by (cases "from_ipld_map D (IList xs)") (auto simp: serde_okD)

lemma input_try_from_arg:
  assumes "serde_ok D" and "from (into (ir_inner r)) = ir_inner r"
  shows "input_try_from D from (ir_into into r) = Ok (Arg r)"
proof -
  obtain xs where xs: "ir_into into r = IList xs" by (cases r) auto
  moreover obtain e where "from_ipld_map D (IList xs) = Err e"
    using from_ipld_map_list [OF assms(1)] by blast
  ultimately show ?thesis
    using ir_codec.try_from_into [of "from" into r] assms(2)
    by (simp add: input_try_from_def input_arg_or_ipld_def)
qed

interpretation input_codec: ipld_codec "input_into into" "input_try_from D from"
    "\<lambda>i. serde_ok D \<and> input_exact into from i" for D into and "from"
proof
  fix i
  assume "serde_ok D \<and> input_exact into from i"
  then show "input_try_from D from (input_into into i) = Ok i"
    by (cases i) (auto simp: input_try_from_plain input_try_from_await input_try_from_arg
        simp del: input_exact.simps(1))
qed

text \<open>
  An element of an argument list reads back when, besides, a literal is not a map of one key
  to a link, whatever the key.
\<close>

fun item_exact :: "('t \<Rightarrow> ipld) \<Rightarrow> (ipld \<Rightarrow> 't) \<Rightarrow> 't input \<Rightarrow> bool" where
  "item_exact into from (InputIpld x) =
     ((\<forall>r. ir_try_from from x \<noteq> Ok r) \<and> (\<forall>k c. x \<noteq> IMap [(k, ILink c)]))"
| "item_exact into from (Deferred a) = True"
| "item_exact into from (Arg r) = (from (into (ir_inner r)) = ir_inner r)"

lemma await_try_from_none:
  assumes "serde_ok D" and "\<And>k c. x \<noteq> IMap [(k, ILink c)]"
  shows "\<exists>e. await_try_from D x = Err e"
  using assms await_try_from_eq_Ok [OF assms(1), of x]
  by (cases "await_try_from D x") auto

lemma args_item_exact:
  assumes "serde_ok D" and "item_exact into from i"
  shows "args_item D from (input_into into i) = i"
proof (cases i)
  case (InputIpld x)
  then have "\<forall>r. ir_try_from from x \<noteq> Ok r" and "\<And>k c. x \<noteq> IMap [(k, ILink c)]"
    using assms(2) by auto
  moreover from await_try_from_none [OF assms(1) this(2)]
  obtain e where "await_try_from D x = Err e" by blast
  ultimately show ?thesis
    by (auto simp: InputIpld args_item_def split: sum.splits)
next
  case (Deferred a)
  have "\<exists>m. await_into a = IMap m" by (simp add: await_into_def)
  then show ?thesis
    using await_codec.try_from_into [OF assms(1), of a] ir_try_from_map
    by (auto simp: Deferred args_item_def ir_try_from_def)
next
  case (Arg r)
  with assms(2) show ?thesis
    using ir_codec.try_from_into [of "from" into r] by (simp add: args_item_def)
qed

interpretation args_codec: ipld_codec "args_into into" "args_try_from D from"
    "\<lambda>a. serde_ok D \<and> (\<forall>i \<in> set (args_inner a). item_exact into from i)" for D into and "from"
proof
  fix a :: "'a args"
  assume "serde_ok D \<and> (\<forall>i \<in> set (args_inner a). item_exact into from i)"
  then show "args_try_from D from (args_into into a) = Ok a"
    by (cases a) (auto simp: args_into_def args_try_from_eq_Ok args_item_exact
        intro!: map_idI [symmetric])
qed

section \<open>Lemmas on resolution\<close>

text \<open>The links of a value.\<close>

fun ipld_links :: "ipld \<Rightarrow> cid set" where
  "ipld_links (ILink c) = {c}"
| "ipld_links (IList xs) = (\<Union>x \<in> set xs. ipld_links x)"
| "ipld_links (IMap m) = (\<Union>p \<in> set m. ipld_links (snd p))"
| "ipld_links _ = {}"

text \<open>What replaces a link, by the key it stands under.\<close>

definition link_value ::
  "('t \<Rightarrow> ipld) \<Rightarrow> (cid \<Rightarrow> 'e + 't instruction_result) \<Rightarrow> string option \<Rightarrow> cid \<Rightarrow> ipld" where
  "link_value into f k c =
     (case f c of
        Ok r \<Rightarrow> if k = Some PTR_BRANCH then ir_into into r else into (ir_inner r)
      | Err _ \<Rightarrow> ILink c)"

text \<open>Reference definition: substitution of links, recursively, at every position.\<close>

fun subst_links :: "(string option \<Rightarrow> cid \<Rightarrow> ipld) \<Rightarrow> string option \<Rightarrow> ipld \<Rightarrow> ipld" where
  "subst_links g k (ILink c) = g k c"
| "subst_links g k (IList xs) = IList (map (subst_links g None) xs)"
| "subst_links g k (IMap m) = IMap (map (\<lambda>p. (fst p, subst_links g (Some (fst p)) (snd p))) m)"
| "subst_links g k x = x"

lemma bt_inv_map_snd: "bt_inv (map (\<lambda>p. (fst p, h p)) m) = bt_inv m"
  by (simp add: bt_inv_def comp_def)

lemma resolve_links_map_step:
  "(case v of
      ILink c \<Rightarrow>
        (case f c of
           Ok r \<Rightarrow> if k = PTR_BRANCH then (k, ir_into into r) else (k, into (ir_inner r))
         | Err _ \<Rightarrow> (k, v))
    | IMap _ \<Rightarrow> (k, resolve_links into f v)
    | IList _ \<Rightarrow> (k, resolve_links into f v)
    | _ \<Rightarrow> (k, v)) =
   (k, case v of ILink c \<Rightarrow> link_value into f (Some k) c | _ \<Rightarrow> resolve_links into f v)"
  by (auto simp: link_value_def split: ipld.split sum.split)

lemma resolve_links_list_step:
  "(case v of
      ILink c \<Rightarrow> (case f c of Ok r \<Rightarrow> into (ir_inner r) | Err _ \<Rightarrow> v)
    | IMap _ \<Rightarrow> resolve_links into f v
    | IList _ \<Rightarrow> resolve_links into f v
    | _ \<Rightarrow> v) = resolve_links into f v"
  by (cases v) (auto split: sum.split)

lemma subst_links_no_link:
  "(\<And>c. x \<noteq> ILink c) \<Longrightarrow> subst_links g k x = subst_links g k' x"
  by (cases x) auto

text \<open>The case distinctions of \<open>resolve_links\<close> amount to the plain substitution.\<close>

lemma resolve_links_subst:
  "wf_ipld x \<Longrightarrow> resolve_links into f x = subst_links (link_value into f) None x"
proof (induction into f x rule: resolve_links.induct)
  case (1 into f m)
  have step: "(case v of ILink c \<Rightarrow> link_value into f (Some k) c | _ \<Rightarrow> resolve_links into f v) =
      subst_links (link_value into f) (Some k) v" if "(k, v) \<in> set m" for k v
  proof -
    have wf: "wf_ipld v" using "1.prems" that by (metis snd_conv wf_ipld.simps(3))
    show ?thesis
    proof (cases v)
      case (IMap m')
      with "1.IH"(2) [OF that refl] wf
      have "resolve_links into f v = subst_links (link_value into f) None v" by blast
      with IMap show ?thesis by simp
    next
      case (IList l)
      with "1.IH"(1) [OF that refl] wf
      have "resolve_links into f v = subst_links (link_value into f) None v" by blast
      with IList show ?thesis by simp
    qed simp_all
  qed
  have "resolve_links into f (IMap m) =
      IMap (bt_from (map (\<lambda>p. (fst p, subst_links (link_value into f) (Some (fst p)) (snd p))) m))"
    unfolding resolve_links.simps(1) resolve_links_map_step
    by (auto simp: step intro!: arg_cong [where f = bt_from])
  with "1.prems" show ?case by (simp add: bt_from_sorted bt_inv_map_snd)
next
  case (2 into f l)
  have "resolve_links into f v = subst_links (link_value into f) None v" if "v \<in> set l" for v
  proof (cases v)
    case (IMap m')
    with "2.IH"(2) [OF that IMap] "2.prems" that show ?thesis by (metis wf_ipld.simps(2))
  next
    case (IList l')
    with "2.IH"(1) [OF that IList] "2.prems" that show ?thesis by (metis wf_ipld.simps(2))
  qed (simp_all add: link_value_def split: sum.split)
  then show ?case unfolding resolve_links.simps(2) resolve_links_list_step by simp
qed (simp_all add: link_value_def split: sum.split)

lemma ipld_links_ir_into: "ipld_links (ir_into into r) = ipld_links (into (ir_inner r))"
  by (cases r) auto

lemma ipld_links_subst:
  "(\<And>k c. ipld_links (g k c) = h c) \<Longrightarrow> ipld_links (subst_links g k x) = (\<Union>c \<in> ipld_links x. h c)"
  by (induction g k x rule: subst_links.induct) auto

text \<open>
  The links of a resolved value are the links the lookup does not know and the links of the
  values it returned, and nothing else.
\<close>

lemma resolve_links_links:
  assumes "wf_ipld x"
  shows "ipld_links (resolve_links into f x) =
    (\<Union>c \<in> ipld_links x. case f c of Ok r \<Rightarrow> ipld_links (into (ir_inner r)) | Err _ \<Rightarrow> {c})"
  unfolding resolve_links_subst [OF assms]
  by (rule ipld_links_subst) (auto simp: link_value_def ipld_links_ir_into split: sum.splits)

lemma wf_subst_links:
  "(\<And>k c. wf_ipld (g k c)) \<Longrightarrow> wf_ipld x \<Longrightarrow> wf_ipld (subst_links g k x)"
  by (induction g k x rule: subst_links.induct) (auto simp: bt_inv_map_snd)

lemma wf_ir_into: "wf_ipld (ir_into into r) = wf_ipld (into (ir_inner r))"
  by (cases r) auto

lemma resolve_links_wf:
  assumes "wf_ipld x" and "\<And>t. wf_ipld (into t)"
  shows "wf_ipld (resolve_links into f x)"
  unfolding resolve_links_subst [OF assms(1)]
  by (rule wf_subst_links) (auto simp: link_value_def assms wf_ir_into split: sum.split)

lemma resolve_links_unknown:
  assumes "wf_ipld x" and "\<And>c. c \<in> ipld_links x \<Longrightarrow> \<exists>e. f c = Err e"
  shows "resolve_links into f x = x"
proof -
  have "subst_links (link_value into f) k x = x" for k
    using assms
  proof (induction "link_value into f" k x rule: subst_links.induct)
    case (2 k xs)
    then have "subst_links (link_value into f) None x = x" if "x \<in> set xs" for x
      using that by (metis UN_I ipld_links.simps(2) wf_ipld.simps(2))
    then show ?case by (simp add: map_idI)
  next
    case (3 k m)
    then have "subst_links (link_value into f) (Some (fst p)) (snd p) = snd p" if "p \<in> set m" for p
      using that by (metis UN_I ipld_links.simps(3) wf_ipld.simps(3))
    then show ?case by (auto intro: map_idI)
  qed (auto simp: link_value_def split: sum.splits)
  then show ?thesis by (simp add: resolve_links_subst assms(1))
qed

text \<open>Resolution of one input, by cases.\<close>

lemma input_resolve_deferred:
  "input_resolve D into f i = Deferred a \<Longrightarrow> \<exists>e. f (instruction_cid a) = Err e"
  by (auto simp: input_resolve_def split: input.splits sum.splits)

lemma deferreds_resolve:
  "set (deferreds (Args (resolve_args D into f is))) \<subseteq> {c. \<exists>e. f c = Err e}"
  by (auto simp: deferreds_def resolve_args_def List.map_filter_def
      split: input.splits) (metis input_resolve_deferred)

end
