(* ===== verification/Workflow_Core.thy ===== *)
theory Workflow_Core
  imports Input
begin

text \<open>
  Instructions, tasks, invocations, workflows and invocation receipts of \<open>homestar-core\<close>
  (\<open>workflow/instruction.rs\<close>, \<open>task.rs\<close>, \<open>invocation.rs\<close>, \<open>workflow.rs\<close>, \<open>receipt.rs\<close>) with
  their IPLD forms. Each type is an instance of \<open>ipld_codec\<close>; the fields of a struct are
  decoded in the order in which the code evaluates them, so that the first error is the one
  the code returns.
\<close>

text \<open>\<open>map.get(KEY).ok_or_else(|| Error::MissingField(KEY))\<close>.\<close>

definition get_field :: "(string, ipld) btree_map \<Rightarrow> string \<Rightarrow> 't error + ipld" where
  "get_field m k = ok_or (bt_get m k) (MissingField k)"

section \<open>Instructions\<close>

definition RESOURCE_KEY :: string where "RESOURCE_KEY = ''rsc''"
definition OP_KEY :: string where "OP_KEY = ''op''"
definition INPUT_KEY :: string where "INPUT_KEY = ''input''"
definition NNC_KEY :: string where "NNC_KEY = ''nnc''"

lemmas instruction_keys = RESOURCE_KEY_def OP_KEY_def INPUT_KEY_def NNC_KEY_def

record 't instruction =
  rsc :: url
  op :: ability
  input :: "'t input"
  nnc :: nonce

definition instruction_new :: "url \<Rightarrow> ability \<Rightarrow> 't input \<Rightarrow> 't instruction" where
  "instruction_new r a i = \<lparr>rsc = r, op = a, input = i, nnc = NonceEmpty\<rparr>"

definition instruction_new_with_nonce ::
  "url \<Rightarrow> ability \<Rightarrow> 't input \<Rightarrow> nonce \<Rightarrow> 't instruction" where
  "instruction_new_with_nonce r a i n = \<lparr>rsc = r, op = a, input = i, nnc = n\<rparr>"

definition instruction_into :: "deps \<Rightarrow> ('t \<Rightarrow> ipld) \<Rightarrow> 't instruction \<Rightarrow> ipld" where
  "instruction_into D into i =
     IMap (bt_from
       [(RESOURCE_KEY, IString (url_to_string D (rsc i))),
        (OP_KEY, IString (ability_str (op i))),
        (INPUT_KEY, input_into into (input i)),
        (NNC_KEY, nonce_into (nnc i))])"

definition instruction_rsc :: "deps \<Rightarrow> (string, ipld) btree_map \<Rightarrow> unit error + url" where
  "instruction_rsc D m =
     (case bt_get m RESOURCE_KEY of
        Some (ILink c) \<Rightarrow>
          and_then (map_err CidEncode (cid_to_string_of_base D c)) (\<lambda>txt.
          map_err ParseResource (url_parse D (''ipfs://'' @ txt)))
      | Some (IString txt) \<Rightarrow> map_err ParseResource (url_parse D txt)
      | _ \<Rightarrow> Err (MissingField RESOURCE_KEY))"

definition instruction_try_from ::
  "deps \<Rightarrow> (ipld \<Rightarrow> 't) \<Rightarrow> ipld \<Rightarrow> unit error + 't instruction" where
  "instruction_try_from D from x =
     and_then (map_err FromIpld (from_ipld_map D x)) (\<lambda>m.
     and_then (instruction_rsc D m) (\<lambda>r.
     and_then (get_field m OP_KEY) (\<lambda>o_ipld.
     and_then (map_err FromIpld (from_ipld_string D o_ipld)) (\<lambda>o_str.
     and_then (map_err error_unit_of_string (get_field m INPUT_KEY)) (\<lambda>i_ipld.
     and_then (map_err error_unit_of_string (input_try_from D from i_ipld)) (\<lambda>i.
     and_then (nonce_try_from (unwrap_or (bt_get m NNC_KEY) (IString ''''))) (\<lambda>n.
     Ok \<lparr>rsc = r, op = Ability o_str, input = i, nnc = n\<rparr>)))))))"

definition instruction_to_cid :: "deps \<Rightarrow> ('t \<Rightarrow> ipld) \<Rightarrow> 't instruction \<Rightarrow> unit error + cid" where
  "instruction_to_cid D into i = to_cid D (instruction_into D into) i"

definition instruction_pointer ::
  "deps \<Rightarrow> ('t \<Rightarrow> ipld) \<Rightarrow> 't instruction \<Rightarrow> unit error + pointer" where
  "instruction_pointer D into i = and_then (instruction_to_cid D into i) (\<lambda>c. Ok (Pointer c))"

datatype 't run_instruction = Expanded "'t instruction" | Ptr pointer

fun run_into_instruction ::
  "'t run_instruction \<Rightarrow> 't run_instruction error + 't instruction" where
  "run_into_instruction (Expanded i) = Ok i"
| "run_into_instruction e = Err (InvalidDiscriminant e)"

fun run_into_pointer :: "'t run_instruction \<Rightarrow> 't run_instruction error + pointer" where
  "run_into_pointer (Ptr p) = Ok p"
| "run_into_pointer e = Err (InvalidDiscriminant e)"

fun run_into :: "deps \<Rightarrow> ('t \<Rightarrow> ipld) \<Rightarrow> 't run_instruction \<Rightarrow> ipld" where
  "run_into D into (Expanded i) = instruction_into D into i"
| "run_into D into (Ptr p) = pointer_into p"

definition run_try_from ::
  "deps \<Rightarrow> (ipld \<Rightarrow> 't) \<Rightarrow> ipld \<Rightarrow> unit error + 't run_instruction" where
  "run_try_from D from x =
     (case x of
        IMap _ \<Rightarrow> and_then (instruction_try_from D from x) (\<lambda>i. Ok (Expanded i))
      | ILink _ \<Rightarrow> and_then (pointer_try_from D x) (\<lambda>p. Ok (Ptr p))
      | other \<Rightarrow> Err (unexpected_ipld other))"

section \<open>Tasks\<close>

definition RUN_KEY :: string where "RUN_KEY = ''run''"
definition CAUSE_KEY :: string where "CAUSE_KEY = ''cause''"
definition METADATA_KEY :: string where "METADATA_KEY = ''meta''"
definition PROOF_KEY :: string where "PROOF_KEY = ''prf''"

lemmas task_keys = RUN_KEY_def CAUSE_KEY_def METADATA_KEY_def PROOF_KEY_def

record 't task =
  run :: "'t run_instruction"
  cause :: "pointer option"
  task_meta :: ipld
  task_prf :: ucan_prf

definition task_new :: "'t run_instruction \<Rightarrow> ipld \<Rightarrow> ucan_prf \<Rightarrow> 't task" where
  "task_new r m p = \<lparr>run = r, cause = None, task_meta = m, task_prf = p\<rparr>"

definition task_new_with_cause ::
  "'t run_instruction \<Rightarrow> ipld \<Rightarrow> ucan_prf \<Rightarrow> pointer option \<Rightarrow> 't task" where
  "task_new_with_cause r m p c = \<lparr>run = r, cause = c, task_meta = m, task_prf = p\<rparr>"

definition task_instruction_cid :: "deps \<Rightarrow> ('t \<Rightarrow> ipld) \<Rightarrow> 't task \<Rightarrow> unit error + cid" where
  "task_instruction_cid D into t =
     (case run t of
        Expanded i \<Rightarrow> and_then (instruction_to_cid D into i) Ok
      | Ptr p \<Rightarrow> Ok (ptr_cid p))"

definition task_into :: "deps \<Rightarrow> ('t \<Rightarrow> ipld) \<Rightarrow> 't task \<Rightarrow> ipld" where
  "task_into D into t =
     IMap (bt_from
       [(RUN_KEY, run_into D into (run t)),
        (CAUSE_KEY, case cause t of None \<Rightarrow> INull | Some c \<Rightarrow> pointer_into c),
        (METADATA_KEY, task_meta t),
        (PROOF_KEY, prf_into (task_prf t))])"

definition not_null :: "ipld \<Rightarrow> ipld option" where
  "not_null x = (case x of INull \<Rightarrow> None | x \<Rightarrow> Some x)"

definition task_try_from :: "deps \<Rightarrow> (ipld \<Rightarrow> 't) \<Rightarrow> ipld \<Rightarrow> unit error + 't task" where
  "task_try_from D from x =
     and_then (map_err FromIpld (from_ipld_map D x)) (\<lambda>m.
     and_then (get_field m RUN_KEY) (\<lambda>r_ipld.
     and_then (run_try_from D from r_ipld) (\<lambda>r.
     let c = Option.bind (Option.bind (bt_get m CAUSE_KEY) not_null)
               (\<lambda>y. ok (pointer_try_from D y)) in
     and_then (get_field m METADATA_KEY) (\<lambda>meta.
     and_then (get_field m PROOF_KEY) (\<lambda>p_ipld.
     and_then (prf_try_from D p_ipld) (\<lambda>p.
     Ok \<lparr>run = r, cause = c, task_meta = meta, task_prf = p\<rparr>))))))"

definition task_to_cid :: "deps \<Rightarrow> ('t \<Rightarrow> ipld) \<Rightarrow> 't task \<Rightarrow> unit error + cid" where
  "task_to_cid D into t = to_cid D (task_into D into) t"

definition task_pointer :: "deps \<Rightarrow> ('t \<Rightarrow> ipld) \<Rightarrow> 't task \<Rightarrow> unit error + pointer" where
  "task_pointer D into t = and_then (task_to_cid D into t) (\<lambda>c. Ok (Pointer c))"

section \<open>Invocations\<close>

record 't invocation =
  inv_task :: "'t task"

definition invocation_into :: "deps \<Rightarrow> ('t \<Rightarrow> ipld) \<Rightarrow> 't invocation \<Rightarrow> ipld" where
  "invocation_into D into v = IMap (bt_from [(''task'', task_into D into (inv_task v))])"

definition invocation_try_from ::
  "deps \<Rightarrow> (ipld \<Rightarrow> 't) \<Rightarrow> ipld \<Rightarrow> unit error + 't invocation" where
  "invocation_try_from D from x =
     and_then (map_err FromIpld (from_ipld_map D x)) (\<lambda>m.
     and_then (get_field m ''task'') (\<lambda>t_ipld.
     and_then (task_try_from D from t_ipld) (\<lambda>t. Ok \<lparr>inv_task = t\<rparr>)))"

definition invocation_pointer ::
  "deps \<Rightarrow> ('t \<Rightarrow> ipld) \<Rightarrow> 't invocation \<Rightarrow> unit error + pointer" where
  "invocation_pointer D into v =
     and_then (to_cid D (invocation_into D into) v) (\<lambda>c. Ok (Pointer c))"

section \<open>Workflows\<close>

definition TASKS_KEY :: string where "TASKS_KEY = ''tasks''"

record 't workflow =
  tasks :: "'t task list"

definition workflow_len :: "'t workflow \<Rightarrow> u32" where
  "workflow_len w = word_of_nat (length (tasks w))"

definition workflow_is_empty :: "'t workflow \<Rightarrow> bool" where
  "workflow_is_empty w \<longleftrightarrow> tasks w = []"

definition workflow_into :: "deps \<Rightarrow> ('t \<Rightarrow> ipld) \<Rightarrow> 't workflow \<Rightarrow> ipld" where
  "workflow_into D into w =
     IMap (bt_from [(TASKS_KEY, IList (map (task_into D into) (tasks w)))])"

definition workflow_try_from :: "deps \<Rightarrow> (ipld \<Rightarrow> 't) \<Rightarrow> ipld \<Rightarrow> unit error + 't workflow" where
  "workflow_try_from D from x =
     and_then (map_err FromIpld (from_ipld_map D x)) (\<lambda>m.
     and_then (get_field m TASKS_KEY) (\<lambda>y.
     and_then
       (case y of
          IList ts \<Rightarrow>
            try_fold (\<lambda>acc z. and_then (task_try_from D from z) (\<lambda>t. Ok (acc @ [t]))) [] ts
        | _ \<Rightarrow> Err not_an_ipld_list)
       (\<lambda>ts. Ok \<lparr>tasks = ts\<rparr>)))"

definition workflow_to_cid :: "deps \<Rightarrow> ('t \<Rightarrow> ipld) \<Rightarrow> 't workflow \<Rightarrow> unit error + cid" where
  "workflow_to_cid D into w = to_cid D (workflow_into D into) w"

section \<open>Invocation receipts\<close>

definition RAN_KEY :: string where "RAN_KEY = ''ran''"
definition OUT_KEY :: string where "OUT_KEY = ''out''"
definition ISSUER_KEY :: string where "ISSUER_KEY = ''iss''"

lemmas receipt_keys = RAN_KEY_def OUT_KEY_def ISSUER_KEY_def METADATA_KEY_def PROOF_KEY_def

record invocation_receipt =
  ran :: pointer
  out :: "ipld instruction_result"
  meta :: ipld
  issuer :: "issuer option"
  proof_links :: ucan_prf

definition receipt_into :: "deps \<Rightarrow> invocation_receipt \<Rightarrow> ipld" where
  "receipt_into D r =
     IMap (bt_from
       [(RAN_KEY, pointer_into (ran r)),
        (OUT_KEY, ir_into id (out r)),
        (METADATA_KEY, meta r),
        (ISSUER_KEY, case issuer r of Some i \<Rightarrow> IString (issuer_to_string D i) | None \<Rightarrow> INull),
        (PROOF_KEY, prf_into (proof_links r))])"

definition receipt_try_from :: "deps \<Rightarrow> ipld \<Rightarrow> unit error + invocation_receipt" where
  "receipt_try_from D x =
     and_then (map_err FromIpld (from_ipld_map D x)) (\<lambda>m.
     and_then (get_field m RAN_KEY) (\<lambda>ran_ipld.
     and_then (pointer_try_from D ran_ipld) (\<lambda>ran_ptr.
     and_then (get_field m OUT_KEY) (\<lambda>out_ipld.
     and_then (get_field m METADATA_KEY) (\<lambda>meta_ipld.
     let iss = map_option Issuer
                 (Option.bind (Option.bind (bt_get m ISSUER_KEY) not_null)
                   (\<lambda>y. ok (from_ipld_principal D y))) in
     and_then (get_field m PROOF_KEY) (\<lambda>prf_ipld.
     and_then (ir_try_from id out_ipld) (\<lambda>o_res.
     and_then (prf_try_from D prf_ipld) (\<lambda>p.
     Ok \<lparr>ran = ran_ptr, out = o_res, meta = meta_ipld, issuer = iss, proof_links = p\<rparr>))))))))"

definition receipt_to_bytes :: "deps \<Rightarrow> invocation_receipt \<Rightarrow> unit error + bytes" where
  "receipt_to_bytes D r = map_err DagCborTranslation (cbor_encode D (receipt_into D r))"

definition receipt_from_bytes :: "deps \<Rightarrow> bytes \<Rightarrow> unit error + invocation_receipt" where
  "receipt_from_bytes D b =
     and_then (map_err DagCborTranslation (cbor_decode D b)) (\<lambda>x. receipt_try_from D x)"

definition receipt_to_cid :: "deps \<Rightarrow> invocation_receipt \<Rightarrow> unit error + cid" where
  "receipt_to_cid D r = to_cid D (receipt_into D) r"

definition receipt_pointer :: "deps \<Rightarrow> invocation_receipt \<Rightarrow> unit error + pointer" where
  "receipt_pointer D r = and_then (receipt_to_cid D r) (\<lambda>c. Ok (Pointer c))"

section \<open>Lemmas\<close>

text \<open>The sorted forms of the maps the conversions build.\<close>

lemma instruction_into_map:
  "instruction_into D into i =
     IMap [(INPUT_KEY, input_into into (input i)), (NNC_KEY, nonce_into (nnc i)),
           (OP_KEY, IString (ability_str (op i))),
           (RESOURCE_KEY, IString (url_to_string D (rsc i)))]"
  by (simp add: instruction_into_def bt_from_def instruction_keys)

lemma task_into_map:
  "task_into D into t =
     IMap [(CAUSE_KEY, case cause t of None \<Rightarrow> INull | Some c \<Rightarrow> pointer_into c),
           (METADATA_KEY, task_meta t), (PROOF_KEY, prf_into (task_prf t)),
           (RUN_KEY, run_into D into (run t))]"
  by (simp add: task_into_def bt_from_def task_keys)

lemma receipt_into_map:
  "receipt_into D r =
     IMap [(ISSUER_KEY, case issuer r of Some i \<Rightarrow> IString (issuer_to_string D i) | None \<Rightarrow> INull),
           (METADATA_KEY, meta r), (OUT_KEY, ir_into id (out r)),
           (PROOF_KEY, prf_into (proof_links r)), (RAN_KEY, pointer_into (ran r))]"
  by (simp add: receipt_into_def bt_from_def receipt_keys)

definition instruction_exact ::
  "deps \<Rightarrow> ('t \<Rightarrow> ipld) \<Rightarrow> (ipld \<Rightarrow> 't) \<Rightarrow> 't instruction \<Rightarrow> bool" where
  "instruction_exact D into from i \<longleftrightarrow>
     serde_ok D \<and> url_text_ok D \<and> input_exact into from (input i) \<and> nonce_wf (nnc i)"

interpretation instruction_codec:
  ipld_codec "instruction_into D into" "instruction_try_from D from"
    "instruction_exact D into from" for D into and "from"
proof
  fix i
  assume v: "instruction_exact D into from i"
  then have "instruction_rsc D
      [(INPUT_KEY, input_into into (input i)), (NNC_KEY, nonce_into (nnc i)),
       (OP_KEY, IString (ability_str (op i))),
       (RESOURCE_KEY, IString (url_to_string D (rsc i)))] = Ok (rsc i)"
    by (simp add: instruction_exact_def instruction_rsc_def instruction_keys url_text_ok_def)
  moreover have "input_try_from D from (input_into into (input i)) = Ok (input i)"
    using v by (simp add: input_codec.try_from_into instruction_exact_def)
  moreover have "nonce_try_from (nonce_into (nnc i)) = Ok (nnc i)"
    using v by (simp add: nonce_codec.try_from_into instruction_exact_def)
  ultimately show "instruction_try_from D from (instruction_into D into i) = Ok i"
    using v
    by (simp add: instruction_into_map instruction_try_from_def serde_ok_simps get_field_def
        instruction_exact_def) (simp add: instruction_keys)
qed

fun run_exact :: "deps \<Rightarrow> ('t \<Rightarrow> ipld) \<Rightarrow> (ipld \<Rightarrow> 't) \<Rightarrow> 't run_instruction \<Rightarrow> bool" where
  "run_exact D into from (Expanded i) = instruction_exact D into from i"
| "run_exact D into from (Ptr p) = serde_ok D"

interpretation run_codec:
  ipld_codec "run_into D into" "run_try_from D from" "run_exact D into from" for D into and "from"
proof
  fix r
  assume "run_exact D into from r"
  then show "run_try_from D from (run_into D into r) = Ok r"
    using instruction_codec.try_from_into [of D into "from"] pointer_codec.try_from_into [of D]
    by (cases r) (auto simp: run_try_from_def instruction_into_def pointer_into_def)
qed

definition task_exact :: "deps \<Rightarrow> ('t \<Rightarrow> ipld) \<Rightarrow> (ipld \<Rightarrow> 't) \<Rightarrow> 't task \<Rightarrow> bool" where
  "task_exact D into from t \<longleftrightarrow> serde_ok D \<and> run_exact D into from (run t)"

lemma cause_roundtrip:
  "serde_ok D \<Longrightarrow>
   Option.bind (not_null (case c of None \<Rightarrow> INull | Some c \<Rightarrow> pointer_into c))
     (\<lambda>y. ok (pointer_try_from D y)) = c"
  by (cases c) (auto simp: not_null_def pointer_into_def pointer_try_from_def serde_ok_simps)

interpretation task_codec:
  ipld_codec "task_into D into" "task_try_from D from" "task_exact D into from" for D into and "from"
proof
  fix t :: "'a task"
  assume v: "task_exact D into from t"
  then have "run_try_from D from (run_into D into (run t)) = Ok (run t)"
    by (simp add: run_codec.try_from_into task_exact_def)
  moreover have "prf_try_from D (prf_into (task_prf t)) = Ok (task_prf t)"
    using v by (simp add: prf_codec.try_from_into task_exact_def)
  ultimately show "task_try_from D from (task_into D into t) = Ok t"
    using v cause_roundtrip [of D "cause t"]
    by (simp add: task_into_map task_try_from_def serde_ok_simps get_field_def task_exact_def Let_def)
      (simp add: task_keys)
qed

interpretation invocation_codec:
  ipld_codec "invocation_into D into" "invocation_try_from D from"
    "\<lambda>v. task_exact D into from (inv_task v)" for D into and "from"
  by unfold_locales
    (simp add: invocation_into_def invocation_try_from_def get_field_def task_codec.try_from_into
      serde_ok_simps task_exact_def)

definition workflow_exact :: "deps \<Rightarrow> ('t \<Rightarrow> ipld) \<Rightarrow> (ipld \<Rightarrow> 't) \<Rightarrow> 't workflow \<Rightarrow> bool" where
  "workflow_exact D into from w \<longleftrightarrow>
     serde_ok D \<and> (\<forall>t \<in> set (tasks w). task_exact D into from t)"

interpretation workflow_codec:
  ipld_codec "workflow_into D into" "workflow_try_from D from" "workflow_exact D into from"
    for D into and "from"
  by unfold_locales
    (simp add: workflow_into_def workflow_try_from_def workflow_exact_def get_field_def
      serde_ok_simps try_fold_push_Nil task_codec.list_roundtrip)

text \<open>
  The issuer is written as text and read back with \<open>from_ipld\<close>; when that fails the receipt
  is still read, without an issuer.
\<close>

definition issuer_read :: "deps \<Rightarrow> issuer option \<Rightarrow> issuer option" where
  "issuer_read D iss =
     Option.bind iss (\<lambda>i. map_option Issuer (ok (from_ipld_principal D (IString (issuer_to_string D i)))))"

lemma receipt_roundtrip:
  assumes "serde_ok D"
  shows "receipt_try_from D (receipt_into D r) = Ok (r\<lparr>issuer := issuer_read D (issuer r)\<rparr>)"
proof -
  have "map_option Issuer
      (Option.bind (not_null (case issuer r of Some i \<Rightarrow> IString (issuer_to_string D i) | None \<Rightarrow> INull))
        (\<lambda>y. ok (from_ipld_principal D y))) = issuer_read D (issuer r)"
    by (cases "issuer r") (simp_all add: not_null_def issuer_read_def)
  moreover have "ir_try_from id (ir_into id (out r)) = Ok (out r)"
    by (simp add: ir_codec.try_from_into)
  ultimately show ?thesis
    using assms pointer_codec.try_from_into [OF assms] prf_codec.try_from_into [OF assms]
    by (simp add: receipt_into_map receipt_try_from_def serde_ok_simps get_field_def Let_def)
      (simp add: receipt_keys)
qed

interpretation receipt_codec:
  ipld_codec "receipt_into D" "receipt_try_from D"
    "\<lambda>r. serde_ok D \<and> issuer_read D (issuer r) = issuer r" for D
  by unfold_locales (simp add: receipt_roundtrip)

lemma receipt_bytes_roundtrip:
  assumes "serde_ok D" and "cbor_ok D" and "receipt_to_bytes D r = Ok b"
  shows "receipt_from_bytes D b = Ok (r\<lparr>issuer := issuer_read D (issuer r)\<rparr>)"
  using assms
  by (simp add: receipt_to_bytes_def receipt_from_bytes_def result_simps cbor_ok_def receipt_roundtrip)

text \<open>A map without the field \<open>input\<close> is refused with \<open>Unknown\<close>, not with the missing field.\<close>

lemma instruction_missing_input:
  assumes "serde_ok D" and "instruction_rsc D m = Ok r" and "bt_get m OP_KEY = Some (IString s)"
    and "bt_get m INPUT_KEY = None"
  shows "instruction_try_from D from (IMap m) = Err Unknown"
  using assms
  by (simp add: instruction_try_from_def serde_ok_simps get_field_def error_unit_of_string_def)

end
