(* ===== verification/Wasm_Val.thy ===== *)
theory Wasm_Val
  imports Workflow_Core
begin

text \<open>
  The interpreter between IPLD and Wasm component values
  (\<open>homestar-wasm/src/wasmtime/ipld.rs\<close>, \<open>homestar-wasm/src/error.rs\<close>): \<open>RuntimeVal::try_from\<close>,
  which reads an IPLD value at an interface type, and \<open>TryFrom<RuntimeVal> for Ipld\<close>, which
  goes back.

  Values and types of \<open>wasmtime::component\<close> are datatypes with the kinds the code
  distinguishes; the constructors \<open>List::new_val\<close> and \<open>Tuple::new_val\<close>, which check the
  element types, the base encodings and the floating-point conversions are the fields of
  the record \<open>wasm_deps\<close>. A panic of the code is a failure of its own kind, \<open>Panic\<close>.
\<close>

section \<open>Wasm component values and types\<close>

datatype wtype =
    TBool | TS8 | TU8 | TS16 | TU16 | TS32 | TU32 | TS64 | TU64
  | TFloat32 | TFloat64 | TChar | TString
  | TList wtype
  | TRecord "(string \<times> wtype) list"
  | TTuple "wtype list"
  | TOther string

text \<open>A list value carries its element type, a tuple the types of its components.\<close>

datatype wval =
    VBool bool | VS8 "8 word" | VU8 "8 word" | VS16 "16 word" | VU16 "16 word"
  | VS32 "32 word" | VU32 "32 word" | VS64 "64 word" | VU64 "64 word"
  | VFloat32 u32 | VFloat64 u64 | VChar string | VString string
  | VList wtype "wval list"
  | VRecord "(string \<times> wtype) list" "wval list"
  | VTuple "wtype list" "wval list"
  | VOther string

fun val_type :: "wval \<Rightarrow> wtype" where
  "val_type (VBool _) = TBool"
| "val_type (VS8 _) = TS8"
| "val_type (VU8 _) = TU8"
| "val_type (VS16 _) = TS16"
| "val_type (VU16 _) = TU16"
| "val_type (VS32 _) = TS32"
| "val_type (VU32 _) = TU32"
| "val_type (VS64 _) = TS64"
| "val_type (VU64 _) = TU64"
| "val_type (VFloat32 _) = TFloat32"
| "val_type (VFloat64 _) = TFloat64"
| "val_type (VChar _) = TChar"
| "val_type (VString _) = TString"
| "val_type (VList t _) = TList t"
| "val_type (VRecord fs _) = TRecord fs"
| "val_type (VTuple ts _) = TTuple ts"
| "val_type (VOther n) = TOther n"

text \<open>Every list and tuple inside a value holds elements of its types.\<close>

fun wval_wf :: "wval \<Rightarrow> bool" where
  "wval_wf (VList t vs) = (\<forall>v \<in> set vs. val_type v = t \<and> wval_wf v)"
| "wval_wf (VTuple ts vs) = (map val_type vs = ts \<and> (\<forall>v \<in> set vs. wval_wf v))"
| "wval_wf _ = True"

datatype given = GivenNothing | GivenType wtype | GivenValue wval | GivenValues "wval list"

datatype interpreter_error =
    ICidEncode string
  | IDecimalToFloat u32
  | IFloatToDecimal u32
  | IFromIpld string
  | IIpldToInt
  | IIpldToWit wval
  | IMapType string
  | ITags string
  | ITypeMismatch string given
  | IWitType string
  | IWitToIpld ipld

datatype failure = Panic string | Fail interpreter_error

section \<open>Third-party code\<close>

record wasm_deps =
  list_new_val :: "wtype \<Rightarrow> wval list \<Rightarrow> string + wval"
  tuple_new_val :: "wtype list \<Rightarrow> wval list \<Rightarrow> string + wval"
  f64_as_f32 :: "u64 \<Rightarrow> u32"
  decimal_from_f32 :: "u32 \<Rightarrow> string option"
  decimal_to_f64 :: "string \<Rightarrow> u64 option"
  base64_encode :: "bytes \<Rightarrow> string"
  cid_to_base58 :: "cid \<Rightarrow> string + string"

text \<open>\<open>new_val\<close> builds the value exactly when the elements have the types it asks for.\<close>

definition new_val_ok :: "wasm_deps \<Rightarrow> bool" where
  "new_val_ok W \<longleftrightarrow>
     (\<forall>t vs v. list_new_val W t vs = Ok v \<longleftrightarrow> v = VList t vs \<and> (\<forall>x \<in> set vs. val_type x = t)) \<and>
     (\<forall>ts vs v. tuple_new_val W ts vs = Ok v \<longleftrightarrow> v = VTuple ts vs \<and> map val_type vs = ts)"

section \<open>Interface types\<close>

datatype interface_type = Any | Type wtype | TypeRef wtype

fun it_inner :: "interface_type \<Rightarrow> wtype option" where
  "it_inner (Type ty) = Some ty"
| "it_inner (TypeRef ty) = Some ty"
| "it_inner Any = None"

definition interface_type_from :: "wtype \<Rightarrow> interface_type" where
  "interface_type_from typ =
     (case typ of
        TList _ \<Rightarrow> TypeRef typ | TRecord _ \<Rightarrow> TypeRef typ
      | TS8 \<Rightarrow> TypeRef typ | TS16 \<Rightarrow> TypeRef typ | TS32 \<Rightarrow> TypeRef typ | TS64 \<Rightarrow> TypeRef typ
      | TU8 \<Rightarrow> TypeRef typ | TU16 \<Rightarrow> TypeRef typ | TU32 \<Rightarrow> TypeRef typ | TU64 \<Rightarrow> TypeRef typ
      | TFloat32 \<Rightarrow> TypeRef typ | TFloat64 \<Rightarrow> TypeRef typ
      | _ \<Rightarrow> Any)"

section \<open>Tags\<close>

text \<open>
  The tag stack (\<open>Tags\<close>), a \<open>VecDeque\<close> behind a reference cell: \<open>push\<close> and \<open>pop\<close> work at the
  front. A \<open>RuntimeVal\<close> is a value with its tags.
\<close>

type_synonym tags = "string list"
type_synonym runtime_val = "wval \<times> tags"

definition tags_push :: "string \<Rightarrow> tags \<Rightarrow> tags" where
  "tags_push t ts = t # ts"

definition tags_pop :: "tags \<Rightarrow> string + (string \<times> tags)" where
  "tags_pop ts = (case ts of [] \<Rightarrow> Err ''TagsEmpty'' | t # ts' \<Rightarrow> Ok (t, ts'))"

definition rv_new :: "wval \<Rightarrow> runtime_val" where
  "rv_new v = (v, [])"

section \<open>From IPLD to values\<close>

definition int_or :: "'w::len word option \<Rightarrow> ('w word \<Rightarrow> wval) \<Rightarrow> failure + runtime_val" where
  "int_or n mk = (case n of Some w \<Rightarrow> Ok (rv_new (mk w)) | None \<Rightarrow> Err (Fail IIpldToInt))"

text \<open>The element type when the interface type is a list (\<open>matches!(.., Some(Type::List(_)))\<close>).\<close>

definition list_type :: "interface_type \<Rightarrow> wtype option" where
  "list_type it = (case it_inner it of Some (TList ty) \<Rightarrow> Some ty | _ \<Rightarrow> None)"

text \<open>
  The types of a map's representation: the list's element type, its tuple components and
  the type of the second one. \<open>then_some\<close> evaluates its argument first, so a type that is
  not a list, or not a list of tuples, makes \<open>unwrap_list\<close> or \<open>unwrap_tuple\<close> panic before
  the error of the following \<open>ok_or_else\<close> is built.
\<close>

definition map_types :: "interface_type \<Rightarrow> failure + (wtype \<times> wtype list \<times> wtype)" where
  "map_types it =
     (case it_inner it of
        None \<Rightarrow> Err (Fail (ITypeMismatch ''<List>'' GivenNothing))
      | Some inner \<Rightarrow>
          (case inner of
             TList lt \<Rightarrow>
               (case lt of
                  TTuple tys \<Rightarrow>
                    (if 1 < length tys then Ok (lt, tys, tys ! 1)
                     else Err (Fail (IMapType ''IPLD map must have tuples of two elements'')))
                | _ \<Rightarrow> Err (Panic ''unwrap_tuple''))
           | _ \<Rightarrow> Err (Panic ''unwrap_list'')))"

fun rv_try_from ::
  "deps \<Rightarrow> wasm_deps \<Rightarrow> ipld \<Rightarrow> interface_type \<Rightarrow> failure + runtime_val" where
  "rv_try_from D W INull it =
     (case it_inner it of
        Some TString \<Rightarrow> Ok (rv_new (VString ''null''))
      | None \<Rightarrow> Ok (rv_new (VString ''null''))
      | _ \<Rightarrow> Err (Fail (IWitToIpld INull)))"
| "rv_try_from D W (IBool v) it =
     (case it_inner it of
        Some TBool \<Rightarrow> Ok (rv_new (VBool v))
      | None \<Rightarrow> Ok (rv_new (VBool v))
      | _ \<Rightarrow> Err (Fail (IWitToIpld (IBool v))))"
| "rv_try_from D W (IInteger v) it =
     (case it_inner it of
        Some TU8 \<Rightarrow> int_or (try_into_unsigned v) VU8
      | Some TU16 \<Rightarrow> int_or (try_into_unsigned v) VU16
      | Some TU32 \<Rightarrow> int_or (try_into_unsigned v) VU32
      | Some TU64 \<Rightarrow> int_or (try_into_unsigned v) VU64
      | Some TS8 \<Rightarrow> int_or (try_into_signed v) VS8
      | Some TS16 \<Rightarrow> int_or (try_into_signed v) VS16
      | Some TS32 \<Rightarrow> int_or (try_into_signed v) VS32
      | None \<Rightarrow> int_or (try_into_signed v) VS64
      | Some TS64 \<Rightarrow> int_or (try_into_signed v) VS64
      | _ \<Rightarrow> Err (Fail (IWitToIpld (IInteger v))))"
| "rv_try_from D W (IFloat v) it =
     (case it_inner it of
        Some TFloat32 \<Rightarrow> Ok (rv_new (VFloat32 (f64_as_f32 W v)))
      | _ \<Rightarrow> Ok (rv_new (VFloat64 v)))"
| "rv_try_from D W (IString v) it = Ok (rv_new (VString v))"
| "rv_try_from D W (IBytes v) it =
     (case list_type it of
        Some ty \<Rightarrow>
          (let vec = fold (\<lambda>elem acc. acc @ [fst (rv_new (VU8 elem))]) v [] in
           and_then (map_err (\<lambda>e. Fail (IWitType e)) (list_new_val W ty vec)) (\<lambda>l.
           Ok (rv_new l)))
      | None \<Rightarrow> Ok (rv_new (VString (base64_encode W v))))"
| "rv_try_from D W (ILink c) it =
     (if cid_version c = 0
      then and_then (map_err (\<lambda>e. Fail (ICidEncode e)) (cid_to_base58 W c)) (\<lambda>s.
             Ok (rv_new (VString s)))
      else and_then (map_err (\<lambda>e. Fail (ICidEncode e)) (cid_to_string_of_base D c)) (\<lambda>s.
             Ok (rv_new (VString s))))"
| "rv_try_from D W (IList v) it =
     (case list_type it of
        Some ty \<Rightarrow>
          and_then
            (try_fold (\<lambda>acc elem.
               and_then (rv_try_from D W elem (Type ty)) (\<lambda>r. Ok (acc @ [fst r]))) [] v) (\<lambda>vec.
          and_then (map_err (\<lambda>e. Fail (IWitType e)) (list_new_val W ty vec)) (\<lambda>l.
          Ok (rv_new l)))
      | None \<Rightarrow>
          (case v of
             [] \<Rightarrow> Ok (rv_new (VBool False))
           | elem # _ \<Rightarrow> rv_try_from D W elem it))"
| "rv_try_from D W (IMap v) it =
     and_then (map_types it) (\<lambda>(list_inst, tuple_inst, ty).
     and_then
       (try_fold (\<lambda>acc kv.
          and_then (rv_try_from D W (snd kv) (TypeRef ty)) (\<lambda>r.
          and_then (map_err (\<lambda>e. Fail (IWitType e))
             (tuple_new_val W tuple_inst [VString (fst kv), fst r])) (\<lambda>new_tuple.
          Ok (fst acc @ [new_tuple], snd acc @ snd r)))) ([], []) v)
       (\<lambda>(vec, tags).
     and_then (map_err (\<lambda>e. Fail (IWitType e)) (list_new_val W list_inst vec)) (\<lambda>l.
     Ok (l, tags))))"

section \<open>From values to IPLD\<close>

fun is_tuple_type :: "wtype \<Rightarrow> bool" where
  "is_tuple_type (TTuple _) = True"
| "is_tuple_type _ = False"

text \<open>The key and the value of a map entry, a tuple of a string and a value.\<close>

definition tuple_entry :: "wval \<Rightarrow> interpreter_error + (string \<times> wval)" where
  "tuple_entry elem =
     (case elem of
        VTuple _ tup_values \<Rightarrow>
          (case tup_values of
             [VString s, v] \<Rightarrow> Ok (s, v)
           | _ \<Rightarrow> Err (ITypeMismatch ''<tuple> of (<string>, <&wasmtime::Val>)''
                       (GivenValues tup_values)))
      | _ \<Rightarrow> Err (ITypeMismatch ''<tuple>'' (GivenValue elem)))"

definition u8_elem :: "wval \<Rightarrow> interpreter_error + u8" where
  "u8_elem elem =
     (case elem of
        VU8 b \<Rightarrow> Ok b
      | _ \<Rightarrow> Err (ITypeMismatch ''all <u8> types'' (GivenValue elem)))"

fun is_u8 :: "wval \<Rightarrow> bool" where
  "is_u8 (VU8 _) = True"
| "is_u8 _ = False"

lemma tuple_entry_eq_Ok:
  "tuple_entry e = Ok p \<longleftrightarrow> (\<exists>ts. e = VTuple ts [VString (fst p), snd p])"
  by (cases p) (auto simp: tuple_entry_def split: wval.splits list.splits)

lemma tuple_entry_size [termination_simp]:
  "tuple_entry e = Ok p \<Longrightarrow> e \<in> set vs \<Longrightarrow> size (snd p) < Suc (size_list size vs)"
  using size_list_estimation [of e vs "size (snd p)" size]
  by (auto simp: tuple_entry_eq_Ok)

fun ipld_try_from :: "deps \<Rightarrow> wasm_deps \<Rightarrow> wval \<Rightarrow> interpreter_error + ipld" where
  "ipld_try_from D W (VChar c) = Ok (IString c)"
| "ipld_try_from D W (VString s) =
     (if s = ''null'' then Ok INull
      else (case cid_from_str D s of Ok c \<Rightarrow> Ok (ILink c) | Err _ \<Rightarrow> Ok (IString s)))"
| "ipld_try_from D W (VBool v) = Ok (IBool v)"
| "ipld_try_from D W (VU8 v) = Ok (IInteger (uint v))"
| "ipld_try_from D W (VU16 v) = Ok (IInteger (uint v))"
| "ipld_try_from D W (VU32 v) = Ok (IInteger (uint v))"
| "ipld_try_from D W (VU64 v) = Ok (IInteger (uint v))"
| "ipld_try_from D W (VS8 v) = Ok (IInteger (sint v))"
| "ipld_try_from D W (VS16 v) = Ok (IInteger (sint v))"
| "ipld_try_from D W (VS32 v) = Ok (IInteger (sint v))"
| "ipld_try_from D W (VS64 v) = Ok (IInteger (sint v))"
| "ipld_try_from D W (VFloat32 v) =
     and_then (ok_or (decimal_from_f32 W v) (IFloatToDecimal v)) (\<lambda>dec.
     and_then (ok_or (decimal_to_f64 W dec) (IDecimalToFloat v)) (\<lambda>f.
     Ok (IFloat f)))"
| "ipld_try_from D W (VFloat64 v) = Ok (IFloat v)"
| "ipld_try_from D W (VList ty v) =
     (if is_tuple_type ty
      then
        and_then
          (try_fold (\<lambda>acc elem.
             and_then (tuple_entry elem) (\<lambda>p.
             and_then (ipld_try_from D W (snd p)) (\<lambda>x. Ok (bt_insert (fst p) x acc)))) [] v)
          (\<lambda>inner. Ok (IMap inner))
      else if v = [] then Ok (IList [])
      else if is_u8 (hd v)
      then
        and_then
          (try_fold (\<lambda>acc elem. and_then (u8_elem elem) (\<lambda>b. Ok (acc @ [b]))) [] v)
          (\<lambda>inner. Ok (IBytes inner))
      else
        and_then
          (try_fold (\<lambda>acc elem.
             and_then (ipld_try_from D W elem) (\<lambda>x. Ok (acc @ [x]))) [] v)
          (\<lambda>inner. Ok (IList inner)))"
| "ipld_try_from D W v = Err (IIpldToWit v)"

section \<open>Lemmas\<close>

lemma new_val_okD:
  assumes "new_val_ok W"
  shows "list_new_val W t vs = Ok v \<longleftrightarrow> v = VList t vs \<and> (\<forall>x \<in> set vs. val_type x = t)"
    and "tuple_new_val W ts vs = Ok v \<longleftrightarrow> v = VTuple ts vs \<and> map val_type vs = ts"
  using assms by (simp_all add: new_val_ok_def)

text \<open>The loops of the two conversions, as element-wise maps.\<close>

definition rv_entry ::
  "deps \<Rightarrow> wasm_deps \<Rightarrow> wtype list \<Rightarrow> wtype \<Rightarrow> string \<times> ipld \<Rightarrow> failure + runtime_val" where
  "rv_entry D W tuple_inst ty kv =
     and_then (rv_try_from D W (snd kv) (TypeRef ty)) (\<lambda>r.
     and_then (map_err (\<lambda>e. Fail (IWitType e))
        (tuple_new_val W tuple_inst [VString (fst kv), fst r])) (\<lambda>new_tuple.
     Ok (new_tuple, snd r)))"

lemma rv_list_loop:
  "try_fold (\<lambda>acc elem. and_then (f elem) (\<lambda>r. Ok (acc @ [fst r]))) [] v =
     try_map (\<lambda>elem. map_ok fst (f elem)) v"
proof -
  have "and_then (f elem) (\<lambda>r. Ok (acc @ [fst r])) =
      and_then (map_ok fst (f elem)) (\<lambda>y. Ok (acc @ [y]))" for acc elem
    by (cases "f elem") auto
  then show ?thesis by (simp add: try_fold_push_Nil)
qed

lemma rv_map_loop:
  "try_fold (\<lambda>acc kv.
     and_then (rv_try_from D W (snd kv) (TypeRef ty)) (\<lambda>r.
     and_then (map_err (\<lambda>e. Fail (IWitType e))
        (tuple_new_val W tuple_inst [VString (fst kv), fst r])) (\<lambda>new_tuple.
     Ok (fst acc @ [new_tuple], snd acc @ snd r)))) ([], []) v =
   map_ok (\<lambda>ps. (map fst ps, concat (map snd ps))) (try_map (rv_entry D W tuple_inst ty) v)"
proof -
  have "and_then (rv_try_from D W (snd kv) (TypeRef ty)) (\<lambda>r.
     and_then (map_err (\<lambda>e. Fail (IWitType e))
        (tuple_new_val W tuple_inst [VString (fst kv), fst r])) (\<lambda>new_tuple.
     Ok (fst acc @ [new_tuple], snd acc @ snd r))) =
     and_then (rv_entry D W tuple_inst ty kv) (\<lambda>p. Ok (fst acc @ [fst p], snd acc @ snd p))"
    for acc kv by (simp add: rv_entry_def and_then_assoc)
  then show ?thesis using try_fold_push2 [of "rv_entry D W tuple_inst ty" "([], [])" v] by simp
qed

lemmas rv_loops = rv_list_loop rv_map_loop

definition ipld_entry ::
  "deps \<Rightarrow> wasm_deps \<Rightarrow> wval \<Rightarrow> interpreter_error + (string \<times> ipld)" where
  "ipld_entry D W elem =
     and_then (tuple_entry elem) (\<lambda>p. map_ok (Pair (fst p)) (ipld_try_from D W (snd p)))"

lemma ipld_map_loop:
  "try_fold (\<lambda>acc elem.
     and_then (tuple_entry elem) (\<lambda>p.
     and_then (ipld_try_from D W (snd p)) (\<lambda>x. Ok (bt_insert (fst p) x acc)))) [] v =
   map_ok bt_from (try_map (ipld_entry D W) v)"
proof -
  have "and_then (tuple_entry elem) (\<lambda>p.
     and_then (ipld_try_from D W (snd p)) (\<lambda>x. Ok (bt_insert (fst p) x acc))) =
     and_then (ipld_entry D W elem) (\<lambda>q. Ok (bt_insert (fst q) (snd q) acc))" for acc elem
    by (cases "tuple_entry elem"; cases "ipld_try_from D W (snd (projr (tuple_entry elem)))")
      (simp_all add: ipld_entry_def)
  then show ?thesis by (simp add: try_fold_insert bt_from_fold)
qed

lemmas ipld_loops = ipld_map_loop try_fold_push_Nil

text \<open>
  The values the interpreter builds are well typed inside, and carry no tags: no branch of
  the code pushes one.
\<close>

lemma list_all2_setD: "list_all2 P xs ys \<Longrightarrow> y \<in> set ys \<Longrightarrow> \<exists>x \<in> set xs. P x y"
  by (metis in_set_conv_nth list_all2_conv_all_nth)

lemma rv_try_from_wf:
  "rv_try_from D W x it = Ok r \<Longrightarrow> new_val_ok W \<Longrightarrow> wval_wf (fst r) \<and> snd r = []"
proof (induction D W x it arbitrary: r rule: rv_try_from.induct
    [case_names Null Bool Int Float Str Bytes Link List Map])
  case (Bytes D W v it)
  then show ?case
    by (auto simp: rv_new_def fold_push new_val_okD result_simps split: option.splits)
next
  case (List D W v it)
  show ?case
  proof (cases "list_type it")
    case None
    with List show ?thesis by (cases v) (auto simp: rv_new_def)
  next
    case (Some ty)
    with List.prems obtain vs
      where vs: "list_all2 (\<lambda>e w. map_ok fst (rv_try_from D W e (Type ty)) = Ok w) v vs"
        and r: "r = (VList ty vs, [])" "\<forall>w \<in> set vs. val_type w = ty"
      by (auto simp: rv_loops result_simps new_val_okD rv_new_def)
    have "wval_wf w" if "w \<in> set vs" for w
      using list_all2_setD [OF vs that] List.IH(2) [OF Some] List.prems(2) by (auto simp: result_simps)
    with r show ?thesis by simp
  qed
next
  case (Map D W v it)
  from Map.prems obtain lt tys ty ps
    where t: "map_types it = Ok (lt, tys, ty)"
      and ps: "list_all2 (\<lambda>kv p. rv_entry D W tys ty kv = Ok p) v ps"
      and r: "r = (VList lt (map fst ps), concat (map snd ps))" "\<forall>w \<in> set (map fst ps). val_type w = lt"
    by (auto simp: rv_loops result_simps new_val_okD)
  have "wval_wf (fst p) \<and> snd p = []" if "p \<in> set ps" for p
    using list_all2_setD [OF ps that] Map.IH(1) [OF t refl refl] Map.prems(2)
    by (auto simp: rv_entry_def result_simps new_val_okD)
  with r show ?case by auto
qed (auto simp: rv_new_def int_or_def result_simps split: option.splits wtype.splits if_splits)

text \<open>
  A value without maps never makes the interpreter panic.
\<close>

fun no_maps :: "ipld \<Rightarrow> bool" where
  "no_maps (IMap _) = False"
| "no_maps (IList xs) = (\<forall>x \<in> set xs. no_maps x)"
| "no_maps _ = True"

lemma int_or_no_panic: "int_or n mk \<noteq> Err (Panic m)"
  by (simp add: int_or_def split: option.split)

lemma rv_try_from_no_panic:
  "no_maps x \<Longrightarrow> rv_try_from D W x it \<noteq> Err (Panic m)"
proof (induction D W x it rule: rv_try_from.induct
    [case_names Null Bool Int Float Str Bytes Link List Map])
  case (List D W v it)
  show ?case
  proof (cases "list_type it")
    case None
    with List show ?thesis by (cases v) (auto simp: rv_new_def)
  next
    case (Some ty)
    have "try_map (\<lambda>e. map_ok fst (rv_try_from D W e (Type ty))) v \<noteq> Err (Panic m)"
    proof
      assume "try_map (\<lambda>e. map_ok fst (rv_try_from D W e (Type ty))) v = Err (Panic m)"
      from try_map_Err [OF this]
      obtain e where "e \<in> set v" "map_ok fst (rv_try_from D W e (Type ty)) = Err (Panic m)"
        by auto
      with List.IH(2) [OF Some] List.prems show False
        by (cases "rv_try_from D W e (Type ty)") auto
    qed
    then show ?thesis
      by (auto simp: Some rv_loops and_then_eq_Err map_err_eq_Err)
  qed
qed (simp_all add: int_or_no_panic and_then_eq_Err map_err_eq_Err Let_def split: option.split wtype.split)

text \<open>A map read at a type that is not a list of tuples panics.\<close>

lemma rv_map_panics:
  assumes "it_inner it = Some t" and "\<And>tys. t \<noteq> TList (TTuple tys)"
  shows "\<exists>m. rv_try_from D W (IMap v) it = Err (Panic m)"
  using assms by (auto simp: map_types_def split: wtype.splits)

section \<open>The round trip\<close>

fun int_fits :: "wtype option \<Rightarrow> int \<Rightarrow> bool" where
  "int_fits (Some TU8) v = (0 \<le> v \<and> v < 2 ^ 8)"
| "int_fits (Some TU16) v = (0 \<le> v \<and> v < 2 ^ 16)"
| "int_fits (Some TU32) v = (0 \<le> v \<and> v < 2 ^ 32)"
| "int_fits (Some TU64) v = (0 \<le> v \<and> v < 2 ^ 64)"
| "int_fits (Some TS8) v = (- (2 ^ 7) \<le> v \<and> v < 2 ^ 7)"
| "int_fits (Some TS16) v = (- (2 ^ 15) \<le> v \<and> v < 2 ^ 15)"
| "int_fits (Some TS32) v = (- (2 ^ 31) \<le> v \<and> v < 2 ^ 31)"
| "int_fits (Some TS64) v = (- (2 ^ 63) \<le> v \<and> v < 2 ^ 63)"
| "int_fits None v = (- (2 ^ 63) \<le> v \<and> v < 2 ^ 63)"
| "int_fits _ v = False"

text \<open>
  The values that an interface type represents exactly. A string must not read as \<open>null\<close> or
  as a CID; bytes need a list of \<open>u8\<close> and at least one element; a list of \<open>u8\<close> integers is
  read back as bytes, so a list needs another element type, and a map needs a list of
  pairs whose first component is a string.
\<close>

definition link_text :: "deps \<Rightarrow> wasm_deps \<Rightarrow> cid \<Rightarrow> string + string" where
  "link_text D W c = (if cid_version c = 0 then cid_to_base58 W c else cid_to_string_of_base D c)"

definition text_type :: "wtype option \<Rightarrow> bool" where
  "text_type ty \<longleftrightarrow> ty = None \<or> ty = Some TString"

text \<open>The type of a map's values, for a list of pairs of a string and a value.\<close>

fun map_value_type :: "wtype option \<Rightarrow> wtype option" where
  "map_value_type (Some (TList (TTuple [TString, t]))) = Some t"
| "map_value_type _ = None"

fun exact_at :: "deps \<Rightarrow> wasm_deps \<Rightarrow> wtype option \<Rightarrow> ipld \<Rightarrow> bool" where
  "exact_at D W ty INull = text_type ty"
| "exact_at D W ty (IBool b) = (ty = None \<or> ty = Some TBool)"
| "exact_at D W ty (IInteger v) = int_fits ty v"
| "exact_at D W ty (IFloat v) = (ty = None \<or> ty = Some TFloat64)"
| "exact_at D W ty (IString s) = (text_type ty \<and> s \<noteq> ''null'' \<and> \<not> is_ok (cid_from_str D s))"
| "exact_at D W ty (IBytes b) = (ty = Some (TList TU8) \<and> b \<noteq> [])"
| "exact_at D W ty (ILink c) =
     (text_type ty \<and>
      (case link_text D W c of Ok s \<Rightarrow> s \<noteq> ''null'' \<and> cid_from_str D s = Ok c | Err _ \<Rightarrow> False))"
| "exact_at D W ty (IList xs) =
     (case ty of
        Some (TList t) \<Rightarrow>
          \<not> is_tuple_type t \<and> (t = TU8 \<longrightarrow> xs = []) \<and> (\<forall>x \<in> set xs. exact_at D W (Some t) x)
      | _ \<Rightarrow> False)"
| "exact_at D W ty (IMap m) =
     (case map_value_type ty of
        Some t \<Rightarrow> bt_inv m \<and> (\<forall>p \<in> set m. exact_at D W (Some t) (snd p))
      | None \<Rightarrow> False)"

lemma map_value_type_eq:
  "map_value_type ty = Some t \<longleftrightarrow> ty = Some (TList (TTuple [TString, t]))"
  by (cases ty rule: map_value_type.cases) auto

lemma int_or_fits:
  assumes "int_fits (it_inner it) v"
  shows "\<exists>w. rv_try_from D W (IInteger v) it = Ok (w, []) \<and>
    (\<forall>t. it_inner it = Some t \<longrightarrow> val_type w = t) \<and> ipld_try_from D W w = Ok (IInteger v)"
  using assms
  by (cases "(it_inner it, v)" rule: int_fits.cases)
    (auto simp: int_or_def rv_new_def try_into_unsigned_def try_into_signed_def
      sint_word_of_int_range uint_word_of_int_range)

text \<open>The value \<open>w\<close> stands for \<open>x\<close> at the type \<open>ty\<close>, in both directions.\<close>

definition represents ::
  "deps \<Rightarrow> wasm_deps \<Rightarrow> wtype option \<Rightarrow> ipld \<Rightarrow> wval \<Rightarrow> bool" where
  "represents D W ty x w \<longleftrightarrow>
     (\<forall>it. it_inner it = ty \<longrightarrow> rv_try_from D W x it = Ok (w, [])) \<and>
     (\<forall>t. ty = Some t \<longrightarrow> val_type w = t) \<and> ipld_try_from D W w = Ok x"

lemma ipld_try_from_list:
  "\<not> is_tuple_type t \<Longrightarrow> ws \<noteq> [] \<Longrightarrow> \<not> is_u8 (hd ws) \<Longrightarrow>
   ipld_try_from D W (VList t ws) = map_ok IList (try_map (ipld_try_from D W) ws)"
  by (simp add: ipld_loops) (simp add: and_then_Ok)

lemma represents_list:
  assumes "new_val_ok W" and "\<not> is_tuple_type t" and "t = TU8 \<longrightarrow> xs = []"
    and "list_all2 (represents D W (Some t)) xs ws"
  shows "represents D W (Some (TList t)) (IList xs) (VList t ws)"
proof -
  have ty: "\<forall>w \<in> set ws. val_type w = t"
    using list_all2_setD [OF assms(4)] by (auto simp: represents_def)
  have "list_all2 (\<lambda>x w. map_ok fst (rv_try_from D W x (Type t)) = Ok w) xs ws"
    using assms(4) by (rule list_all2_mono) (simp add: represents_def)
  then have "rv_try_from D W (IList xs) it = Ok (VList t ws, [])"
    if "it_inner it = Some (TList t)" for it
    using that ty assms(1)
    by (auto simp: list_type_def rv_loops rv_new_def result_simps new_val_okD)
  moreover have "ipld_try_from D W (VList t ws) = Ok (IList xs)"
  proof (cases ws)
    case (Cons w ws')
    then have "t \<noteq> TU8" using assms(3,4) by auto
    then have "\<not> is_u8 (hd ws)" using ty Cons by (cases w) auto
    moreover have "list_all2 (\<lambda>w x. ipld_try_from D W w = Ok x) ws xs"
      using assms(4) by (auto simp: represents_def list_all2_conv_all_nth)
    then have "try_map (ipld_try_from D W) ws = Ok xs" by (simp add: result_simps)
    ultimately show ?thesis
      using assms(2) Cons ipld_try_from_list [of t ws D W] by simp
  qed (use assms in auto)
  ultimately show ?thesis by (simp add: represents_def)
qed

lemma concat_map_Nil: "concat (map (\<lambda>x. []) xs) = []"
  by simp

lemma represents_bytes:
  assumes "new_val_ok W" and "b \<noteq> []"
  shows "represents D W (Some (TList TU8)) (IBytes b) (VList TU8 (map VU8 b))"
proof -
  have "try_map u8_elem (map VU8 b) = Ok b" by (rule try_map_map_Ok) (simp add: u8_elem_def)
  moreover have "is_u8 (hd (map VU8 b))" using assms(2) by (cases b) auto
  moreover have "list_new_val W TU8 (map VU8 b) = Ok (VList TU8 (map VU8 b))"
    using assms(1) by (auto simp: new_val_okD)
  ultimately show ?thesis
    using assms(2) by (simp add: represents_def rv_new_def list_type_def fold_push ipld_loops)
qed

lemma represents_map:
  assumes "new_val_ok W" and "bt_inv m"
    and "list_all2 (\<lambda>p w. represents D W (Some t) (snd p) w) m ws"
  shows "represents D W (Some (TList (TTuple [TString, t]))) (IMap m)
    (VList (TTuple [TString, t])
      (map (\<lambda>(p, w). VTuple [TString, t] [VString (fst p), w]) (zip m ws)))"
    (is "represents D W (Some ?ty) (IMap m) (VList _ ?vs)")
proof -
  have len: "length m = length ws" using assms(3) by (rule list_all2_lengthD)
  have nth: "represents D W (Some t) (snd (m ! i)) (ws ! i)" if "i < length m" for i
    using assms(3) that by (simp add: list_all2_conv_all_nth)
  have entries: "list_all2 (\<lambda>kv p. rv_entry D W [TString, t] t kv = Ok p) m (map (\<lambda>v. (v, [])) ?vs)"
    using nth len assms(1)
    by (auto simp: list_all2_conv_all_nth rv_entry_def represents_def result_simps new_val_okD)
  have "rv_try_from D W (IMap m) it = Ok (VList (TTuple [TString, t]) ?vs, [])"
    if "it_inner it = Some ?ty" for it
  proof -
    have "map_types it = Ok (TTuple [TString, t], [TString, t], t)"
      using that by (simp add: map_types_def)
    moreover have "try_map (rv_entry D W [TString, t] t) m = Ok (map (\<lambda>v. (v, [])) ?vs)"
      using entries by (simp add: result_simps)
    moreover have "list_new_val W (TTuple [TString, t]) ?vs = Ok (VList (TTuple [TString, t]) ?vs)"
      using assms(1) by (auto simp: new_val_okD)
    ultimately show ?thesis by (simp add: rv_loops comp_def concat_map_Nil)
  qed
  moreover have "list_all2 (\<lambda>v p. ipld_entry D W v = Ok p) ?vs m"
    using nth len
    by (auto simp: list_all2_conv_all_nth ipld_entry_def represents_def result_simps tuple_entry_def)
  then have "try_map (ipld_entry D W) ?vs = Ok m" by (simp add: result_simps)
  ultimately show ?thesis
    using assms(2) by (simp add: represents_def ipld_loops bt_from_sorted)
qed

lemma exact_at_represents:
  "new_val_ok W \<Longrightarrow> exact_at D W ty x \<Longrightarrow> \<exists>w. represents D W ty x w"
proof (induction D W ty x rule: exact_at.induct
    [case_names Null Bool Int Float Str Bytes Link List Map])
  case (Int D W ty v)
  obtain it where "it_inner it = ty" by (cases ty) (metis it_inner.simps)+
  with Int int_or_fits [of it v D W] show ?case
    by (auto simp: represents_def)
next
  case (List D W ty xs)
  then obtain t where t: "ty = Some (TList t)" "\<not> is_tuple_type t" "t = TU8 \<longrightarrow> xs = []"
    "\<forall>x \<in> set xs. exact_at D W (Some t) x"
    by (auto split: option.splits wtype.splits)
  then have "\<forall>x \<in> set xs. \<exists>w. Ok w = Ok w \<and> represents D W (Some t) x w"
    using List by auto
  then obtain ws where "list_all2 (represents D W (Some t)) xs ws"
    by (metis (no_types, lifting) list_all2_choice)
  with t List.prems(1) show ?case by (auto intro: represents_list)
next
  case (Map D W ty m)
  then obtain t where t: "ty = Some (TList (TTuple [TString, t]))" "bt_inv m"
    "\<forall>p \<in> set m. exact_at D W (Some t) (snd p)"
    by (auto simp: map_value_type_eq split: option.splits)
  then have "\<forall>p \<in> set m. \<exists>w. represents D W (Some t) (snd p) w"
    using Map by auto
  then obtain ws where "list_all2 (\<lambda>p w. represents D W (Some t) (snd p) w) m ws"
    by (metis (no_types, lifting) list_all2_choice)
  with t Map.prems(1) show ?case by (auto intro: represents_map)
next
  case (Null D W ty)
  then show ?case
    by (intro exI [of _ "VString ''null''"]) (auto simp: represents_def rv_new_def text_type_def)
next
  case (Bool D W ty b)
  then show ?case
    by (intro exI [of _ "VBool b"]) (auto simp: represents_def rv_new_def)
next
  case (Float D W ty v)
  then show ?case
    by (intro exI [of _ "VFloat64 v"]) (auto simp: represents_def rv_new_def)
next
  case (Str D W ty s)
  then show ?case
    by (intro exI [of _ "VString s"])
      (cases "cid_from_str D s"; auto simp: represents_def rv_new_def text_type_def)
next
  case (Bytes D W ty b)
  then show ?case by (auto intro: represents_bytes)
next
  case (Link D W ty c)
  then obtain s where "link_text D W c = Ok s" by (auto split: sum.splits)
  with Link show ?case
    by (intro exI [of _ "VString s"])
      (auto simp: represents_def rv_new_def text_type_def link_text_def split: if_splits)
qed

end
