(* ===== verification/Wasm_Exec.thy ===== *)
theory Wasm_Exec
  imports Wasm_Val
begin

text \<open>
  Execution of a Wasm function (\<open>homestar-wasm/src/io.rs\<close>, \<open>wasmtime/world.rs\<close>,
  \<open>wasmtime/limits.rs\<close>, \<open>wasmtime/host/helpers.rs\<close>, and the runtime's \<open>tasks/wasm.rs\<close>):
  arguments and outputs, parsing of an instruction's input, the memory limiter, the store and its
  state, instantiation of a component, and the call with its converted parameters. Compilation and the run
  itself are \<open>wasmtime\<close>'s: fields of the records \<open>wfunc\<close> and \<open>wasm_host\<close>.
\<close>

section \<open>Arguments and outputs\<close>

datatype arg = ArgIpld ipld | ArgValue wval

definition arg_from :: "ipld \<Rightarrow> arg" where
  "arg_from x = ArgIpld x"

fun arg_into :: "deps \<Rightarrow> wasm_deps \<Rightarrow> arg \<Rightarrow> ipld" where
  "arg_into D W (ArgIpld x) = x"
| "arg_into D W (ArgValue v) = (case ipld_try_from D W v of Ok x \<Rightarrow> x | Err _ \<Rightarrow> INull)"

text \<open>\<open>Parse<Arg> for Input<Arg>\<close>: the input is a map with a function name and arguments.\<close>

definition arg_parse :: "deps \<Rightarrow> arg input \<Rightarrow> arg input_parse_error + arg parsed" where
  "arg_parse D i =
     (case i of
        InputIpld x \<Rightarrow>
          and_then (map_err ParseFromIpld (from_ipld_map D x)) (\<lambda>m.
          and_then (ok_or (bt_get m ''func'') (ParseWorkflow (MissingField ''func''))) (\<lambda>func.
          and_then (ok_or (bt_get m ''args'') (ParseWorkflow (MissingField ''args''))) (\<lambda>wasm_args.
          and_then (map_err ParseWorkflow (args_try_from D arg_from wasm_args)) (\<lambda>args.
          and_then (map_err ParseFromIpld (from_ipld_string D func)) (\<lambda>f.
          Ok (parsed_with_fn f args))))))
      | _ \<Rightarrow> Err (UnexpectedTaskInput i))"

datatype wasm_output = OutputValue wval | OutputValues "wval list" | OutputVoid

fun output_take :: "wasm_output \<Rightarrow> wval option" where
  "output_take (OutputValue v) = Some v"
| "output_take (OutputValues vs) = (case vs of [] \<Rightarrow> None | v # _ \<Rightarrow> Some v)"
| "output_take OutputVoid = None"

fun output_into_ipld :: "deps \<Rightarrow> wasm_deps \<Rightarrow> wasm_output \<Rightarrow> interpreter_error + ipld" where
  "output_into_ipld D W (OutputValue v) = ipld_try_from D W v"
| "output_into_ipld D W (OutputValues vs) =
     and_then
       (try_fold (\<lambda>acc v. and_then (ipld_try_from D W v) (\<lambda>x. Ok (acc @ [x]))) [] vs)
       (\<lambda>ipld_vs. Ok (IList ipld_vs))"
| "output_into_ipld D W OutputVoid = Ok INull"

section \<open>Limits\<close>

record store_limits =
  max_memory_size :: "usize option"
  max_table_elements :: "u32 option"
  memory_consumed :: u64

definition limits_default :: store_limits where
  "limits_default =
     \<lparr>max_memory_size = Some WASM_MAX_MEMORY, max_table_elements = None, memory_consumed = 0\<rparr>"

definition limits_new :: "usize option \<Rightarrow> u32 option \<Rightarrow> store_limits" where
  "limits_new m t = \<lparr>max_memory_size = m, max_table_elements = t, memory_consumed = 0\<rparr>"

text \<open>
  \<open>memory_growing\<close>. The casts between \<open>u64\<close>, \<open>usize\<close> and \<open>i64\<close> keep the 64 bits, and the sum
  and difference of the \<open>i64\<close>s are those of the words.
\<close>

definition memory_growing :: "usize \<Rightarrow> usize \<Rightarrow> store_limits \<Rightarrow> bool \<times> store_limits" where
  "memory_growing current desired l =
     (let can_grow = (case max_memory_size l of Some limit \<Rightarrow> desired \<le> limit | None \<Rightarrow> True) in
      (can_grow,
       if can_grow
       then l\<lparr>memory_consumed := memory_consumed l + (desired - current)\<rparr>
       else l))"

definition table_growing :: "u32 \<Rightarrow> u32 \<Rightarrow> store_limits \<Rightarrow> bool" where
  "table_growing current desired l =
     (case max_table_elements l of Some limit \<Rightarrow> desired \<le> limit | None \<Rightarrow> True)"

section \<open>State and store\<close>

text \<open>
  The state of a task and the store it runs in; instants are counted from the creation of the
  state. The limits of the state apply to a store only when it is told to ask them.
\<close>

definition UNIT_OF_COMPUTE_INSTRUCTIONS :: u64 where
  "UNIT_OF_COMPUTE_INSTRUCTIONS = 100000"

record wasm_state =
  sta_start_time :: duration
  sta_fuel :: u64
  sta_limits :: store_limits

definition state_default :: "duration \<Rightarrow> wasm_state" where
  "state_default now = \<lparr>sta_start_time = now, sta_fuel = - 1, sta_limits = limits_default\<rparr>"

definition state_new :: "duration \<Rightarrow> u64 \<Rightarrow> store_limits \<Rightarrow> wasm_state" where
  "state_new now f limits = \<lparr>sta_start_time = now, sta_fuel = f, sta_limits = limits\<rparr>"

definition state_set_fuel :: "u64 \<Rightarrow> wasm_state \<Rightarrow> wasm_state" where
  "state_set_fuel f st = st\<lparr>sta_fuel := f\<rparr>"

text \<open>\<open>From<Resources>\<close>: the fuel of the resources, and the limit for memories of any Wasm module.\<close>

definition state_from_resources :: "duration \<Rightarrow> resources \<Rightarrow> wasm_state" where
  "state_from_resources now res =
     state_new now (unwrap_or (fuel res) (- 1)) (limits_new (Some WASM_MAX_MEMORY) None)"

record wasm_store =
  sto_state :: wasm_state
  sto_fuel :: u64
  sto_limited :: bool
  sto_yield :: "u64 option"

definition store_new :: "bool \<Rightarrow> wasm_state \<Rightarrow> wasm_store" where
  "store_new limited data =
     \<lparr>sto_state = data, sto_fuel = sta_fuel data, sto_limited = limited,
      sto_yield = Some UNIT_OF_COMPUTE_INSTRUCTIONS\<rparr>"

section \<open>Instantiation and execution\<close>

datatype wasm_error =
    WInterpreter interpreter_error
  | IntoWasmComponent string
  | ResolvePromise resolve_error
  | WUnknown
  | WasmInstantiation
  | WasmParser string
  | WasmRuntime string
  | WasmFunctionNotFound string
  | WatComponent string
  | WatError string

datatype wasm_failure = WPanic string | WError wasm_error

fun lift_failure :: "failure \<Rightarrow> wasm_failure" where
  "lift_failure (Panic m) = WPanic m"
| "lift_failure (Fail e) = WError (WInterpreter e)"

text \<open>
  An exported function: its parameter and result types, whether a call returns, the call, which is
  given the parameters and the results to overwrite, and the clean-up after it. A call that does not
  return has no result; what \<open>call_async\<close> gives for its parameters is not looked at.
\<close>

record wfunc =
  func_params :: "wtype list"
  func_results :: "wtype list"
  call_returns :: "wval list \<Rightarrow> bool"
  call_async :: "wval list \<Rightarrow> wval list \<Rightarrow> string + wval list"
  post_return_async :: "string + unit"

record ('c, 'i) wasm_host =
  parse_is_component :: "bytes \<Rightarrow> string + bool"
  component_from_binary :: "bytes \<Rightarrow> string + 'c"
  encode_module :: "bytes \<Rightarrow> string + bytes"
  wat_parse_bytes :: "bytes \<Rightarrow> string + bytes"
  instantiate_async :: "'c \<Rightarrow> string + 'i"
  export_func :: "'i \<Rightarrow> string \<Rightarrow> wfunc option"
  to_kebab_case :: "string \<Rightarrow> string"
  to_snake_case :: "string \<Rightarrow> string"

record 'i env =
  env_bindings :: "wfunc option"
  env_instance :: "'i option"
  env_store :: wasm_store

definition env_new :: "wasm_store \<Rightarrow> 'i env" where
  "env_new store = \<lparr>env_bindings = None, env_instance = None, env_store = store\<rparr>"

text \<open>One parameter of the call, from the argument at its position.\<close>

definition param_of :: "deps \<Rightarrow> wasm_deps \<Rightarrow> wtype \<Rightarrow> arg input \<Rightarrow> wasm_failure + wval" where
  "param_of D W typ a =
     (case a of
        InputIpld x \<Rightarrow> map_err lift_failure (map_ok fst (rv_try_from D W x (interface_type_from typ)))
      | Arg r \<Rightarrow>
          (case ir_inner r of
             ArgIpld x \<Rightarrow> map_err lift_failure (map_ok fst (rv_try_from D W x (interface_type_from typ)))
           | ArgValue v \<Rightarrow> Ok v)
      | Deferred p \<Rightarrow>
          Err (WError (ResolvePromise (UnresolvedCid
            (''deferred task/instruction not yet resolved or exists for promise: '' @
             branch (aw_result p) @ '': '' @ cid_to_string D (instruction_cid p))))))"

definition call_params :: "deps \<Rightarrow> wasm_deps \<Rightarrow> wfunc \<Rightarrow> arg args \<Rightarrow> wasm_failure + wval list" where
  "call_params D W func args =
     try_fold (\<lambda>acc (typ, a). and_then (param_of D W typ a) (\<lambda>v. Ok (acc @ [v]))) []
       (zip (func_params func) (args_inner args))"

definition execute ::
  "deps \<Rightarrow> wasm_deps \<Rightarrow> 'i env \<Rightarrow> arg args \<Rightarrow> wasm_failure + wasm_output" where
  "execute D W E args =
     and_then (ok_or (env_bindings E) (WError WasmInstantiation)) (\<lambda>func.
     and_then (call_params D W func args) (\<lambda>params.
     let results_alloc = map (\<lambda>_. VBool False) (func_results func) in
     and_then (map_err (\<lambda>e. WError (WasmRuntime e)) (call_async func params results_alloc)) (\<lambda>results.
     and_then (map_err (\<lambda>e. WError (WasmRuntime e)) (post_return_async func)) (\<lambda>_.
     Ok (case results of
           [v] \<Rightarrow> OutputValue v
         | [] \<Rightarrow> OutputVoid
         | _ \<Rightarrow> OutputValues results)))))"

definition component_from_bytes :: "('c, 'i) wasm_host \<Rightarrow> bytes \<Rightarrow> wasm_failure + 'c" where
  "component_from_bytes H bytes =
     (case parse_is_component H bytes of
        Ok is_component \<Rightarrow>
          if is_component
          then map_err (\<lambda>e. WError (IntoWasmComponent e)) (component_from_binary H bytes)
          else
            and_then (map_err (\<lambda>e. WError (WasmRuntime e)) (encode_module H bytes)) (\<lambda>component.
            map_err (\<lambda>e. WError (IntoWasmComponent e)) (component_from_binary H component))
      | Err _ \<Rightarrow>
          and_then (map_err (\<lambda>e. WError (WatError e)) (wat_parse_bytes H bytes)) (\<lambda>wasm_bytes.
          and_then (map_err (\<lambda>e. WError (WasmParser e)) (parse_is_component H wasm_bytes)) (\<lambda>is_component.
          if is_component
          then map_err (\<lambda>e. WError (IntoWasmComponent e)) (component_from_binary H wasm_bytes)
          else Err (WError (WatComponent ''WAT must reference a Wasm component.'')))))"

text \<open>\<open>World::new\<close>: the export by the name given, else by its kebab-case or snake-case form.\<close>

definition world_new :: "('c, 'i) wasm_host \<Rightarrow> 'i \<Rightarrow> string \<Rightarrow> wasm_failure + wfunc" where
  "world_new H inst fun_name =
     ok_or
       (or_else (or_else (export_func H inst fun_name) (export_func H inst (to_kebab_case H fun_name)))
         (export_func H inst (to_snake_case H fun_name)))
       (WError (WasmFunctionNotFound fun_name))"

definition instantiate_with_current_env ::
  "('c, 'i) wasm_host \<Rightarrow> bytes \<Rightarrow> string \<Rightarrow> 'i env \<Rightarrow> wasm_failure + 'i env" where
  "instantiate_with_current_env H bytes fun_name E =
     and_then (component_from_bytes H bytes) (\<lambda>component.
     and_then (map_err (\<lambda>e. WError (WasmRuntime e)) (instantiate_async H component)) (\<lambda>inst.
     and_then (world_new H inst fun_name) (\<lambda>bindings.
     Ok (E\<lparr>env_instance := Some inst, env_bindings := Some bindings\<rparr>))))"

text \<open>
  \<open>World::default\<close> and \<open>World::instantiate\<close>: the results of setting up the engine, the linker and
  the store are \<open>wasmtime\<close>'s. Only \<open>instantiate\<close> makes the store ask for the limits.
\<close>

record engine_host =
  engine_new :: "string + unit"
  wasi_add_to_linker :: "string + unit"
  imports_add_to_linker :: "string + unit"
  store_set_fuel :: "u64 \<Rightarrow> string + unit"
  fuel_async_yield_interval :: "u64 \<Rightarrow> string + unit"

definition setup_store :: "engine_host \<Rightarrow> bool \<Rightarrow> wasm_state \<Rightarrow> wasm_failure + wasm_store" where
  "setup_store G limited data =
     map_err (\<lambda>e. WError (WasmRuntime e))
       (and_then (engine_new G) (\<lambda>_.
        and_then (wasi_add_to_linker G) (\<lambda>_.
        and_then (imports_add_to_linker G) (\<lambda>_.
        and_then (store_set_fuel G (sta_fuel data)) (\<lambda>_.
        and_then (fuel_async_yield_interval G UNIT_OF_COMPUTE_INSTRUCTIONS) (\<lambda>_.
        Ok (store_new limited data)))))))"

definition world_default :: "engine_host \<Rightarrow> wasm_state \<Rightarrow> wasm_failure + 'i env" where
  "world_default G data = map_ok env_new (setup_store G False data)"

definition world_instantiate ::
  "engine_host \<Rightarrow> ('c, 'i) wasm_host \<Rightarrow> bytes \<Rightarrow> string \<Rightarrow> wasm_state \<Rightarrow> wasm_failure + 'i env" where
  "world_instantiate G H bytes fun_name data =
     and_then (setup_store G True data) (\<lambda>store.
     and_then (component_from_bytes H bytes) (\<lambda>component.
     and_then (map_err (\<lambda>e. WError (WasmRuntime e)) (instantiate_async H component)) (\<lambda>inst.
     and_then (world_new H inst fun_name) (\<lambda>bindings.
     Ok ((env_new store)\<lparr>env_instance := Some inst, env_bindings := Some bindings\<rparr>)))))"

text \<open>\<open>WasmContext::new\<close> and \<open>WasmContext::run\<close>.\<close>

definition wasm_context_new :: "engine_host \<Rightarrow> wasm_state \<Rightarrow> wasm_failure + 'i env" where
  "wasm_context_new G data = world_default G data"

definition wasm_run ::
  "deps \<Rightarrow> wasm_deps \<Rightarrow> ('c, 'i) wasm_host \<Rightarrow> 'i env \<Rightarrow> bytes \<Rightarrow> string \<Rightarrow> arg args \<Rightarrow>
   wasm_failure + wasm_output" where
  "wasm_run D W H E bytes fun_name args =
     and_then (instantiate_with_current_env H bytes fun_name E) (\<lambda>E'. execute D W E' args)"

text \<open>Whether a run comes to its end: it does unless it gets as far as a call that does not return.\<close>

definition guest_returns ::
  "deps \<Rightarrow> wasm_deps \<Rightarrow> ('c, 'i) wasm_host \<Rightarrow> 'i env \<Rightarrow> bytes \<Rightarrow> string \<Rightarrow> arg args \<Rightarrow> bool" where
  "guest_returns D W H E bytes fun_name args =
     (case instantiate_with_current_env H bytes fun_name E of
        Err _ \<Rightarrow> True
      | Ok E' \<Rightarrow>
          (case env_bindings E' of
             None \<Rightarrow> True
           | Some func \<Rightarrow>
               (case call_params D W func args of
                  Err _ \<Rightarrow> True
                | Ok params \<Rightarrow> call_returns func params)))"

section \<open>The clock a guest reads\<close>

record wtime =
  seconds :: u64
  milliseconds :: u32
  nanoseconds :: u32

text \<open>\<open>now.duration_since(start)\<close> is zero when \<open>now\<close> is the earlier instant.\<close>

definition get_current_time :: "duration \<Rightarrow> duration \<Rightarrow> wtime" where
  "get_current_time start_time now =
     (let d = now - start_time in
      \<lparr>seconds = word_of_nat (as_secs d),
       milliseconds = word_of_nat (d mod 1000000000 div 1000000),
       nanoseconds = word_of_nat (d mod 1000000000)\<rparr>)"

section \<open>What a guest logs\<close>

datatype log_level = LTrace | LDebug | LInfo | LWarn | LError | LCritical

record log_entry =
  le_level :: log_level
  le_subject :: string
  le_category :: string
  le_message :: string

definition host_print :: "string \<Rightarrow> string" where
  "host_print from_wasm = from_wasm @ [CHR 0x0A]"

text \<open>The runtime has no level for critical messages.\<close>

definition host_log :: "log_level \<Rightarrow> string \<Rightarrow> string \<Rightarrow> log_entry" where
  "host_log level context message =
     \<lparr>le_level = (if level = LCritical then LError else level), le_subject = ''wasm_execution'',
      le_category = context, le_message = message\<rparr>"

section \<open>Lemmas\<close>

lemma setup_store_Ok: "setup_store G limited data = Ok st \<Longrightarrow> st = store_new limited data"
  by (auto simp: setup_store_def result_simps)

lemma instantiate_store: "instantiate_with_current_env H b f E = Ok E' \<Longrightarrow> env_store E' = env_store E"
  by (auto simp: instantiate_with_current_env_def result_simps)

lemma execute_params:
  "try_fold (\<lambda>acc (typ, a). and_then (param_of D W typ a) (\<lambda>v. Ok (acc @ [v]))) [] xs =
     try_map (\<lambda>p. param_of D W (fst p) (snd p)) xs"
proof -
  have "(\<lambda>acc (typ, a). and_then (param_of D W typ a) (\<lambda>v. Ok (acc @ [v]))) =
    (\<lambda>acc p. and_then (param_of D W (fst p) (snd p)) (\<lambda>v. Ok (acc @ [v])))"
    by (simp add: fun_eq_iff split_beta)
  then show ?thesis by (simp add: try_fold_push_Nil)
qed

text \<open>A call happens only on resolved arguments, and is given one value per typed parameter.\<close>

lemma execute_Ok:
  assumes "execute D W E args = Ok outp"
  obtains func params results where "env_bindings E = Some func"
    and "list_all2 (\<lambda>p v. param_of D W (fst p) (snd p) = Ok v)
          (zip (func_params func) (args_inner args)) params"
    and "call_async func params (map (\<lambda>_. VBool False) (func_results func)) = Ok results"
    and "outp = (case results of [v] \<Rightarrow> OutputValue v | [] \<Rightarrow> OutputVoid | _ \<Rightarrow> OutputValues results)"
  using assms
  by (auto simp: execute_def call_params_def execute_params result_simps Let_def intro: that)

lemma param_of_not_deferred: "param_of D W typ a = Ok v \<Longrightarrow> \<not> (\<exists>p. a = Deferred p)"
  by (auto simp: param_of_def)

lemma execute_deferred:
  assumes "execute D W E args = Ok outp"
  obtains func where "env_bindings E = Some func"
    and "\<forall>i < min (length (func_params func)) (length (args_inner args)).
      \<not> (\<exists>p. args_inner args ! i = Deferred p)"
proof (rule execute_Ok [OF assms])
  fix func params results
  assume b: "env_bindings E = Some func"
    and p: "list_all2 (\<lambda>p v. param_of D W (fst p) (snd p) = Ok v)
          (zip (func_params func) (args_inner args)) params"
  have "\<not> (\<exists>q. args_inner args ! i = Deferred q)"
    if "i < min (length (func_params func)) (length (args_inner args))" for i
    using list_all2_nthD [OF p, of i] that param_of_not_deferred by fastforce
  with b that show ?thesis by blast
qed

lemma world_new_Ok:
  "world_new H inst f = Ok w \<Longrightarrow>
   w \<in> {w. \<exists>n \<in> {f, to_kebab_case H f, to_snake_case H f}. export_func H inst n = Some w}"
  by (cases "export_func H inst f"; cases "export_func H inst (to_kebab_case H f)")
    (auto simp: world_new_def result_simps)

text \<open>
  The limiter over a run, as \<open>wasmtime\<close> uses it: before a memory grows, \<open>memory_growing\<close> is asked with
  its current and its desired size, and a memory only grows when it permits it. A growth that was
  permitted may still fail, after which the memory is as before; whether it does is part of the
  request. \<open>lost\<close> adds up the growths that were permitted and failed.
\<close>

type_synonym memories = "usize list"

record grow_request =
  gr_memory :: nat
  gr_desired :: usize
  gr_succeeds :: bool

definition grow_step ::
  "grow_request \<Rightarrow> store_limits \<times> memories \<times> u64 \<Rightarrow> store_limits \<times> memories \<times> u64" where
  "grow_step req s =
     (case s of (l, ms, lost) \<Rightarrow>
        if gr_memory req < length ms
        then
          (let current = ms ! gr_memory req;
               (granted, l') = memory_growing current (gr_desired req) l in
           if \<not> granted then (l', ms, lost)
           else if gr_succeeds req then (l', ms[gr_memory req := gr_desired req], lost)
           else (l', ms, lost + (gr_desired req - current)))
        else s)"

definition limits_inv :: "store_limits \<times> memories \<times> u64 \<Rightarrow> bool" where
  "limits_inv s \<longleftrightarrow>
     (case s of (l, ms, lost) \<Rightarrow>
        memory_consumed l = sum_list ms + lost \<and>
        (\<forall>limit. max_memory_size l = Some limit \<longrightarrow> (\<forall>m \<in> set ms. m \<le> limit)))"

lemma sum_list_update_word:
  "i < length ms \<Longrightarrow> sum_list (ms[i := d]) = sum_list ms + (d - ms ! i)" for ms :: "64 word list"
  by (induction ms arbitrary: i) (auto split: nat.splits simp: nth_Cons')

lemma grow_step_inv: "limits_inv s \<Longrightarrow> limits_inv (grow_step req s)"
proof -
  assume inv: "limits_inv s"
  obtain l ms lost where s: "s = (l, ms, lost)" by (cases s) auto
  have "memory_consumed l = sum_list ms + lost"
    and lim: "\<And>limit. max_memory_size l = Some limit \<Longrightarrow> \<forall>m \<in> set ms. m \<le> limit"
    using inv by (auto simp: s limits_inv_def)
  then show ?thesis
    by (auto simp: s grow_step_def memory_growing_def limits_inv_def Let_def sum_list_update_word
        split: option.splits dest: set_update_subset_insert [THEN subsetD])
qed

lemma grow_step_limit: "max_memory_size (fst (grow_step req s)) = max_memory_size (fst s)"
  by (auto simp: grow_step_def memory_growing_def Let_def split: prod.splits)

lemma grow_step_lost: "gr_succeeds req \<Longrightarrow> snd (snd (grow_step req s)) = snd (snd s)"
  by (auto simp: grow_step_def Let_def split: prod.splits)

lemma grow_steps_inv:
  "limits_inv s \<Longrightarrow> limits_inv (fold grow_step reqs s) \<and>
     max_memory_size (fst (fold grow_step reqs s)) = max_memory_size (fst s)"
  by (induction reqs arbitrary: s) (simp_all add: grow_step_inv grow_step_limit)

lemma grow_steps_lost:
  "(\<forall>req \<in> set reqs. gr_succeeds req) \<Longrightarrow> snd (snd (fold grow_step reqs s)) = snd (snd s)"
  by (induction reqs arbitrary: s) (simp_all add: grow_step_lost)

lemma get_current_time_fields:
  assumes "as_secs (now - start) < 2 ^ 64"
  shows "unat (seconds (get_current_time start now)) * 1000000000 +
         unat (nanoseconds (get_current_time start now)) = now - start"
    and "unat (milliseconds (get_current_time start now)) =
         unat (nanoseconds (get_current_time start now)) div 1000000"
proof -
  let ?d = "now - start"
  have "?d mod 1000000000 < 2 ^ 32" "?d mod 1000000000 div 1000000 < 2 ^ 32"
    using mod_less_divisor [of 1000000000 ?d] by (auto simp: less_mult_imp_div_less)
  then show "unat (seconds (get_current_time start now)) * 1000000000 +
         unat (nanoseconds (get_current_time start now)) = now - start"
    and "unat (milliseconds (get_current_time start now)) =
         unat (nanoseconds (get_current_time start now)) div 1000000"
    using assms
    by (simp_all add: get_current_time_def Let_def unat_of_nat take_bit_nat_eq_self as_secs_def)
qed

end
