(* ===== verification/Rt_Workflow.thy ===== *)
theory Rt_Workflow
  imports Wasm_Exec "HOL-Library.Multiset"
begin

text \<open>
  The runtime's view of a workflow (\<open>homestar-runtime/src/workflow.rs\<close>): the ahead-of-time
  pass \<open>Builder::aot\<close>, which turns the tasks into the nodes of a dependency graph and
  collects the resources each instruction needs, and \<open>Builder::graph\<close>, which schedules the
  graph in batches. Scheduling is the \<open>dagga\<close> crate's \<open>build_schedule\<close>: an argument \<open>S\<close> of the
  definitions, with its documented behaviour as \<open>schedule_ok\<close>.
\<close>

section \<open>Resources\<close>

datatype resource = RscUrl url | RscCid cid

type_synonym indexed_resources = "(cid, resource list) index_map"

text \<open>\<open>Itertools::unique\<close>: the first occurrence of every element, in order.\<close>

fun unique_from :: "'a list \<Rightarrow> 'a list \<Rightarrow> 'a list" where
  "unique_from seen [] = []"
| "unique_from seen (x # xs) =
     (if x \<in> set seen then unique_from seen xs else x # unique_from (x # seen) xs)"

definition resources_iter :: "indexed_resources \<Rightarrow> resource list" where
  "resources_iter m = unique_from [] (concat (map snd m))"

fun resource_into :: "deps \<Rightarrow> resource \<Rightarrow> ipld" where
  "resource_into D (RscUrl u) = IString (url_to_string D u)"
| "resource_into D (RscCid c) = ILink c"

definition indexed_resources_into :: "deps \<Rightarrow> indexed_resources \<Rightarrow> ipld" where
  "indexed_resources_into D m =
     IMap (bt_from (map (\<lambda>(k, v). (cid_to_string D k, IList (map (resource_into D) v))) m))"

datatype anyhow =
    FromWorkflow "unit error"
  | FromParse "arg input_parse_error"
  | FromWasm wasm_failure
  | Msg string

definition resource_try_from :: "deps \<Rightarrow> ipld \<Rightarrow> anyhow + resource" where
  "resource_try_from D x =
     (case x of
        IString u \<Rightarrow> and_then (map_err Msg (url_parse D u)) (\<lambda>u. Ok (RscUrl u))
      | ILink c \<Rightarrow> Ok (RscCid c)
      | _ \<Rightarrow> Err (Msg ''invalid resource type''))"

definition indexed_entry_try_from ::
  "deps \<Rightarrow> string \<times> ipld \<Rightarrow> anyhow + (cid \<times> resource list)" where
  "indexed_entry_try_from D kv =
     and_then (map_err Msg (cid_from_str D (fst kv))) (\<lambda>c.
     and_then (map_err Msg (from_ipld_vec D (snd kv))) (\<lambda>vs.
     and_then (try_map (resource_try_from D) vs) (\<lambda>rscs.
     Ok (c, rscs))))"

definition indexed_resources_try_from :: "deps \<Rightarrow> ipld \<Rightarrow> anyhow + indexed_resources" where
  "indexed_resources_try_from D x =
     and_then (map_err Msg (from_ipld_map D x)) (\<lambda>m.
     and_then (try_map (indexed_entry_try_from D) m) (\<lambda>es.
     Ok (fold (\<lambda>(k, v). im_insert k v) es [])))"

text \<open>The column of the database that holds the map.\<close>

definition indexed_resources_to_sql :: "deps \<Rightarrow> indexed_resources \<Rightarrow> string + bytes" where
  "indexed_resources_to_sql D m = cbor_encode D (indexed_resources_into D m)"

definition indexed_resources_from_sql :: "deps \<Rightarrow> bytes \<Rightarrow> anyhow + indexed_resources" where
  "indexed_resources_from_sql D raw_bytes =
     and_then (map_err Msg (cbor_decode D raw_bytes)) (indexed_resources_try_from D)"

fun resource_fmt :: "deps \<Rightarrow> resource \<Rightarrow> string" where
  "resource_fmt D (RscCid c) = cid_to_string D c"
| "resource_fmt D (RscUrl u) = url_to_string D u"

section \<open>Nodes of the graph\<close>

record vertex =
  v_instruction :: "arg instruction"
  v_parsed :: "arg parsed"
  v_invocation :: pointer

record node =
  n_vertex :: vertex
  n_name :: string
  n_reads :: "nat list"
  n_results :: "nat list"
  n_barrier :: nat

type_synonym dag = "node list"

definition node_new :: "vertex \<Rightarrow> string \<Rightarrow> nat \<Rightarrow> node" where
  "node_new v name i =
     \<lparr>n_vertex = v, n_name = name, n_reads = [], n_results = [i], n_barrier = 0\<rparr>"

section \<open>The ahead-of-time pass\<close>

text \<open>\<open>Builder::lookup_table\<close>: the position of every instruction, the last one for a CID.\<close>

definition rt_instruction_cid :: "deps \<Rightarrow> wasm_deps \<Rightarrow> arg task \<Rightarrow> anyhow + cid" where
  "rt_instruction_cid D W t = map_err FromWorkflow (task_instruction_cid D (arg_into D W) t)"

definition lookup_table ::
  "deps \<Rightarrow> wasm_deps \<Rightarrow> arg workflow \<Rightarrow> anyhow + (cid, nat) index_map" where
  "lookup_table D W flow =
     try_fold (\<lambda>acc (i, t). and_then (rt_instruction_cid D W t) (\<lambda>c. Ok (im_insert c i acc)))
       [] (enumerate 0 (tasks flow))"

record aot_item =
  it_cid :: cid
  it_index :: nat
  it_vertex :: vertex
  it_reads :: "nat list"

text \<open>What the loop body of \<open>aot\<close> computes for one task, with its early returns.\<close>

definition aot_task ::
  "deps \<Rightarrow> wasm_deps \<Rightarrow> (cid, nat) index_map \<Rightarrow> nat \<times> arg task \<Rightarrow> anyhow + aot_item" where
  "aot_task D W table p =
     (case p of (i, t) \<Rightarrow>
        and_then (rt_instruction_cid D W t) (\<lambda>instr_cid.
        and_then (map_err FromWorkflow (invocation_pointer D (arg_into D W) \<lparr>inv_task = t\<rparr>)) (\<lambda>ptr.
        case run t of
          Ptr _ \<Rightarrow> Err (Msg ''workflow tasks/instructions must be expanded / inlined'')
        | Expanded instr \<Rightarrow>
            and_then (map_err FromParse (arg_parse D (input instr))) (\<lambda>parsed.
            let reads = fold (\<lambda>c in_flow_reads.
                  case im_get table c of
                    Some v \<Rightarrow> in_flow_reads @ [v]
                  | None \<Rightarrow> in_flow_reads) (deferreds (parsed_args parsed)) []
            in Ok \<lparr>it_cid = instr_cid, it_index = i,
                   it_vertex = \<lparr>v_instruction = instr, v_parsed = parsed, v_invocation = ptr\<rparr>,
                   it_reads = reads\<rparr>))))"

record aot_acc =
  acc_dag :: dag
  acc_unawaits :: "node list"
  acc_awaited :: "nat list"
  acc_resources :: indexed_resources

text \<open>How the loop body updates the accumulators.\<close>

definition add_resources :: "aot_item \<Rightarrow> indexed_resources \<Rightarrow> indexed_resources" where
  "add_resources it rs =
     fold (\<lambda>c. im_modify_or_insert (it_cid it) (\<lambda>prev. prev @ [RscCid c]) [RscCid c])
       (links (parsed_args (v_parsed (it_vertex it))))
       (im_or_insert (it_cid it) [RscUrl (rsc (v_instruction (it_vertex it)))] rs)"

definition item_node :: "deps \<Rightarrow> aot_item \<Rightarrow> node" where
  "item_node D it = node_new (it_vertex it) (cid_to_string D (it_cid it)) (it_index it)"

definition add_item :: "deps \<Rightarrow> aot_item \<Rightarrow> aot_acc \<Rightarrow> aot_acc" where
  "add_item D it acc =
     (let acc' = acc\<lparr>acc_resources := add_resources it (acc_resources acc)\<rparr> in
      if it_reads it \<noteq> []
      then acc'\<lparr>acc_dag := acc_dag acc @ [(item_node D it)\<lparr>n_reads := it_reads it\<rparr>],
                acc_awaited := acc_awaited acc @ it_reads it\<rparr>
      else acc'\<lparr>acc_unawaits := acc_unawaits acc @ [item_node D it]\<rparr>)"

definition aot_step ::
  "deps \<Rightarrow> wasm_deps \<Rightarrow> (cid, nat) index_map \<Rightarrow> aot_acc \<Rightarrow> nat \<times> arg task \<Rightarrow> anyhow + aot_acc" where
  "aot_step D W table acc p = and_then (aot_task D W table p) (\<lambda>it. Ok (add_item D it acc))"

definition aot_empty :: aot_acc where
  "aot_empty = \<lparr>acc_dag = [], acc_unawaits = [], acc_awaited = [], acc_resources = []\<rparr>"

text \<open>Tasks that neither wait nor are waited for get a barrier, and run after the others.\<close>

definition add_unawait :: "nat list \<Rightarrow> node \<Rightarrow> dag \<Rightarrow> dag" where
  "add_unawait awaited n d =
     (if \<exists>r \<in> set (n_results n). r \<in> set awaited then d @ [n] else d @ [n\<lparr>n_barrier := 1\<rparr>])"

record aot_context =
  aot_dag :: dag
  aot_resources :: indexed_resources

definition aot :: "deps \<Rightarrow> wasm_deps \<Rightarrow> arg workflow \<Rightarrow> anyhow + aot_context" where
  "aot D W flow =
     and_then (lookup_table D W flow) (\<lambda>table.
     and_then (try_fold (aot_step D W table) aot_empty (enumerate 0 (tasks flow))) (\<lambda>acc.
     Ok \<lparr>aot_dag = fold (add_unawait (acc_awaited acc)) (acc_unawaits acc) (acc_dag acc),
         aot_resources = acc_resources acc\<rparr>))"

record execution_graph =
  g_schedule :: "node list list"
  g_resources :: indexed_resources

definition graph ::
  "deps \<Rightarrow> wasm_deps \<Rightarrow> (dag \<Rightarrow> string + node list list) \<Rightarrow> arg workflow \<Rightarrow> anyhow + execution_graph" where
  "graph D W S flow =
     and_then (aot D W flow) (\<lambda>ctx.
     case S (aot_dag ctx) of
       Ok batches \<Rightarrow> Ok \<lparr>g_schedule = batches, g_resources = aot_resources ctx\<rparr>
     | Err e \<Rightarrow> Err (Msg (''schedule could not be built from given workflow: '' @ e)))"

text \<open>
  \<open>build_schedule\<close> places every node of the graph in one batch, and a node that reads a
  result in a later batch than the node that produces it.
\<close>

definition schedule_ok :: "(dag \<Rightarrow> string + node list list) \<Rightarrow> bool" where
  "schedule_ok S \<longleftrightarrow>
     (\<forall>d batches. S d = Ok batches \<longrightarrow>
        mset (concat batches) = mset d \<and>
        (\<forall>j < length batches. \<forall>n \<in> set (batches ! j). \<forall>r \<in> set (n_reads n).
           \<forall>m \<in> set d. r \<in> set (n_results m) \<longrightarrow> (\<exists>i < j. m \<in> set (batches ! i))))"

section \<open>Lemmas\<close>

lemma try_fold_pure:
  "try_fold (\<lambda>acc x. and_then (f x) (\<lambda>y. Ok (h y acc))) acc xs = map_ok (\<lambda>ys. fold h ys acc) (try_map f xs)"
proof (induction xs arbitrary: acc)
  case (Cons x xs)
  then show ?case by (cases "f x"; cases "try_map f xs") auto
qed simp

lemma aot_eq_Ok:
  "aot D W flow = Ok ctx \<longleftrightarrow>
     (\<exists>table its.
        lookup_table D W flow = Ok table \<and>
        list_all2 (\<lambda>p it. aot_task D W table p = Ok it) (enumerate 0 (tasks flow)) its \<and>
        (let acc = fold (add_item D) its aot_empty in
         ctx = \<lparr>aot_dag = fold (add_unawait (acc_awaited acc)) (acc_unawaits acc) (acc_dag acc),
                aot_resources = acc_resources acc\<rparr>))"
proof -
  have "aot_step D W table = (\<lambda>acc p. and_then (aot_task D W table p) (\<lambda>it. Ok (add_item D it acc)))"
    for table by (simp add: fun_eq_iff aot_step_def)
  then show ?thesis
    by (auto simp: aot_def try_fold_pure result_simps Let_def)
qed

lemma fold_add_item:
  "fold (add_item D) its acc =
     \<lparr>acc_dag = acc_dag acc @
        map (\<lambda>it. (item_node D it)\<lparr>n_reads := it_reads it\<rparr>) (filter (\<lambda>it. it_reads it \<noteq> []) its),
      acc_unawaits = acc_unawaits acc @ map (item_node D) (filter (\<lambda>it. it_reads it = []) its),
      acc_awaited = acc_awaited acc @ concat (map it_reads its),
      acc_resources = fold add_resources its (acc_resources acc)\<rparr>"
  by (induction its arbitrary: acc) (auto simp: add_item_def Let_def)

lemma fold_add_unawait:
  "fold (add_unawait aw) ns d =
     d @ map (\<lambda>n. if \<exists>r \<in> set (n_results n). r \<in> set aw then n else n\<lparr>n_barrier := 1\<rparr>) ns"
  by (induction ns arbitrary: d) (auto simp: add_unawait_def)

text \<open>The node of an item: its reads, and the barrier of an item no one waits for.\<close>

definition final_node :: "deps \<Rightarrow> nat list \<Rightarrow> aot_item \<Rightarrow> node" where
  "final_node D awaited it =
     (item_node D it)
       \<lparr>n_reads := it_reads it,
        n_barrier := if it_reads it = [] \<and> it_index it \<notin> set awaited then 1 else 0\<rparr>"

lemma final_node_simps:
  "n_results (final_node D aw it) = [it_index it]"
  "n_reads (final_node D aw it) = it_reads it"
  "n_vertex (final_node D aw it) = it_vertex it"
  "n_barrier (final_node D aw it) = (if it_reads it = [] \<and> it_index it \<notin> set aw then 1 else 0)"
  by (simp_all add: final_node_def item_node_def node_new_def)

lemma aot_dag_nodes:
  fixes its :: "aot_item list" and D :: deps
  defines "acc \<equiv> fold (add_item D) its aot_empty"
  shows "fold (add_unawait (acc_awaited acc)) (acc_unawaits acc) (acc_dag acc) =
    map (final_node D (concat (map it_reads its))) (filter (\<lambda>it. it_reads it \<noteq> []) its) @
    map (final_node D (concat (map it_reads its))) (filter (\<lambda>it. it_reads it = []) its)"
  unfolding acc_def
  by (auto simp: fold_add_item fold_add_unawait aot_empty_def final_node_def item_node_def
      node_new_def)

lemma lookup_table_eq_Ok:
  "lookup_table D W flow = Ok table \<longleftrightarrow>
     (\<exists>cs. list_all2 (\<lambda>t c. rt_instruction_cid D W t = Ok c) (tasks flow) cs \<and>
           table = fold (\<lambda>(i, c). im_insert c i) (enumerate 0 cs) [])"
proof -
  have step: "(\<lambda>acc (i, t). and_then (rt_instruction_cid D W t) (\<lambda>c. Ok (im_insert c i acc))) =
     (\<lambda>acc p. and_then (map_ok (Pair (fst p)) (rt_instruction_cid D W (snd p)))
        (\<lambda>q. Ok ((case q of (i, c) \<Rightarrow> im_insert c i) acc)))"
    (is "?f = ?g")
  proof (intro ext)
    fix acc p
    show "?f acc p = ?g acc p"
      by (cases "rt_instruction_cid D W (snd p)") (auto simp: split_beta)
  qed
  have enum: "list_all2 (\<lambda>p q. \<exists>c. rt_instruction_cid D W (snd p) = Ok c \<and> q = (fst p, c))
      (enumerate n ts) ys \<longleftrightarrow>
    (\<exists>cs. list_all2 (\<lambda>t c. rt_instruction_cid D W t = Ok c) ts cs \<and> ys = enumerate n cs)" for n ts ys
  proof (induction ts arbitrary: n ys)
    case Nil
    then show ?case by auto
  next
    case (Cons t ts)
    show ?case
      by (cases ys) (auto simp: Cons.IH list_all2_Cons1, metis enumerate_simps(2))
  qed
  show ?thesis
    unfolding lookup_table_def step try_fold_pure by (auto simp: result_simps enum)
qed

text \<open>The table maps a CID to the last task that has it.\<close>

lemma im_get_fold_enumerate:
  "im_get (fold (\<lambda>(i, c). im_insert c i) (enumerate 0 cs) []) c = Some i \<longleftrightarrow>
     i < length cs \<and> cs ! i = c \<and> (\<forall>j < length cs. i < j \<longrightarrow> cs ! j \<noteq> c)"
proof (induction cs rule: rev_induct)
  case (snoc x cs)
  show ?case
    using snoc by (auto simp: enumerate_append_eq map_laws nth_append less_Suc_eq)
qed simp

lemma fold_reads:
  "fold (\<lambda>c acc. case im_get table c of Some v \<Rightarrow> acc @ [v] | None \<Rightarrow> acc) cs acc =
     acc @ List.map_filter (im_get table) cs"
  by (induction cs arbitrary: acc) (auto simp: List.map_filter_def split: option.splits)

lemma aot_task_eq_Ok:
  "aot_task D W table (i, t) = Ok it \<longleftrightarrow>
     (\<exists>instr.
        run t = Expanded instr \<and> v_instruction (it_vertex it) = instr \<and>
        rt_instruction_cid D W t = Ok (it_cid it) \<and> it_index it = i \<and>
        invocation_pointer D (arg_into D W) \<lparr>inv_task = t\<rparr> = Ok (v_invocation (it_vertex it)) \<and>
        arg_parse D (input instr) = Ok (v_parsed (it_vertex it)) \<and>
        it_reads it =
          List.map_filter (im_get table) (deferreds (parsed_args (v_parsed (it_vertex it)))))"
  by (cases it; cases "it_vertex it"; cases "run t")
    (auto simp: aot_task_def result_simps Let_def fold_reads)

text \<open>The items of a successful pass, one per task, in order.\<close>

lemma aot_items:
  assumes "aot D W flow = Ok ctx"
  obtains table its where "lookup_table D W flow = Ok table"
    and "length its = length (tasks flow)"
    and "\<And>i. i < length (tasks flow) \<Longrightarrow> aot_task D W table (i, tasks flow ! i) = Ok (its ! i)"
    and "mset (aot_dag ctx) = mset (map (final_node D (concat (map it_reads its))) its)"
    and "aot_resources ctx = fold add_resources its []"
proof -
  from assms obtain table its where t: "lookup_table D W flow = Ok table"
    and its: "list_all2 (\<lambda>p it. aot_task D W table p = Ok it) (enumerate 0 (tasks flow)) its"
    and acc: "let acc = fold (add_item D) its aot_empty in
         ctx = \<lparr>aot_dag = fold (add_unawait (acc_awaited acc)) (acc_unawaits acc) (acc_dag acc),
                aot_resources = acc_resources acc\<rparr>"
    by (auto simp: aot_eq_Ok)
  have ctx: "aot_dag ctx = map (final_node D (concat (map it_reads its))) (filter (\<lambda>it. it_reads it \<noteq> []) its) @
        map (final_node D (concat (map it_reads its))) (filter (\<lambda>it. it_reads it = []) its)"
      "aot_resources ctx = fold add_resources its []"
    using acc aot_dag_nodes [of D its]
    by (simp_all add: Let_def) (simp add: fold_add_item aot_empty_def)
  have "mset its = mset (filter (\<lambda>it. it_reads it \<noteq> []) its) + mset (filter (\<lambda>it. it_reads it = []) its)"
    using multiset_partition [of "mset its" "\<lambda>it. it_reads it \<noteq> []"] by (simp add: mset_filter)
  then have "mset (aot_dag ctx) = mset (map (final_node D (concat (map it_reads its))) its)"
    by (simp add: ctx image_mset_union [symmetric])
  moreover have "length its = length (tasks flow)"
    using list_all2_lengthD [OF its] by simp
  moreover have "aot_task D W table (i, tasks flow ! i) = Ok (its ! i)" if "i < length (tasks flow)" for i
    using list_all2_nthD [OF its, of i] that by (simp add: nth_enumerate_eq)
  ultimately show ?thesis using that t ctx(2) by blast
qed

section \<open>What the graph guarantees\<close>

text \<open>Task \<open>i\<close> waits for the result of task \<open>j\<close>, the last one with the awaited CID.\<close>

definition awaits :: "deps \<Rightarrow> wasm_deps \<Rightarrow> arg workflow \<Rightarrow> nat \<Rightarrow> nat \<Rightarrow> bool" where
  "awaits D W flow i j \<longleftrightarrow>
     i < length (tasks flow) \<and> j < length (tasks flow) \<and>
     (\<exists>instr parsed c. run (tasks flow ! i) = Expanded instr \<and>
        arg_parse D (input instr) = Ok parsed \<and> c \<in> set (deferreds (parsed_args parsed)) \<and>
        rt_instruction_cid D W (tasks flow ! j) = Ok c \<and>
        (\<forall>k < length (tasks flow). j < k \<longrightarrow> rt_instruction_cid D W (tasks flow ! k) \<noteq> Ok c))"

lemma lookup_table_last:
  assumes "lookup_table D W flow = Ok table"
  shows "im_get table c = Some i \<longleftrightarrow>
    i < length (tasks flow) \<and> rt_instruction_cid D W (tasks flow ! i) = Ok c \<and>
    (\<forall>k < length (tasks flow). i < k \<longrightarrow> rt_instruction_cid D W (tasks flow ! k) \<noteq> Ok c)"
proof -
  from assms obtain cs where cs: "list_all2 (\<lambda>t c. rt_instruction_cid D W t = Ok c) (tasks flow) cs"
    and table: "table = fold (\<lambda>(i, c). im_insert c i) (enumerate 0 cs) []"
    by (auto simp: lookup_table_eq_Ok)
  have "length cs = length (tasks flow)" using list_all2_lengthD [OF cs] by simp
  moreover have "rt_instruction_cid D W (tasks flow ! k) = Ok (cs ! k)" if "k < length (tasks flow)" for k
    using list_all2_nthD [OF cs that] .
  ultimately show ?thesis unfolding table im_get_fold_enumerate by auto
qed

lemma in_map_filter: "y \<in> set (List.map_filter f xs) \<longleftrightarrow> (\<exists>x \<in> set xs. f x = Some y)"
  by (induction xs) (auto simp: List.map_filter_simps split: option.splits)

text \<open>The reads of a task's node are exactly the tasks it waits for.\<close>

lemma reads_awaits:
  assumes "lookup_table D W flow = Ok table" and "i < length (tasks flow)"
    and "aot_task D W table (i, tasks flow ! i) = Ok it"
  shows "j \<in> set (it_reads it) \<longleftrightarrow> awaits D W flow i j"
proof -
  from assms(3) obtain instr parsed where run: "run (tasks flow ! i) = Expanded instr"
    and parsed: "arg_parse D (input instr) = Ok parsed"
    and reads: "it_reads it = List.map_filter (im_get table) (deferreds (parsed_args parsed))"
    by (auto simp: aot_task_eq_Ok)
  have "j \<in> set (it_reads it) \<longleftrightarrow> (\<exists>c \<in> set (deferreds (parsed_args parsed)). im_get table c = Some j)"
    by (simp only: reads in_map_filter)
  also have "\<dots> \<longleftrightarrow> awaits D W flow i j"
    unfolding lookup_table_last [OF assms(1)] awaits_def using run parsed assms(2) by auto
  finally show ?thesis .
qed

lemma graph_eq_Ok:
  "graph D W S flow = Ok g \<longleftrightarrow>
     (\<exists>ctx. aot D W flow = Ok ctx \<and> S (aot_dag ctx) = Ok (g_schedule g) \<and>
            g_resources g = aot_resources ctx)"
proof (cases "aot D W flow")
  case (Inr ctx)
  then show ?thesis by (cases g; cases "S (aot_dag ctx)") (auto simp: graph_def)
qed (simp add: graph_def)

lemma schedule_okD:
  assumes "schedule_ok S" and "S d = Ok batches"
  shows "mset (concat batches) = mset d"
    and "j < length batches \<Longrightarrow> n \<in> set (batches ! j) \<Longrightarrow> r \<in> set (n_reads n) \<Longrightarrow>
      m \<in> set d \<Longrightarrow> r \<in> set (n_results m) \<Longrightarrow> \<exists>i < j. m \<in> set (batches ! i)"
  using assms unfolding schedule_ok_def by blast+

lemma it_index_nth:
  assumes "aot_task D W table (i, t) = Ok it"
  shows "it_index it = i"
  using assms by (auto simp: aot_task_eq_Ok)

text \<open>Every task has one node in the graph, whose result is its position.\<close>

lemma aot_results:
  assumes "aot D W flow = Ok ctx"
  shows "mset (map n_results (aot_dag ctx)) = mset (map (\<lambda>i. [i]) [0..<length (tasks flow)])"
proof -
  from assms obtain table its where len: "length its = length (tasks flow)"
    and its: "\<And>i. i < length (tasks flow) \<Longrightarrow> aot_task D W table (i, tasks flow ! i) = Ok (its ! i)"
    and dag: "mset (aot_dag ctx) = mset (map (final_node D (concat (map it_reads its))) its)"
    by (rule aot_items) blast
  have "map (\<lambda>it. [it_index it]) its = map (\<lambda>i. [i]) [0..<length (tasks flow)]"
    using len it_index_nth [OF its] by (auto intro: nth_equalityI)
  then have "mset (map (\<lambda>it. [it_index it]) its) = mset (map (\<lambda>i. [i]) [0..<length (tasks flow)])"
    by (rule arg_cong)
  then show ?thesis
    using arg_cong [OF dag, of "image_mset n_results"]
    by (simp add: final_node_simps multiset.map_comp comp_def)
qed

lemma aot_node:
  assumes "aot D W flow = Ok ctx" and "i < length (tasks flow)"
  obtains n where "n \<in> set (aot_dag ctx)" and "n_results n = [i]"
    and "\<And>j. j \<in> set (n_reads n) \<longleftrightarrow> awaits D W flow i j"
    and "n_barrier n = (if \<exists>j. awaits D W flow i j \<or> awaits D W flow j i then 0 else 1)"
proof -
  from assms(1) obtain table its where t: "lookup_table D W flow = Ok table"
    and len: "length its = length (tasks flow)"
    and its: "\<And>i. i < length (tasks flow) \<Longrightarrow> aot_task D W table (i, tasks flow ! i) = Ok (its ! i)"
    and dag: "mset (aot_dag ctx) = mset (map (final_node D (concat (map it_reads its))) its)"
    by (rule aot_items) blast
  let ?n = "final_node D (concat (map it_reads its)) (its ! i)"
  have n_in: "?n \<in> set (aot_dag ctx)"
    using mset_eq_setD [OF dag] assms(2) len by simp
  have reads: "k \<in> set (it_reads (its ! j)) \<longleftrightarrow> awaits D W flow j k"
    if "j < length (tasks flow)" for j k
    using reads_awaits [OF t that its [OF that]] .
  have idx: "it_index (its ! i) = i" using it_index_nth [OF its [OF assms(2)]] .
  have "i \<in> set (concat (map it_reads its)) \<longleftrightarrow> (\<exists>j < length its. i \<in> set (it_reads (its ! j)))"
    by simp (metis in_set_conv_nth)
  also have "\<dots> \<longleftrightarrow> (\<exists>j. awaits D W flow j i)"
    using len reads by (auto simp: awaits_def)
  finally have awaited: "i \<in> set (concat (map it_reads its)) \<longleftrightarrow> (\<exists>j. awaits D W flow j i)" .
  have "it_reads (its ! i) = [] \<longleftrightarrow> \<not> (\<exists>j. awaits D W flow i j)"
    using reads [OF assms(2)] by (cases "it_reads (its ! i)") auto
  with awaited have "n_barrier ?n = (if \<exists>j. awaits D W flow i j \<or> awaits D W flow j i then 0 else 1)"
    by (auto simp: final_node_simps idx)
  with n_in show ?thesis
    using that [of ?n] reads [OF assms(2)] idx by (simp add: final_node_simps)
qed

lemma node_unique:
  assumes "mset (map n_results ns) = mset (map (\<lambda>i. [i]) [0..<k])"
    and "m \<in> set ns" and "n \<in> set ns" and "n_results m = n_results n"
  shows "m = n"
proof -
  have "distinct (map (\<lambda>i. [i]) [0..<k])" by (simp add: distinct_map inj_on_def)
  then have "distinct (map n_results ns)" using assms(1) by (metis mset_eq_imp_distinct_iff)
  then show ?thesis using assms(2-4) by (metis distinct_map inj_on_eq_iff)
qed

text \<open>A task runs in a later batch than the tasks it waits for.\<close>

lemma graph_order:
  assumes "schedule_ok S" and "graph D W S flow = Ok g" and "awaits D W flow i j"
    and "b < length (g_schedule g)" and "n \<in> set (g_schedule g ! b)" and "n_results n = [i]"
  shows "\<exists>a < b. \<exists>m \<in> set (g_schedule g ! a). n_results m = [j]"
proof -
  from assms(2) obtain ctx where aot: "aot D W flow = Ok ctx"
    and S: "S (aot_dag ctx) = Ok (g_schedule g)" by (auto simp: graph_eq_Ok)
  have ij: "i < length (tasks flow)" "j < length (tasks flow)"
    using assms(3) by (auto simp: awaits_def)
  obtain n' where n': "n' \<in> set (aot_dag ctx)" "n_results n' = [i]"
    "\<And>j. j \<in> set (n_reads n') \<longleftrightarrow> awaits D W flow i j"
    using aot_node [OF aot ij(1)] by metis
  obtain m where m: "m \<in> set (aot_dag ctx)" "n_results m = [j]"
    using aot_node [OF aot ij(2)] by metis
  have "n \<in> set (aot_dag ctx)"
    using mset_eq_setD [OF schedule_okD(1) [OF assms(1) S]] assms(4,5) nth_mem by fastforce
  then have "n = n'"
    using node_unique [OF aot_results [OF aot]] n' assms(6) by metis
  then show ?thesis
    using schedule_okD(2) [OF assms(1) S assms(4,5), of j m] n'(3) m assms(3) by auto
qed

section \<open>The resources of a workflow\<close>

text \<open>An entry of the resource map only grows.\<close>

definition extends :: "indexed_resources \<Rightarrow> indexed_resources \<Rightarrow> bool" where
  "extends rs rs' \<longleftrightarrow> (\<forall>c l. im_get rs c = Some l \<longrightarrow> (\<exists>l'. im_get rs' c = Some (l @ l')))"

lemma extendsD: "extends a b \<Longrightarrow> im_get a c = Some l \<Longrightarrow> \<exists>l'. im_get b c = Some (l @ l')"
  by (auto simp: extends_def)

lemma extends_refl: "extends rs rs"
  by (auto simp: extends_def)

lemma extends_trans: "extends a b \<Longrightarrow> extends b c \<Longrightarrow> extends a c"
  unfolding extends_def by (metis append_assoc)

lemma extends_links:
  "im_get rs c = Some l \<Longrightarrow>
   im_get (fold (\<lambda>x. im_modify_or_insert c (\<lambda>prev. prev @ [RscCid x]) [RscCid x]) xs rs) d =
     (if d = c then Some (l @ map RscCid xs) else im_get rs d)"
proof (induction xs arbitrary: rs l)
  case (Cons x xs)
  then show ?case
    using Cons.IH [of "im_modify_or_insert c (\<lambda>prev. prev @ [RscCid x]) [RscCid x] rs" "l @ [RscCid x]"]
    by (auto simp: map_laws)
qed auto

lemma add_resources_get:
  "im_get (add_resources it rs) d =
     (if d = it_cid it
      then Some ((case im_get rs d of None \<Rightarrow> [RscUrl (rsc (v_instruction (it_vertex it)))] | Some l \<Rightarrow> l) @
                 map RscCid (links (parsed_args (v_parsed (it_vertex it)))))
      else im_get rs d)"
proof -
  let ?u = "RscUrl (rsc (v_instruction (it_vertex it)))"
  have "im_get (im_or_insert (it_cid it) [?u] rs) (it_cid it) =
      Some (case im_get rs (it_cid it) of None \<Rightarrow> [?u] | Some l \<Rightarrow> l)"
    by (auto simp: map_laws split: option.splits)
  from extends_links [OF this] show ?thesis
    by (auto simp: add_resources_def map_laws)
qed

lemma extends_add: "extends rs (add_resources it rs)"
  by (auto simp: extends_def add_resources_get)

lemma extends_fold: "extends rs (fold add_resources its rs)"
  by (induction its arbitrary: rs) (auto intro: extends_refl extends_trans extends_add)

text \<open>The entry of every task's instruction holds the links of its arguments.\<close>

lemma fold_resources_links:
  assumes "it \<in> set its"
  shows "\<exists>l. im_get (fold add_resources its rs) (it_cid it) = Some l \<and>
    set (map RscCid (links (parsed_args (v_parsed (it_vertex it))))) \<subseteq> set l"
proof -
  from assms obtain as bs where its: "its = as @ it # bs" by (metis split_list)
  obtain l where "im_get (add_resources it (fold add_resources as rs)) (it_cid it) =
      Some (l @ map RscCid (links (parsed_args (v_parsed (it_vertex it)))))"
    by (simp add: add_resources_get)
  from extendsD [OF extends_fold this, of bs] its show ?thesis by auto
qed

text \<open>The first task with an instruction's CID contributes the address of its resource.\<close>

lemma fold_resources_url:
  assumes "its = as @ it # bs" and "it_cid it \<notin> it_cid ` set as" and "im_get rs (it_cid it) = None"
  shows "\<exists>l. im_get (fold add_resources its rs) (it_cid it) =
    Some (RscUrl (rsc (v_instruction (it_vertex it))) # l)"
proof -
  have "im_get (fold add_resources as rs) (it_cid it) = None"
    using assms(2,3) by (induction as arbitrary: rs) (auto simp: add_resources_get)
  then have "im_get (add_resources it (fold add_resources as rs)) (it_cid it) =
      Some (RscUrl (rsc (v_instruction (it_vertex it))) #
            map RscCid (links (parsed_args (v_parsed (it_vertex it)))))"
    by (simp add: add_resources_get)
  from extendsD [OF extends_fold this, of bs] assms(1) show ?thesis by auto
qed

text \<open>
  The IPLD form of the resource map is ordered by the text of the CIDs, so the map read back
  may list its entries in another order; what a lookup returns is the same.
\<close>

lemma im_get_fold_insert:
  "im_get (fold (\<lambda>(k, v). im_insert k v) es m) =
     (\<lambda>k. case map_of (rev es) k of Some v \<Rightarrow> Some v | None \<Rightarrow> im_get m k)"
  by (induction es arbitrary: m)
    (auto simp: map_laws map_add_def fun_eq_iff split: option.splits)

lemma set_bt_from: "distinct (map fst xs) \<Longrightarrow> set (bt_from xs) = set xs"
  using map_of_inject_set [of "bt_from xs" xs] bt_inv_distinct [OF bt_inv_from, of xs]
  by (simp add: bt_get_from map_of_rev_distinct)

lemma indexed_entry_roundtrip:
  assumes "serde_ok D" and "cid_text_ok D" and "url_text_ok D"
  shows "indexed_entry_try_from D (cid_to_string D k, IList (map (resource_into D) v)) = Ok (k, v)"
proof -
  have "resource_try_from D (resource_into D r) = Ok r" for r
    using assms(3) by (cases r) (simp_all add: resource_try_from_def url_text_ok_def)
  then have "try_map (resource_try_from D) (map (resource_into D) v) = Ok v"
    by (simp add: try_map_map_Ok)
  then show ?thesis
    using assms(1,2) by (simp add: indexed_entry_try_from_def cid_text_ok_def serde_ok_simps)
qed

lemma indexed_resources_roundtrip:
  assumes "serde_ok D" and "cid_text_ok D" and "url_text_ok D" and "im_inv m"
  obtains m' where "indexed_resources_try_from D (indexed_resources_into D m) = Ok m'"
    and "im_get m' = im_get m"
proof -
  let ?enc = "\<lambda>(k, v). (cid_to_string D k, IList (map (resource_into D) v))"
  have inj: "cid_to_string D a = cid_to_string D b \<Longrightarrow> a = b" for a b
    using assms(2) by (metis cid_text_ok_def sum.inject(2))
  have dist: "distinct (map fst (map ?enc m))"
    using assms(4) inj by (auto simp: im_inv_def distinct_map inj_on_def comp_def split_beta)
  have entries: "set (bt_from (map ?enc m)) = ?enc ` set m"
    using set_bt_from [OF dist] by simp
  have dec: "indexed_entry_try_from D (?enc e) = Ok e" for e
    using indexed_entry_roundtrip [OF assms(1-3)] by (cases e) simp
  have "\<forall>x \<in> set (bt_from (map ?enc m)). \<exists>e. indexed_entry_try_from D x = Ok e \<and> x = ?enc e"
    using entries dec by auto
  from list_all2_choice [OF this] obtain es
    where es: "list_all2 (\<lambda>x e. indexed_entry_try_from D x = Ok e \<and> x = ?enc e) (bt_from (map ?enc m)) es"
    by blast
  have map_es: "bt_from (map ?enc m) = map ?enc es"
    using es by (auto simp: list_all2_conv_all_nth intro: nth_equalityI)
  have "?enc ` set es = ?enc ` set m" using entries map_es by (metis list.set_map)
  moreover have "inj ?enc" using dec by (metis (no_types, lifting) injI sum.inject(2))
  ultimately have "set es = set m" by (simp add: inj_image_eq_iff)
  moreover have "distinct (map fst es)"
    using bt_inv_distinct [OF bt_inv_from [of "map ?enc m"]]
    by (auto simp: map_es distinct_map inj_on_def comp_def split_beta)
  ultimately have "im_get (fold (\<lambda>(k, v). im_insert k v) es []) = im_get m"
    using assms(4) map_of_inject_set [of es m]
    by (auto simp: im_get_fold_insert map_of_rev_distinct im_inv_def fun_eq_iff split: option.splits)
  moreover have "try_map (indexed_entry_try_from D) (bt_from (map ?enc m)) = Ok es"
    using es by (auto simp: result_simps elim: list_all2_mono)
  ultimately show ?thesis
    using that assms(1) by (simp add: indexed_resources_try_from_def indexed_resources_into_def serde_ok_simps)
qed

lemma indexed_resources_sql_roundtrip:
  assumes "serde_ok D" and "cid_text_ok D" and "url_text_ok D" and "cbor_ok D" and "im_inv m"
    and "indexed_resources_to_sql D m = Ok b"
  obtains m' where "indexed_resources_from_sql D b = Ok m'" and "im_get m' = im_get m"
proof (rule indexed_resources_roundtrip [OF assms(1-3,5)])
  fix m'
  assume "indexed_resources_try_from D (indexed_resources_into D m) = Ok m'" and "im_get m' = im_get m"
  then show thesis
    using assms(4,6) that by (simp add: cbor_ok_def indexed_resources_to_sql_def indexed_resources_from_sql_def)
qed

end
