(* ===== verification/Rt_Receipt.thy ===== *)
theory Rt_Receipt
  imports Rt_Workflow
begin

text \<open>
  Receipts and workflow information as the runtime keeps and exchanges them:
  \<open>homestar-runtime/src/receipt.rs\<close>, \<open>workflow/info.rs\<close> (the data and its conversions), the
  capsules that travel over libp2p with their decoder
  (\<open>event_handler/swarm_event/record.rs\<close>), the request-response errors
  (\<open>event_handler/error.rs\<close>) and the gossip messages (\<open>network/pubsub/message.rs\<close>).
\<close>

definition INVOCATION_VERSION :: string where "INVOCATION_VERSION = ''0.2.0''"
definition VERSION_KEY :: string where "VERSION_KEY = ''version''"
definition RECEIPT_TAG :: string where "RECEIPT_TAG = ''ipvm/receipt''"
definition WORKFLOW_TAG :: string where "WORKFLOW_TAG = ''ipvm/workflow''"
definition CID_KEY :: string where "CID_KEY = ''cid''"
definition INSTRUCTION_KEY :: string where "INSTRUCTION_KEY = ''instruction''"

lemmas rt_keys = VERSION_KEY_def CID_KEY_def INSTRUCTION_KEY_def receipt_keys
lemmas tag_defs = RECEIPT_TAG_def WORKFLOW_TAG_def

text \<open>\<open>map.get(KEY).ok_or_else(|| anyhow!("missing {KEY}"))\<close>.\<close>

definition get_or_missing :: "(string, ipld) btree_map \<Rightarrow> string \<Rightarrow> anyhow + ipld" where
  "get_or_missing m k = ok_or (bt_get m k) (Msg (''missing '' @ k))"

section \<open>Runtime receipts\<close>

record rt_receipt =
  r_cid :: pointer
  r_ran :: pointer
  r_instruction :: pointer
  r_out :: "ipld instruction_result"
  r_meta :: ipld
  r_issuer :: "issuer option"
  r_prf :: ucan_prf
  r_version :: string

definition rt_receipt_new :: "cid \<Rightarrow> pointer \<Rightarrow> invocation_receipt \<Rightarrow> rt_receipt" where
  "rt_receipt_new c instr r =
     \<lparr>r_cid = Pointer c, r_ran = ran r, r_instruction = instr, r_out = out r, r_meta = meta r,
      r_issuer = issuer r, r_prf = proof_links r, r_version = INVOCATION_VERSION\<rparr>"

definition try_with :: "deps \<Rightarrow> pointer \<Rightarrow> invocation_receipt \<Rightarrow> anyhow + rt_receipt" where
  "try_with D instr r =
     and_then (map_err FromWorkflow (receipt_to_cid D r)) (\<lambda>c. Ok (rt_receipt_new c instr r))"

definition invocation_capsule :: "deps \<Rightarrow> invocation_receipt \<Rightarrow> anyhow + bytes" where
  "invocation_capsule D r =
     and_then
       (case receipt_into D r of
          IMap m \<Rightarrow>
            Ok (IMap (bt_from [(RECEIPT_TAG, IMap (bt_insert VERSION_KEY (IString INVOCATION_VERSION) m))]))
        | _ \<Rightarrow> Err (Msg ''receipt to Ipld conversion is not a map''))
       (\<lambda>capsule. map_err Msg (cbor_encode D capsule))"

definition set_meta :: "ipld \<Rightarrow> rt_receipt \<Rightarrow> rt_receipt" where
  "set_meta m r = r\<lparr>r_meta := m\<rparr>"

fun output_as_arg :: "ipld instruction_result \<Rightarrow> arg instruction_result" where
  "output_as_arg (IrOk res) = IrOk (arg_from res)"
| "output_as_arg (IrError res) = IrError (arg_from res)"
| "output_as_arg (IrJust res) = IrJust (arg_from res)"

definition to_invocation_receipt :: "rt_receipt \<Rightarrow> invocation_receipt" where
  "to_invocation_receipt r =
     \<lparr>ran = r_ran r, out = r_out r, meta = r_meta r, issuer = r_issuer r, proof_links = r_prf r\<rparr>"

definition rt_receipt_into :: "deps \<Rightarrow> rt_receipt \<Rightarrow> ipld" where
  "rt_receipt_into D r =
     IMap (bt_from
       [(CID_KEY, pointer_into (r_cid r)),
        (RAN_KEY, pointer_into (r_ran r)),
        (INSTRUCTION_KEY, pointer_into (r_instruction r)),
        (OUT_KEY, ir_into id (r_out r)),
        (METADATA_KEY, r_meta r),
        (ISSUER_KEY, case r_issuer r of Some i \<Rightarrow> IString (issuer_to_string D i) | None \<Rightarrow> INull),
        (PROOF_KEY, prf_into (r_prf r)),
        (VERSION_KEY, IString (r_version r))])"

definition rt_receipt_try_from :: "deps \<Rightarrow> ipld \<Rightarrow> anyhow + rt_receipt" where
  "rt_receipt_try_from D x =
     and_then (map_err Msg (from_ipld_map D x)) (\<lambda>m.
     and_then (get_or_missing m CID_KEY) (\<lambda>c_ipld.
     and_then (map_err Msg (from_ipld_cid D c_ipld)) (\<lambda>c.
     and_then (get_or_missing m RAN_KEY) (\<lambda>ran_ipld.
     and_then (map_err FromWorkflow (pointer_try_from D ran_ipld)) (\<lambda>ran_ptr.
     and_then (get_or_missing m INSTRUCTION_KEY) (\<lambda>i_ipld.
     and_then (map_err FromWorkflow (pointer_try_from D i_ipld)) (\<lambda>instr.
     and_then (get_or_missing m OUT_KEY) (\<lambda>out_ipld.
     and_then (get_or_missing m METADATA_KEY) (\<lambda>meta_ipld.
     let iss = map_option Issuer
                 (Option.bind (Option.bind (bt_get m ISSUER_KEY) not_null)
                   (\<lambda>y. ok (from_ipld_principal D y))) in
     and_then (get_or_missing m PROOF_KEY) (\<lambda>prf_ipld.
     and_then (get_or_missing m VERSION_KEY) (\<lambda>v_ipld.
     and_then (map_err Msg (from_ipld_string D v_ipld)) (\<lambda>v.
     and_then (map_err FromWorkflow (ir_try_from id out_ipld)) (\<lambda>o_res.
     and_then (map_err FromWorkflow (prf_try_from D prf_ipld)) (\<lambda>p.
     Ok \<lparr>r_cid = Pointer c, r_ran = ran_ptr, r_instruction = instr, r_out = o_res,
         r_meta = meta_ipld, r_issuer = iss, r_prf = p, r_version = v\<rparr>))))))))))))))"

definition rt_receipt_to_bytes :: "deps \<Rightarrow> rt_receipt \<Rightarrow> anyhow + bytes" where
  "rt_receipt_to_bytes D r = map_err Msg (cbor_encode D (rt_receipt_into D r))"

definition rt_receipt_from_bytes :: "deps \<Rightarrow> bytes \<Rightarrow> anyhow + rt_receipt" where
  "rt_receipt_from_bytes D b =
     and_then (map_err Msg (cbor_decode D b)) (\<lambda>x. rt_receipt_try_from D x)"

text \<open>The SQL binary form of the metadata (\<open>LocalIpld\<close>).\<close>

definition local_ipld_to_sql :: "deps \<Rightarrow> ipld \<Rightarrow> string + bytes" where
  "local_ipld_to_sql D x = cbor_encode D x"

definition local_ipld_from_sql :: "deps \<Rightarrow> bytes \<Rightarrow> string + ipld" where
  "local_ipld_from_sql D b = cbor_decode D b"

section \<open>Workflow information\<close>

type_synonym i32 = "32 word"
type_synonym timestamp = nat

record stored =
  s_cid :: pointer
  s_name :: "string option"
  s_num_tasks :: i32
  s_resources :: indexed_resources
  s_created_at :: timestamp
  s_completed_at :: "timestamp option"

definition stored_new ::
  "pointer \<Rightarrow> string option \<Rightarrow> i32 \<Rightarrow> indexed_resources \<Rightarrow> timestamp \<Rightarrow> stored" where
  "stored_new c n k rs t =
     \<lparr>s_cid = c, s_name = n, s_num_tasks = k, s_resources = rs, s_created_at = t,
      s_completed_at = None\<rparr>"

definition stored_default :: "deps \<Rightarrow> pointer \<Rightarrow> i32 \<Rightarrow> timestamp \<Rightarrow> stored" where
  "stored_default D c k utc_now =
     \<lparr>s_cid = c, s_name = Some (cid_to_string D (ptr_cid c)), s_num_tasks = k, s_resources = [],
      s_created_at = utc_now, s_completed_at = None\<rparr>"

record info =
  i_cid :: cid
  i_name :: "string option"
  i_num_tasks :: u32
  i_progress :: "cid list"
  i_progress_count :: u32
  i_resources :: indexed_resources

definition info_new :: "stored \<Rightarrow> cid list \<Rightarrow> info" where
  "info_new s progress =
     \<lparr>i_cid = ptr_cid (s_cid s), i_name = s_name s, i_num_tasks = s_num_tasks s,
      i_progress = progress, i_progress_count = word_of_nat (length progress),
      i_resources = s_resources s\<rparr>"

definition info_default :: "stored \<Rightarrow> info" where
  "info_default s =
     \<lparr>i_cid = ptr_cid (s_cid s), i_name = s_name s, i_num_tasks = s_num_tasks s,
      i_progress = [], i_progress_count = 0, i_resources = s_resources s\<rparr>"

definition set_resources :: "indexed_resources \<Rightarrow> info \<Rightarrow> info" where
  "set_resources rs i = i\<lparr>i_resources := rs\<rparr>"

definition set_progress_count :: "u32 \<Rightarrow> info \<Rightarrow> info" where
  "set_progress_count n i = i\<lparr>i_progress_count := n\<rparr>"

definition increment_progress :: "cid \<Rightarrow> info \<Rightarrow> info" where
  "increment_progress new_cid i =
     (let progress = i_progress i @ [new_cid] in
      i\<lparr>i_progress := progress, i_progress_count := word_of_nat (length progress) + 1\<rparr>)"

definition info_into :: "deps \<Rightarrow> info \<Rightarrow> ipld" where
  "info_into D i =
     IMap (bt_from
       [(CID_KEY, ILink (i_cid i)),
        (''name'', case i_name i of Some n \<Rightarrow> IString n | None \<Rightarrow> INull),
        (''num_tasks'', IInteger (uint (i_num_tasks i))),
        (''progress'', IList (map ILink (i_progress i))),
        (''progress_count'', IInteger (uint (i_progress_count i))),
        (''resources'', indexed_resources_into D (i_resources i))])"

definition get_or_msg :: "(string, ipld) btree_map \<Rightarrow> string \<Rightarrow> anyhow + ipld" where
  "get_or_msg m k = ok_or (bt_get m k) (Msg (''no `'' @ k @ ''` set''))"

definition info_try_from :: "deps \<Rightarrow> ipld \<Rightarrow> anyhow + info" where
  "info_try_from D x =
     and_then (map_err Msg (from_ipld_map D x)) (\<lambda>m.
     and_then (get_or_msg m CID_KEY) (\<lambda>c_ipld.
     and_then (map_err Msg (from_ipld_cid D c_ipld)) (\<lambda>c.
     let name = Option.bind (Option.bind (bt_get m ''name'') not_null)
                  (\<lambda>y. ok (from_ipld_string D y)) in
     and_then (get_or_msg m ''num_tasks'') (\<lambda>n_ipld.
     and_then (map_err Msg (from_ipld_u32 D n_ipld)) (\<lambda>n.
     and_then (get_or_msg m ''progress'') (\<lambda>p_ipld.
     and_then (map_err Msg (from_ipld_cids D p_ipld)) (\<lambda>p.
     and_then (get_or_msg m ''progress_count'') (\<lambda>pc_ipld.
     and_then (map_err Msg (from_ipld_u32 D pc_ipld)) (\<lambda>pc.
     and_then (get_or_msg m ''resources'') (\<lambda>r_ipld.
     and_then (indexed_resources_try_from D r_ipld) (\<lambda>rs.
     Ok \<lparr>i_cid = c, i_name = name, i_num_tasks = n, i_progress = p, i_progress_count = pc,
         i_resources = rs\<rparr>)))))))))))"

definition info_capsule :: "deps \<Rightarrow> info \<Rightarrow> anyhow + bytes" where
  "info_capsule D i =
     and_then
       (case info_into D i of
          IMap m \<Rightarrow> Ok (IMap (bt_from [(WORKFLOW_TAG, IMap m)]))
        | _ \<Rightarrow> Err (Msg ''workflow info to Ipld conversion is not a map''))
       (\<lambda>capsule. map_err Msg (cbor_encode D capsule))"

section \<open>Request-response errors\<close>

datatype capsule_tag = CapsuleReceipt | CapsuleWorkflow

fun capsule_tag_str :: "capsule_tag \<Rightarrow> string" where
  "capsule_tag_str CapsuleReceipt = RECEIPT_TAG"
| "capsule_tag_str CapsuleWorkflow = WORKFLOW_TAG"

definition capsule_type :: "string \<Rightarrow> capsule_tag option" where
  "capsule_type s =
     (if s = RECEIPT_TAG then Some CapsuleReceipt
      else if s = WORKFLOW_TAG then Some CapsuleWorkflow else None)"

record request_response_key =
  k_cid :: string
  k_tag :: capsule_tag

datatype request_response_error =
    RrTimeout request_response_key
  | RrInvalidCapsule request_response_key
  | RrUnsupported request_response_key

text \<open>
  The derived serialisation of these types: an enum variant with data is a map from the
  variant's name to the data, a variant without data its name, a struct a map of its fields.
\<close>

fun variant_name :: "capsule_tag \<Rightarrow> string" where
  "variant_name CapsuleReceipt = ''Receipt''"
| "variant_name CapsuleWorkflow = ''Workflow''"

definition key_ser :: "request_response_key \<Rightarrow> ipld" where
  "key_ser k = IMap (bt_from [(''cid'', IString (k_cid k)), (''capsule_tag'', IString (variant_name (k_tag k)))])"

fun rr_error_ser :: "request_response_error \<Rightarrow> ipld" where
  "rr_error_ser (RrTimeout k) = IMap (bt_from [(''Timeout'', key_ser k)])"
| "rr_error_ser (RrInvalidCapsule k) = IMap (bt_from [(''InvalidCapsule'', key_ser k)])"
| "rr_error_ser (RrUnsupported k) = IMap (bt_from [(''Unsupported'', key_ser k)])"

definition key_de :: "ipld \<Rightarrow> request_response_key option" where
  "key_de x =
     (case x of
        IMap m \<Rightarrow>
          (case (bt_get m ''cid'', bt_get m ''capsule_tag'') of
             (Some (IString c), Some (IString t)) \<Rightarrow>
               (if t = ''Receipt'' then Some \<lparr>k_cid = c, k_tag = CapsuleReceipt\<rparr>
                else if t = ''Workflow'' then Some \<lparr>k_cid = c, k_tag = CapsuleWorkflow\<rparr>
                else None)
           | _ \<Rightarrow> None)
      | _ \<Rightarrow> None)"

definition rr_error_de :: "ipld \<Rightarrow> request_response_error option" where
  "rr_error_de x =
     (case x of
        IMap [(v, k)] \<Rightarrow>
          (if v = ''Timeout'' then map_option RrTimeout (key_de k)
           else if v = ''InvalidCapsule'' then map_option RrInvalidCapsule (key_de k)
           else if v = ''Unsupported'' then map_option RrUnsupported (key_de k)
           else None)
      | _ \<Rightarrow> None)"

definition rr_error_encode :: "deps \<Rightarrow> request_response_error \<Rightarrow> anyhow + bytes" where
  "rr_error_encode D e = map_err Msg (cbor_encode D (rr_error_ser e))"

text \<open>\<open>decode\<close> asks \<open>from_slice\<close> for a pair \<open>(Self, usize)\<close>, a list of two elements.\<close>

definition rr_error_decode :: "deps \<Rightarrow> bytes \<Rightarrow> anyhow + (request_response_error \<times> usize)" where
  "rr_error_decode D b =
     and_then (map_err Msg (cbor_decode D b)) (\<lambda>x.
     case x of
       IList [e, n] \<Rightarrow>
         (case (rr_error_de e, n) of
            (Some err, IInteger v) \<Rightarrow> ok_or (map_option (Pair err) (try_into_unsigned v)) (Msg ''invalid value'')
          | _ \<Rightarrow> Err (Msg ''invalid type''))
     | _ \<Rightarrow> Err (Msg ''invalid type''))"

section \<open>Capsules\<close>

datatype peer_id = PeerId bytes

datatype decoded_record =
    DecodedReceipt "peer_id option" rt_receipt
  | DecodedWorkflow "peer_id option" info

definition decode_capsule ::
  "deps \<Rightarrow> cid \<Rightarrow> peer_id option \<Rightarrow> bytes \<Rightarrow> anyhow + decoded_record" where
  "decode_capsule D key_cid peer value =
     (case rr_error_decode D value of
        Ok _ \<Rightarrow> Err (Msg ''value returns an error'')
      | Err _ \<Rightarrow>
          (case cbor_decode D value of
             Ok (IMap m) \<Rightarrow>
               (case m of
                  [] \<Rightarrow> Err (Msg ''invalid record value'')
                | (code, y) # _ \<Rightarrow>
                    (case y of
                       IMap rest \<Rightarrow>
                         if code = RECEIPT_TAG
                         then
                           if bt_get rest VERSION_KEY = Some (IString INVOCATION_VERSION)
                           then
                             and_then (map_err FromWorkflow
                                 (receipt_try_from D (IMap (bt_remove VERSION_KEY rest)))) (\<lambda>ir.
                             and_then (try_with D (Pointer key_cid) ir) (\<lambda>r.
                             Ok (DecodedReceipt peer r)))
                           else Err (Msg ''record version mismatch'')
                         else if code = WORKFLOW_TAG
                         then and_then (info_try_from D (IMap rest)) (\<lambda>i. Ok (DecodedWorkflow peer i))
                         else if code = ''Timeout'' then Err (Msg ''decode error: record timed out'')
                         else Err (Msg (''decode mismatch: '' @ code @ '' is not known''))
                     | _ \<Rightarrow>
                         if code = ''Timeout'' then Err (Msg ''decode error: record timed out'')
                         else Err (Msg (''decode mismatch: '' @ code @ '' is not known''))))
           | Ok _ \<Rightarrow> Err (Msg ''decode mismatch: expected an Ipld map'')
           | Err e \<Rightarrow> Err (Msg (''error deserializing record value: '' @ e))))"

record dht_record =
  dht_key :: bytes
  dht_value :: bytes
  dht_publisher :: "peer_id option"

definition found_record :: "deps \<Rightarrow> dht_record \<Rightarrow> anyhow + decoded_record" where
  "found_record D r =
     and_then (map_err Msg (cid_from_bytes D (dht_key r))) (\<lambda>key_cid.
     decode_capsule D key_cid (dht_publisher r) (dht_value r))"

section \<open>Gossip messages\<close>

record 'p message =
  m_nonce :: nonce
  m_payload :: 'p

definition message_into :: "('p \<Rightarrow> ipld) \<Rightarrow> 'p message \<Rightarrow> ipld" where
  "message_into into m =
     IMap (bt_from
       [(''header'', IMap (bt_from [(''nonce'', nonce_into (m_nonce m))])),
        (''payload'', into (m_payload m))])"

definition header_try_from :: "deps \<Rightarrow> ipld \<Rightarrow> anyhow + nonce" where
  "header_try_from D x =
     and_then (map_err Msg (from_ipld_map D x)) (\<lambda>m.
     and_then (ok_or (bt_get m ''nonce'') (Msg ''Missing nonce'')) (\<lambda>n_ipld.
     map_err FromWorkflow (nonce_try_from n_ipld)))"

definition message_try_from ::
  "deps \<Rightarrow> (ipld \<Rightarrow> anyhow + 'p) \<Rightarrow> ipld \<Rightarrow> anyhow + 'p message" where
  "message_try_from D try_from x =
     and_then (map_err Msg (from_ipld_map D x)) (\<lambda>m.
     and_then (get_or_missing m ''header'') (\<lambda>h_ipld.
     and_then (header_try_from D h_ipld) (\<lambda>n.
     and_then (get_or_missing m ''payload'') (\<lambda>p_ipld.
     and_then (try_from p_ipld) (\<lambda>p.
     Ok \<lparr>m_nonce = n, m_payload = p\<rparr>)))))"

definition message_to_bytes :: "deps \<Rightarrow> ('p \<Rightarrow> ipld) \<Rightarrow> 'p message \<Rightarrow> anyhow + bytes" where
  "message_to_bytes D into m = map_err Msg (cbor_encode D (message_into into m))"

definition message_from_bytes ::
  "deps \<Rightarrow> (ipld \<Rightarrow> anyhow + 'p) \<Rightarrow> bytes \<Rightarrow> anyhow + 'p message" where
  "message_from_bytes D try_from b =
     and_then (map_err Msg (cbor_decode D b)) (\<lambda>x.
     map_err (\<lambda>_. Msg ''Could not convert IPLD to pubsub message.'') (message_try_from D try_from x))"

section \<open>Lemmas\<close>

lemma rt_receipt_into_map:
  "rt_receipt_into D r =
     IMap [(CID_KEY, pointer_into (r_cid r)),
           (INSTRUCTION_KEY, pointer_into (r_instruction r)),
           (ISSUER_KEY, case r_issuer r of Some i \<Rightarrow> IString (issuer_to_string D i) | None \<Rightarrow> INull),
           (METADATA_KEY, r_meta r), (OUT_KEY, ir_into id (r_out r)),
           (PROOF_KEY, prf_into (r_prf r)), (RAN_KEY, pointer_into (r_ran r)),
           (VERSION_KEY, IString (r_version r))]"
  by (simp add: rt_receipt_into_def bt_from_def rt_keys)

lemma issuer_read_field:
  "map_option Issuer
     (Option.bind (not_null (case i of Some i \<Rightarrow> IString (issuer_to_string D i) | None \<Rightarrow> INull))
       (\<lambda>y. ok (from_ipld_principal D y))) = issuer_read D i"
  by (cases i) (simp_all add: not_null_def issuer_read_def)

lemma rt_receipt_roundtrip:
  assumes "serde_ok D"
  shows "rt_receipt_try_from D (rt_receipt_into D r) =
    Ok (r\<lparr>r_issuer := issuer_read D (r_issuer r)\<rparr>)"
proof -
  have "ir_try_from id (ir_into id (r_out r)) = Ok (r_out r)"
    by (simp add: ir_codec.try_from_into)
  then show ?thesis
    using assms pointer_codec.try_from_into [OF assms] prf_codec.try_from_into [OF assms]
      issuer_read_field [of D "r_issuer r"]
    by (cases r) (simp add: rt_receipt_into_map rt_receipt_try_from_def get_or_missing_def Let_def
        serde_ok_simps rt_keys pointer_into_def)
qed

interpretation rt_receipt_codec: ipld_codec "rt_receipt_into D" "rt_receipt_try_from D"
    "\<lambda>r. serde_ok D \<and> issuer_read D (r_issuer r) = r_issuer r" for D
  by unfold_locales (simp add: rt_receipt_roundtrip)

lemma info_into_map:
  "info_into D i =
     IMap [(CID_KEY, ILink (i_cid i)),
           (''name'', case i_name i of Some n \<Rightarrow> IString n | None \<Rightarrow> INull),
           (''num_tasks'', IInteger (uint (i_num_tasks i))),
           (''progress'', IList (map ILink (i_progress i))),
           (''progress_count'', IInteger (uint (i_progress_count i))),
           (''resources'', indexed_resources_into D (i_resources i))]"
  by (simp add: info_into_def bt_from_def CID_KEY_def)

text \<open>What is read back agrees up to the order of the resource map.\<close>

definition info_equiv :: "info \<Rightarrow> info \<Rightarrow> bool" where
  "info_equiv i j \<longleftrightarrow>
     i\<lparr>i_resources := []\<rparr> = j\<lparr>i_resources := []\<rparr> \<and> im_get (i_resources i) = im_get (i_resources j)"

lemma info_roundtrip:
  assumes "serde_ok D" and "cid_text_ok D" and "url_text_ok D" and "im_inv (i_resources i)"
  obtains j where "info_try_from D (info_into D i) = Ok j" and "info_equiv j i"
proof -
  obtain rs where rs: "indexed_resources_try_from D (indexed_resources_into D (i_resources i)) = Ok rs"
    "im_get rs = im_get (i_resources i)"
    using indexed_resources_roundtrip [OF assms] .
  have name: "Option.bind (not_null (case i_name i of Some n \<Rightarrow> IString n | None \<Rightarrow> INull))
      (\<lambda>y. ok (from_ipld_string D y)) = i_name i"
    using assms(1) by (cases "i_name i") (simp_all add: not_null_def serde_ok_simps)
  have "info_try_from D (info_into D i) = Ok (i\<lparr>i_resources := rs\<rparr>)"
    using assms(1) rs(1) name
    by (cases i) (simp add: info_into_map info_try_from_def get_or_msg_def Let_def serde_ok_simps
        CID_KEY_def)
  with that rs(2) show ?thesis by (simp add: info_equiv_def)
qed

lemma rr_error_ser_map: "\<exists>m. rr_error_ser e = IMap m"
  by (cases e) auto

text \<open>
  An encoded request-response error is never decoded: \<open>encode\<close> writes the error alone, and
  \<open>decode\<close> reads a pair.
\<close>

lemma rr_error_never_decodes:
  assumes "cbor_ok D" and "rr_error_encode D e = Ok b"
  shows "\<exists>x. rr_error_decode D b = Err x"
proof -
  have "cbor_decode D b = Ok (rr_error_ser e)"
    using assms by (simp add: rr_error_encode_def result_simps cbor_ok_def)
  then show ?thesis using rr_error_ser_map [of e] by (auto simp: rr_error_decode_def)
qed

lemma cbor_decode_map_not_error:
  "cbor_decode D b = Ok (IMap m) \<Longrightarrow> \<exists>x. rr_error_decode D b = Err x"
  by (simp add: rr_error_decode_def)

lemma version_removed:
  "bt_remove VERSION_KEY (bt_insert VERSION_KEY (IString INVOCATION_VERSION)
      [(ISSUER_KEY, a), (METADATA_KEY, b), (OUT_KEY, c), (PROOF_KEY, d), (RAN_KEY, e)]) =
    [(ISSUER_KEY, a), (METADATA_KEY, b), (OUT_KEY, c), (PROOF_KEY, d), (RAN_KEY, e)]"
  by (simp add: rt_keys)

text \<open>A receipt shared as a capsule is decoded to the receipt, for the instruction of its key.\<close>

lemma receipt_capsule_roundtrip:
  assumes "serde_ok D" and "cbor_ok D" and "issuer_read D (issuer r) = issuer r"
    and capsule: "invocation_capsule D r = Ok b"
  shows "decode_capsule D key peer b = map_ok (DecodedReceipt peer) (try_with D (Pointer key) r)"
proof -
  obtain m where m: "receipt_into D r = IMap m"
    and rm: "bt_remove VERSION_KEY (bt_insert VERSION_KEY (IString INVOCATION_VERSION) m) = m"
    and get: "bt_get (bt_insert VERSION_KEY (IString INVOCATION_VERSION) m) VERSION_KEY =
      Some (IString INVOCATION_VERSION)"
    using version_removed by (auto simp: receipt_into_map map_laws)
  then have "cbor_encode D (IMap [(RECEIPT_TAG, IMap (bt_insert VERSION_KEY (IString INVOCATION_VERSION) m))]) = Ok b"
    using capsule by (simp add: invocation_capsule_def result_simps)
  then have dec: "cbor_decode D b =
      Ok (IMap [(RECEIPT_TAG, IMap (bt_insert VERSION_KEY (IString INVOCATION_VERSION) m))])"
    using assms(2) by (simp add: cbor_ok_def)
  obtain x where x: "rr_error_decode D b = Err x"
    using cbor_decode_map_not_error [OF dec] by blast
  have "receipt_try_from D (IMap m) = Ok r"
    using receipt_codec.try_from_into [of D r] assms(1,3) by (simp add: m)
  then show ?thesis
    by (simp add: decode_capsule_def x dec rm get and_then_Ok)
qed

lemma info_capsule_roundtrip:
  assumes "serde_ok D" and "cbor_ok D" and "cid_text_ok D" and "url_text_ok D"
    and "im_inv (i_resources i)" and capsule: "info_capsule D i = Ok b"
  obtains j where "decode_capsule D key peer b = Ok (DecodedWorkflow peer j)" and "info_equiv j i"
proof -
  obtain m where m: "info_into D i = IMap m" by (simp add: info_into_map)
  then have "cbor_encode D (IMap [(WORKFLOW_TAG, IMap m)]) = Ok b"
    using capsule by (simp add: info_capsule_def result_simps)
  then have dec: "cbor_decode D b = Ok (IMap [(WORKFLOW_TAG, IMap m)])"
    using assms(2) by (simp add: cbor_ok_def)
  obtain x where x: "rr_error_decode D b = Err x"
    using cbor_decode_map_not_error [OF dec] by blast
  obtain j where j: "info_try_from D (IMap m) = Ok j" "info_equiv j i"
    using info_roundtrip [OF assms(1,3,4,5)] m by metis
  then have "decode_capsule D key peer b = Ok (DecodedWorkflow peer j)"
    by (simp add: decode_capsule_def x dec tag_defs)
  with that j(2) show ?thesis by blast
qed

lemma message_roundtrip:
  assumes "serde_ok D" and "nonce_wf (m_nonce m)" and "try_from (into (m_payload m)) = Ok (m_payload m)"
  shows "message_try_from D try_from (message_into into m) = Ok m"
  using assms nonce_codec.try_from_into [OF assms(2)]
  by (simp add: message_into_def message_try_from_def header_try_from_def bt_from_def
      get_or_missing_def serde_ok_simps)

interpretation message_codec: ipld_codec "message_into into" "message_try_from D try_from"
    "\<lambda>m. serde_ok D \<and> nonce_wf (m_nonce m) \<and> try_from (into (m_payload m)) = Ok (m_payload m)"
    for D into try_from
  by unfold_locales (simp add: message_roundtrip)

end
