(* ===== verification/Db.thy ===== *)
theory Db
  imports Rt_Receipt
begin

text \<open>
  The database of \<open>homestar-runtime/src/db.rs\<close>, with the tables of \<open>db/schema.rs\<close> and the
  constraints of \<open>migrations/\<close>: a table is the list of its rows in insertion order. Each
  query of the \<open>Database\<close> trait is an operation on the tables that returns a result, as
  the SQL it builds does: \<open>on_conflict(..).do_nothing()\<close> leaves a row with an existing key out,
  \<open>get_result\<close> without a row is \<open>NotFound\<close>, \<open>optional()\<close> turns that error into \<open>None\<close>, a
  reference to a missing row is refused (\<open>PRAGMA foreign_keys = ON\<close>), and a transaction that
  fails leaves the tables as they were.
\<close>

datatype diesel_error = NotFound | ForeignKeyViolation | DatabaseError string

record database =
  t_receipts :: "rt_receipt list"
  t_workflows :: "stored list"
  t_workflows_receipts :: "(pointer \<times> pointer) list"

type_synonym 'a db_op = "database \<Rightarrow> (diesel_error + 'a) \<times> database"

definition db_empty :: database where
  "db_empty = \<lparr>t_receipts = [], t_workflows = [], t_workflows_receipts = []\<rparr>"

section \<open>Sequencing and transactions\<close>

definition db_bind :: "'a db_op \<Rightarrow> ('a \<Rightarrow> 'b db_op) \<Rightarrow> 'b db_op" where
  "db_bind f g db = (case f db of (Ok x, db') \<Rightarrow> g x db' | (Err e, db') \<Rightarrow> (Err e, db'))"

definition db_return :: "'a \<Rightarrow> 'a db_op" where
  "db_return x db = (Ok x, db)"

fun db_try_fold :: "('acc \<Rightarrow> 'x \<Rightarrow> 'acc db_op) \<Rightarrow> 'acc \<Rightarrow> 'x list \<Rightarrow> 'acc db_op" where
  "db_try_fold f acc [] = db_return acc"
| "db_try_fold f acc (x # xs) = db_bind (f acc x) (\<lambda>acc'. db_try_fold f acc' xs)"

definition transaction :: "'a db_op \<Rightarrow> 'a db_op" where
  "transaction f db = (case f db of (Ok x, db') \<Rightarrow> (Ok x, db') | (Err e, _) \<Rightarrow> (Err e, db))"

section \<open>Receipts\<close>

definition store_receipt :: "rt_receipt \<Rightarrow> rt_receipt option db_op" where
  "store_receipt r db =
     (if \<exists>x \<in> set (t_receipts db). r_cid x = r_cid r
      then (Ok None, db)
      else (Ok (Some r), db\<lparr>t_receipts := t_receipts db @ [r]\<rparr>))"

text \<open>\<open>execute\<close> returns the number of rows that were inserted.\<close>

definition store_receipts :: "rt_receipt list \<Rightarrow> nat db_op" where
  "store_receipts rs =
     db_try_fold (\<lambda>acc r.
       db_bind (store_receipt r) (\<lambda>res.
       db_return (acc + (case res of Some _ \<Rightarrow> 1 | None \<Rightarrow> 0)))) 0 rs"

definition find_instruction_pointers :: "pointer list \<Rightarrow> database \<Rightarrow> diesel_error + rt_receipt list" where
  "find_instruction_pointers ps db =
     Ok (filter (\<lambda>r. r_instruction r \<in> set ps) (t_receipts db))"

definition first_row :: "'a list \<Rightarrow> diesel_error + 'a" where
  "first_row rows = (case rows of [] \<Rightarrow> Err NotFound | r # _ \<Rightarrow> Ok r)"

definition find_instruction_by_cid :: "cid \<Rightarrow> database \<Rightarrow> diesel_error + rt_receipt" where
  "find_instruction_by_cid c db =
     first_row (filter (\<lambda>r. r_instruction r = Pointer c) (t_receipts db))"

definition find_receipt_by_cid :: "cid \<Rightarrow> database \<Rightarrow> diesel_error + rt_receipt" where
  "find_receipt_by_cid c db = first_row (filter (\<lambda>r. r_cid r = Pointer c) (t_receipts db))"

definition find_receipt_pointers :: "pointer list \<Rightarrow> database \<Rightarrow> diesel_error + rt_receipt list" where
  "find_receipt_pointers ps db = Ok (filter (\<lambda>r. r_cid r \<in> set ps) (t_receipts db))"

section \<open>Workflows\<close>

definition store_workflow :: "stored \<Rightarrow> stored db_op" where
  "store_workflow w db =
     (if \<exists>x \<in> set (t_workflows db). s_cid x = s_cid w
      then (Ok w, db)
      else (Ok w, db\<lparr>t_workflows := t_workflows db @ [w]\<rparr>))"

definition store_workflow_receipt :: "cid \<Rightarrow> cid \<Rightarrow> nat option db_op" where
  "store_workflow_receipt workflow_cid receipt_cid db =
     (let row = (Pointer workflow_cid, Pointer receipt_cid) in
      if row \<in> set (t_workflows_receipts db) then (Ok (Some 0), db)
      else if (\<exists>w \<in> set (t_workflows db). s_cid w = Pointer workflow_cid) \<and>
              (\<exists>r \<in> set (t_receipts db). r_cid r = Pointer receipt_cid)
      then (Ok (Some 1), db\<lparr>t_workflows_receipts := t_workflows_receipts db @ [row]\<rparr>)
      else (Err ForeignKeyViolation, db))"

definition store_workflow_receipts :: "cid \<Rightarrow> cid list \<Rightarrow> nat db_op" where
  "store_workflow_receipts workflow_cid rs =
     db_try_fold (\<lambda>acc r.
       db_bind (store_workflow_receipt workflow_cid r) (\<lambda>res.
       db_return (acc + (case res of Some n \<Rightarrow> n | None \<Rightarrow> 0)))) 0 rs"

definition commit_receipt :: "cid \<Rightarrow> rt_receipt \<Rightarrow> rt_receipt db_op" where
  "commit_receipt workflow_cid receipt =
     transaction (
       db_bind (store_receipt receipt) (\<lambda>res.
       case res of
         Some returned \<Rightarrow>
           db_bind (store_workflow_receipt workflow_cid (ptr_cid (r_cid returned))) (\<lambda>_.
           db_return returned)
       | None \<Rightarrow>
           db_bind (store_workflow_receipt workflow_cid (ptr_cid (r_cid receipt))) (\<lambda>_.
           db_return receipt)))"

definition select_workflow :: "cid \<Rightarrow> database \<Rightarrow> diesel_error + stored" where
  "select_workflow c db = first_row (filter (\<lambda>w. s_cid w = Pointer c) (t_workflows db))"

definition get_workflow_info :: "cid \<Rightarrow> database \<Rightarrow> diesel_error + (string option \<times> info)" where
  "get_workflow_info workflow_cid db =
     and_then (select_workflow workflow_cid db) (\<lambda>workflow.
     let associated = map snd (filter (\<lambda>p. fst p = s_cid workflow) (t_workflows_receipts db));
         cids = map ptr_cid associated
     in Ok (s_name workflow, info_new workflow cids))"

text \<open>The update of \<open>update_local_name\<close> has no condition on the workflow.\<close>

definition update_local_name :: "string \<Rightarrow> timestamp \<Rightarrow> unit db_op" where
  "update_local_name name now db =
     (Ok (),
      db\<lparr>t_workflows := map (\<lambda>w. if s_created_at w < now then w\<lparr>s_name := Some name\<rparr> else w)
          (t_workflows db)\<rparr>)"

section \<open>The constraints as an invariant\<close>

definition db_inv :: "database \<Rightarrow> bool" where
  "db_inv db \<longleftrightarrow>
     distinct (map r_cid (t_receipts db)) \<and>
     distinct (map s_cid (t_workflows db)) \<and>
     distinct (t_workflows_receipts db) \<and>
     (\<forall>(w, r) \<in> set (t_workflows_receipts db).
        w \<in> s_cid ` set (t_workflows db) \<and> r \<in> r_cid ` set (t_receipts db))"

named_theorems db_invs \<open>the operations of the database keep its invariant\<close>

lemma db_inv_empty [db_invs, simp]: "db_inv db_empty"
  by (simp add: db_inv_def db_empty_def)

lemma db_inv_store_receipt [db_invs]: "db_inv db \<Longrightarrow> db_inv (snd (store_receipt r db))"
  by (auto simp: db_inv_def store_receipt_def)

lemma db_inv_store_workflow [db_invs]: "db_inv db \<Longrightarrow> db_inv (snd (store_workflow w db))"
  by (auto simp: db_inv_def store_workflow_def)

lemma db_inv_store_workflow_receipt [db_invs]:
  "db_inv db \<Longrightarrow> db_inv (snd (store_workflow_receipt w r db))"
  by (auto simp: db_inv_def store_workflow_receipt_def Let_def) (metis image_eqI)+

lemma db_inv_cong:
  assumes "map r_cid (t_receipts db) = map r_cid (t_receipts db')"
    and "map s_cid (t_workflows db) = map s_cid (t_workflows db')"
    and "t_workflows_receipts db = t_workflows_receipts db'"
  shows "db_inv db = db_inv db'"
  unfolding db_inv_def set_map [symmetric] assms ..

lemma db_inv_update_local_name [db_invs]: "db_inv db \<Longrightarrow> db_inv (snd (update_local_name n t db))"
  by (subst db_inv_cong [of _ db]) (auto simp: update_local_name_def)

lemma db_inv_bind [db_invs]:
  assumes "db_inv (snd (f db))" and "\<And>x db'. db_inv db' \<Longrightarrow> db_inv (snd (g x db'))"
  shows "db_inv (snd (db_bind f g db))"
  using assms by (cases "f db") (auto simp: db_bind_def split: sum.splits)

lemma db_inv_return [db_invs]: "db_inv db \<Longrightarrow> db_inv (snd (db_return x db))"
  by (simp add: db_return_def)

lemma db_inv_try_fold [db_invs]:
  assumes "\<And>acc x db. db_inv db \<Longrightarrow> db_inv (snd (f acc x db))" and "db_inv db"
  shows "db_inv (snd (db_try_fold f acc xs db))"
  using assms(2) by (induction xs arbitrary: acc db) (auto intro!: db_invs assms(1))

lemma db_inv_transaction [db_invs]:
  "db_inv db \<Longrightarrow> (\<And>db. db_inv db \<Longrightarrow> db_inv (snd (f db))) \<Longrightarrow> db_inv (snd (transaction f db))"
  by (auto simp: transaction_def split: prod.splits sum.splits) (metis snd_conv)

lemma db_inv_commit_receipt [db_invs]: "db_inv db \<Longrightarrow> db_inv (snd (commit_receipt w r db))"
  unfolding commit_receipt_def
  by (auto intro!: db_inv_transaction db_inv_bind db_inv_store_receipt db_inv_return
      db_inv_store_workflow_receipt split: option.splits)

lemma db_inv_store_receipts [db_invs]: "db_inv db \<Longrightarrow> db_inv (snd (store_receipts rs db))"
  unfolding store_receipts_def by (auto intro!: db_invs)

lemma db_inv_store_workflow_receipts [db_invs]:
  "db_inv db \<Longrightarrow> db_inv (snd (store_workflow_receipts w rs db))"
  unfolding store_workflow_receipts_def by (auto intro!: db_invs)

section \<open>Lookups\<close>

lemma first_row_filter_Ok:
  "first_row (filter P xs) = Ok x \<Longrightarrow> x \<in> set xs \<and> P x"
  by (cases "filter P xs") (auto simp: first_row_def filter_eq_Cons_iff)

lemma first_row_filter_Err:
  "first_row (filter P xs) = Err e \<longleftrightarrow> e = NotFound \<and> (\<forall>x \<in> set xs. \<not> P x)"
  by (cases "filter P xs") (auto simp: first_row_def filter_empty_conv filter_eq_Cons_iff)

lemma find_receipt_by_cid_iff:
  assumes "db_inv db"
  shows "find_receipt_by_cid c db = Ok r \<longleftrightarrow> r \<in> set (t_receipts db) \<and> r_cid r = Pointer c"
proof
  assume r: "r \<in> set (t_receipts db) \<and> r_cid r = Pointer c"
  obtain x where x: "find_receipt_by_cid c db = Ok x"
    using r first_row_filter_Err [of "\<lambda>r. r_cid r = Pointer c" "t_receipts db"]
    by (cases "find_receipt_by_cid c db") (auto simp: find_receipt_by_cid_def)
  moreover have "x \<in> set (t_receipts db)" "r_cid x = Pointer c"
    using first_row_filter_Ok [OF x [unfolded find_receipt_by_cid_def]] by auto
  moreover have "inj_on r_cid (set (t_receipts db))"
    using assms by (simp add: db_inv_def distinct_map)
  ultimately show "find_receipt_by_cid c db = Ok r" using r by (metis inj_on_eq_iff)
qed (auto simp: find_receipt_by_cid_def dest: first_row_filter_Ok)

text \<open>The effect of a commit on the tables, in one equation.\<close>

lemma commit_receipt_cases:
  "commit_receipt w r db =
     (let known = (\<exists>x \<in> set (t_receipts db). r_cid x = r_cid r);
          workflow = (\<exists>x \<in> set (t_workflows db). s_cid x = Pointer w);
          row = (Pointer w, r_cid r);
          rs = (if known then t_receipts db else t_receipts db @ [r]) in
      if row \<in> set (t_workflows_receipts db) then (Ok r, db\<lparr>t_receipts := rs\<rparr>)
      else if workflow
      then (Ok r, db\<lparr>t_receipts := rs, t_workflows_receipts := t_workflows_receipts db @ [row]\<rparr>)
      else (Err ForeignKeyViolation, db))"
  by (cases "r_cid r")
    (auto simp: commit_receipt_def transaction_def db_bind_def db_return_def store_receipt_def
      store_workflow_receipt_def Let_def)

section \<open>The contract of a receipt store\<close>

text \<open>
  What the scheduler and the worker rely on: receipts are only ever added, by commits, and
  a lookup finds what was committed.
\<close>

locale receipt_store =
  fixes inv :: "'s \<Rightarrow> bool"
    and rows :: "'s \<Rightarrow> rt_receipt set"
    and by_cid :: "cid \<Rightarrow> 's \<Rightarrow> diesel_error + rt_receipt"
    and by_pointers :: "pointer list \<Rightarrow> 's \<Rightarrow> diesel_error + rt_receipt list"
    and commit :: "cid \<Rightarrow> rt_receipt \<Rightarrow> 's \<Rightarrow> (diesel_error + rt_receipt) \<times> 's"
  assumes by_cid_Ok: "by_cid c s = Ok r \<Longrightarrow> r \<in> rows s \<and> r_instruction r = Pointer c"
    and by_cid_Err: "by_cid c s = Err e \<Longrightarrow> r \<in> rows s \<Longrightarrow> r_instruction r \<noteq> Pointer c"
    and by_pointers_set:
      "\<exists>rs. by_pointers ps s = Ok rs \<and> set rs = {r \<in> rows s. r_instruction r \<in> set ps}"
    and commit_inv: "inv s \<Longrightarrow> inv (snd (commit w r s))"
    and commit_mono: "rows s \<subseteq> rows (snd (commit w r s))"
    and commit_rows: "rows (snd (commit w r s)) \<subseteq> insert r (rows s)"
    and commit_Ok: "commit w r s = (Ok x, s') \<Longrightarrow> \<exists>y \<in> rows s'. r_cid y = r_cid r"
    and commit_Err: "commit w r s = (Err e, s') \<Longrightarrow> s' = s"
begin

text \<open>A sequence of commits, whatever their results.\<close>

definition commits :: "(cid \<times> rt_receipt) list \<Rightarrow> 's \<Rightarrow> 's" where
  "commits crs s = fold (\<lambda>(w, r) s. snd (commit w r s)) crs s"

lemma commits_inv: "inv s \<Longrightarrow> inv (commits crs s)"
  unfolding commits_def by (induction crs arbitrary: s) (auto intro: commit_inv)

lemma commits_mono: "rows s \<subseteq> rows (commits crs s)"
  unfolding commits_def
proof (induction crs arbitrary: s)
  case (Cons c crs)
  show ?case
    using commit_mono [of s "fst c" "snd c"] Cons.IH [of "snd (commit (fst c) (snd c) s)"]
    by (simp add: split_beta)
qed simp

lemma commits_rows: "rows (commits crs s) \<subseteq> snd ` set crs \<union> rows s"
  unfolding commits_def
proof (induction crs arbitrary: s)
  case (Cons c crs)
  show ?case
    using commit_rows [of "fst c" "snd c" s] Cons.IH [of "snd (commit (fst c) (snd c) s)"]
    by (auto simp: split_beta)
qed simp

text \<open>An instruction that has a receipt keeps having one.\<close>

lemma lookup_persists:
  assumes "by_cid c s = Ok r"
  shows "\<exists>r'. by_cid c (commits crs s) = Ok r'"
  using by_cid_Ok [OF assms] commits_mono [of s crs] by_cid_Err [of c "commits crs s" _ r]
  by (cases "by_cid c (commits crs s)") auto

text \<open>A new receipt that was committed is found by its instruction, whatever follows.\<close>

lemma lookup_after_commit:
  assumes "commit w r s = (Ok x, s')" and "\<And>y. y \<in> rows s \<Longrightarrow> r_cid y \<noteq> r_cid r"
    and "r_instruction r = Pointer c"
  shows "\<exists>r'. by_cid c (commits crs s') = Ok r'"
proof -
  obtain y where "y \<in> rows s'" "r_cid y = r_cid r" using commit_Ok [OF assms(1)] by blast
  moreover have "rows s' \<subseteq> insert r (rows s)" using commit_rows [of w r s] assms(1) by simp
  ultimately have "r \<in> rows s'" using assms(2) by blast
  then have "r \<in> rows (commits crs s')" using commits_mono by blast
  then show ?thesis
    using by_cid_Err [of c "commits crs s'" _ r] assms(3)
    by (cases "by_cid c (commits crs s')") auto
qed

end

lemma find_pointers_set:
  "\<exists>rs. find_instruction_pointers ps db = Ok rs \<and>
        set rs = {r \<in> set (t_receipts db). r_instruction r \<in> set ps}"
  by (auto simp: find_instruction_pointers_def)

interpretation db_store: receipt_store db_inv "\<lambda>db. set (t_receipts db)" find_instruction_by_cid
    find_instruction_pointers commit_receipt
proof
  fix c db r e ps w x db'
  show "find_instruction_by_cid c db = Ok r \<Longrightarrow> r \<in> set (t_receipts db) \<and> r_instruction r = Pointer c"
    by (auto simp: find_instruction_by_cid_def dest: first_row_filter_Ok)
  show "find_instruction_by_cid c db = Err e \<Longrightarrow> r \<in> set (t_receipts db) \<Longrightarrow> r_instruction r \<noteq> Pointer c"
    by (auto simp: find_instruction_by_cid_def first_row_filter_Err)
  show "\<exists>rs. find_instruction_pointers ps db = Ok rs \<and>
        set rs = {r \<in> set (t_receipts db). r_instruction r \<in> set ps}"
    by (rule find_pointers_set)
  show "db_inv db \<Longrightarrow> db_inv (snd (commit_receipt w r db))"
    by (rule db_inv_commit_receipt)
  show "set (t_receipts db) \<subseteq> set (t_receipts (snd (commit_receipt w r db)))"
    by (auto simp: commit_receipt_cases Let_def)
  show "set (t_receipts (snd (commit_receipt w r db))) \<subseteq> insert r (set (t_receipts db))"
    by (auto simp: commit_receipt_cases Let_def)
  show "commit_receipt w r db = (Ok x, db') \<Longrightarrow> \<exists>y \<in> set (t_receipts db'). r_cid y = r_cid r"
    by (auto simp: commit_receipt_cases Let_def split: if_splits)
  show "commit_receipt w r db = (Err e, db') \<Longrightarrow> db' = db"
    by (auto simp: commit_receipt_cases Let_def split: if_splits)
qed

section \<open>Further facts\<close>

text \<open>The progress of a workflow is the receipts committed for it, each counted once.\<close>

lemma get_workflow_info_progress:
  assumes "db_inv db" and "get_workflow_info w db = Ok (name, i)"
  shows "i_cid i = w" and "set (i_progress i) = {c. (Pointer w, Pointer c) \<in> set (t_workflows_receipts db)}"
    and "distinct (i_progress i)"
    and "i_progress_count i = word_of_nat (card {c. (Pointer w, Pointer c) \<in> set (t_workflows_receipts db)})"
proof -
  from assms(2) obtain s where s: "select_workflow w db = Ok s"
    and i: "i = info_new s (map ptr_cid (map snd (filter (\<lambda>p. fst p = s_cid s) (t_workflows_receipts db))))"
    by (auto simp: get_workflow_info_def result_simps Let_def)
  have cid: "s_cid s = Pointer w"
    using first_row_filter_Ok [OF s [unfolded select_workflow_def]] by simp
  have rows: "set (map ptr_cid (map snd (filter (\<lambda>p. fst p = Pointer w) (t_workflows_receipts db)))) =
      {c. (Pointer w, Pointer c) \<in> set (t_workflows_receipts db)}"
    by (force simp: image_iff)
  have dist: "distinct (map ptr_cid (map snd (filter (\<lambda>p. fst p = Pointer w) (t_workflows_receipts db))))"
    using assms(1)
    by (auto simp: db_inv_def distinct_map inj_on_def pointer.expand comp_def)
  have "length (filter (\<lambda>p. fst p = Pointer w) (t_workflows_receipts db)) =
      card {c. (Pointer w, Pointer c) \<in> set (t_workflows_receipts db)}"
    using distinct_card [OF dist] rows by simp
  with rows dist show "i_cid i = w" "set (i_progress i) = {c. (Pointer w, Pointer c) \<in> set (t_workflows_receipts db)}"
    "distinct (i_progress i)"
    "i_progress_count i = word_of_nat (card {c. (Pointer w, Pointer c) \<in> set (t_workflows_receipts db)})"
    by (simp_all add: i cid info_new_def)
qed

lemma commit_receipt_idem:
  assumes "commit_receipt w r db = (Ok x, db')"
  shows "commit_receipt w r db' = (Ok r, db')"
  using assms by (auto simp: commit_receipt_cases Let_def split: if_splits)

end
