(* ===== verification/Scheduler.thy ===== *)
theory Scheduler
  imports Db
begin

text \<open>
  \<open>TaskScheduler::init\<close> (\<open>homestar-runtime/src/scheduler.rs\<close>): the batches of an execution
  graph are visited from the last to the first, looking for one whose instructions all have
  a receipt in the database; the run resumes after it. On the way the resources to fetch
  are collected. The fetch function is an argument of the definitions.
\<close>

type_synonym linkmap = "(cid, arg instruction_result) index_map"
type_synonym fetched = "(resource, bytes) index_map"
type_synonym schedule = "node list list"
type_synonym to_fetch = "(cid \<times> resource) list"

record task_scheduler =
  sch_linkmap :: linkmap
  sch_ran :: "schedule option"
  sch_run :: schedule
  sch_resume_step :: "nat option"
  sch_resources :: fetched

section \<open>The loop over the batches\<close>

text \<open>
  The pointers of a batch. The resources of a node are pushed as its entry is found, so those
  of the nodes before an error stay.
\<close>

fun fold_pointers ::
  "deps \<Rightarrow> indexed_resources \<Rightarrow> node list \<Rightarrow> to_fetch \<Rightarrow> pointer list \<Rightarrow>
   (anyhow + pointer list) \<times> to_fetch" where
  "fold_pointers D rs [] rtf ptrs = (Ok ptrs, rtf)"
| "fold_pointers D rs (n # ns) rtf ptrs =
     (case cid_from_str D (n_name n) of
        Err e \<Rightarrow> (Err (Msg e), rtf)
      | Ok c \<Rightarrow>
          (case im_get rs c of
             None \<Rightarrow> (Err (Msg (''resource not found for instruction '' @ cid_to_string D c)), rtf)
           | Some l \<Rightarrow> fold_pointers D rs ns (rtf @ map (Pair c) l) (ptrs @ [Pointer c])))"

text \<open>One receipt found: one pair of its instruction is dropped, its output is linked.\<close>

definition drop_one :: "cid \<Rightarrow> to_fetch \<Rightarrow> to_fetch" where
  "drop_one c rtf =
     (case position (\<lambda>p. fst p = c) rtf of
        Some idx \<Rightarrow> swap_remove idx rtf
      | None \<Rightarrow> rtf)"

definition link_receipt :: "rt_receipt \<Rightarrow> linkmap \<Rightarrow> linkmap" where
  "link_receipt r m = im_insert (ptr_cid (r_instruction r)) (output_as_arg (r_out r)) m"

text \<open>The batches in reverse order; the result is the resume point, if there is one.\<close>

fun resume_loop ::
  "deps \<Rightarrow> indexed_resources \<Rightarrow> database \<Rightarrow> (nat \<times> node list) list \<Rightarrow> to_fetch \<Rightarrow>
   (nat \<times> linkmap) option \<times> to_fetch" where
  "resume_loop D rs db [] rtf = (None, rtf)"
| "resume_loop D rs db ((idx, vec) # bs) rtf =
     (case fold_pointers D rs vec rtf [] of
        (Err _, rtf') \<Rightarrow> resume_loop D rs db bs rtf'
      | (Ok pointers, rtf') \<Rightarrow>
          (case find_instruction_pointers pointers db of
             Err _ \<Rightarrow> resume_loop D rs db bs rtf'
           | Ok found \<Rightarrow>
               (let rtf'' = fold (\<lambda>r. drop_one (ptr_cid (r_instruction r))) found rtf';
                    linkmap = fold link_receipt found [] in
                if length found = length vec then (Some (idx + 1, linkmap), rtf'')
                else resume_loop D rs db bs rtf'')))"

definition scheduler_init ::
  "deps \<Rightarrow> execution_graph \<Rightarrow> database \<Rightarrow> (resource set \<Rightarrow> anyhow + fetched) \<Rightarrow>
   anyhow + task_scheduler" where
  "scheduler_init D g db fetch_fn =
     (let schedule = g_schedule g;
          (resume, rtf) = resume_loop D (g_resources g) db (rev (enumerate 0 schedule)) [] in
      and_then (map_err (\<lambda>_. Msg ''unable to fetch resources'') (fetch_fn (set (map snd rtf)))) (\<lambda>fetched.
      case resume of
        Some (idx, linkmap) \<Rightarrow>
          Ok \<lparr>sch_linkmap = linkmap, sch_ran = Some (take idx schedule), sch_run = drop idx schedule,
              sch_resume_step = (if length schedule \<le> idx \<or> idx = 0 then None else Some idx),
              sch_resources = fetched\<rparr>
      | None \<Rightarrow>
          Ok \<lparr>sch_linkmap = [], sch_ran = None, sch_run = schedule, sch_resume_step = None,
              sch_resources = fetched\<rparr>))"

definition ran_length :: "task_scheduler \<Rightarrow> nat" where
  "ran_length s = (case sch_ran s of Some batches \<Rightarrow> length (concat batches) | None \<Rightarrow> 0)"

definition run_length :: "task_scheduler \<Rightarrow> nat" where
  "run_length s = length (concat (sch_run s))"

section \<open>Lemmas\<close>

lemma mset_swap_remove:
  assumes "i < length xs"
  shows "mset (swap_remove i xs) = mset xs - {#xs ! i#}"
proof (cases "i = length xs - 1")
  case True
  with assms show ?thesis
    by (cases xs rule: rev_cases) (auto simp: swap_remove_def)
next
  case False
  with assms obtain ys y where xs: "xs = ys @ [y]" "i < length ys"
    by (cases xs rule: rev_cases) auto
  then show ?thesis
    by (simp add: swap_remove_def list_update_append nth_append mset_update)
qed

lemma set_swap_remove: "i < length xs \<Longrightarrow> set (swap_remove i xs) \<subseteq> set xs"
  by (metis mset_swap_remove set_mset_mset set_mset_mono diff_subset_eq_self)

text \<open>Dropping a pair touches only the pairs of that instruction.\<close>

lemma drop_one_other:
  "(c, r) \<in> set rtf \<Longrightarrow> c \<noteq> d \<Longrightarrow> (c, r) \<in> set (drop_one d rtf)"
proof -
  assume mem: "(c, r) \<in> set rtf" and "c \<noteq> d"
  show ?thesis
  proof (cases "position (\<lambda>p. fst p = d) rtf")
    case (Some i)
    then have i: "i < length rtf" "fst (rtf ! i) = d" using position_Some [OF Some] by auto
    have "(c, r) \<noteq> rtf ! i" using i(2) \<open>c \<noteq> d\<close> by (metis fst_conv)
    then have "(c, r) \<in># mset rtf - {#rtf ! i#}"
      using mem in_diff_count [of "(c, r)" "mset rtf" "{#rtf ! i#}"] by simp
    then show ?thesis by (metis Some drop_one_def i(1) mset_swap_remove option.simps(5) set_mset_mset)
  qed (use mem in \<open>simp add: drop_one_def\<close>)
qed

lemma drop_one_subset: "set (drop_one d rtf) \<subseteq> set rtf"
proof (cases "position (\<lambda>p. fst p = d) rtf")
  case (Some i)
  then show ?thesis
    using position_Some [OF Some] set_swap_remove [of i rtf] by (simp add: drop_one_def)
qed (simp add: drop_one_def)

lemma fold_drop_other:
  "(c, r) \<in> set rtf \<Longrightarrow> \<forall>x \<in> set rs. ptr_cid (r_instruction x) \<noteq> c \<Longrightarrow>
   (c, r) \<in> set (fold (\<lambda>x. drop_one (ptr_cid (r_instruction x))) rs rtf)"
proof (induction rs arbitrary: rtf)
  case (Cons a rs)
  then have "(c, r) \<in> set (drop_one (ptr_cid (r_instruction a)) rtf)"
    by (intro drop_one_other) auto
  with Cons show ?case by simp
qed simp

lemma fold_drop_subset:
  "set (fold (\<lambda>x. drop_one (ptr_cid (r_instruction x))) rs rtf) \<subseteq> set rtf"
  by (induction rs arbitrary: rtf) (auto dest: drop_one_subset [THEN subsetD])

lemma fold_pointers_mono: "set rtf \<subseteq> set (snd (fold_pointers D rs ns rtf ptrs))"
proof (induction D rs ns rtf ptrs rule: fold_pointers.induct)
  case (2 D rs n ns rtf ptrs)
  then show ?case by (fastforce split: sum.splits option.splits)
qed simp

lemma fold_pointers_fst:
  "fst (fold_pointers D rs ns rtf ptrs) = fst (fold_pointers D rs ns rtf' ptrs)"
  by (induction ns arbitrary: rtf rtf' ptrs) (auto split: sum.splits option.splits)

text \<open>A batch whose nodes all have an entry: the pointers of its nodes, and all their resources.\<close>

definition node_cid :: "deps \<Rightarrow> node \<Rightarrow> cid \<Rightarrow> bool" where
  "node_cid D n c \<longleftrightarrow> cid_from_str D (n_name n) = Ok c"

lemma fold_pointers_Ok:
  assumes "fold_pointers D rs ns rtf ptrs = (Ok ps, rtf')"
  obtains cs where "list_all2 (node_cid D) ns cs" and "ps = ptrs @ map Pointer cs"
    and "rtf' = rtf @ concat (map (\<lambda>c. map (Pair c) (the (im_get rs c))) cs)"
    and "\<forall>c \<in> set cs. im_get rs c \<noteq> None"
proof -
  have "\<exists>cs. list_all2 (node_cid D) ns cs \<and> ps = ptrs @ map Pointer cs \<and>
      rtf' = rtf @ concat (map (\<lambda>c. map (Pair c) (the (im_get rs c))) cs) \<and>
      (\<forall>c \<in> set cs. im_get rs c \<noteq> None)"
    using assms
  proof (induction D rs ns rtf ptrs rule: fold_pointers.induct)
    case (2 D rs n ns rtf ptrs)
    then obtain c l where c: "cid_from_str D (n_name n) = Ok c" "im_get rs c = Some l"
      and rest: "fold_pointers D rs ns (rtf @ map (Pair c) l) (ptrs @ [Pointer c]) = (Ok ps, rtf')"
      by (auto split: sum.splits option.splits)
    from "2.IH" [OF c rest] obtain cs where
      "list_all2 (node_cid D) ns cs" "ps = (ptrs @ [Pointer c]) @ map Pointer cs"
      "rtf' = (rtf @ map (Pair c) l) @ concat (map (\<lambda>c. map (Pair c) (the (im_get rs c))) cs)"
      "\<forall>c \<in> set cs. im_get rs c \<noteq> None" by blast
    moreover have "node_cid D n c" using c(1) by (simp add: node_cid_def)
    ultimately show ?case using c(2) by (intro exI [of _ "c # cs"]) simp
  qed simp
  with that show ?thesis by blast
qed

text \<open>The link map holds outputs of receipts of the database.\<close>

definition links_sound :: "database \<Rightarrow> linkmap \<Rightarrow> bool" where
  "links_sound db m \<longleftrightarrow>
     (\<forall>c v. im_get m c = Some v \<longrightarrow>
        (\<exists>r \<in> set (t_receipts db). r_instruction r = Pointer c \<and> v = output_as_arg (r_out r)))"

lemma links_sound_Nil [simp]: "links_sound db []"
  by (simp add: links_sound_def)

lemma links_sound_link:
  "links_sound db m \<Longrightarrow> r \<in> set (t_receipts db) \<Longrightarrow> links_sound db (link_receipt r m)"
  by (cases "r_instruction r") (auto simp: links_sound_def link_receipt_def map_laws split: if_splits)

lemma links_sound_fold:
  "links_sound db m \<Longrightarrow> set rs \<subseteq> set (t_receipts db) \<Longrightarrow> links_sound db (fold link_receipt rs m)"
  by (induction rs arbitrary: m) (auto intro: links_sound_link)

section \<open>Where a run resumes\<close>

text \<open>
  The receipts of a batch, when all its nodes are known, and the batches that count as done:
  those with as many receipts as nodes.
\<close>

definition batch_receipts :: "deps \<Rightarrow> indexed_resources \<Rightarrow> database \<Rightarrow> node list \<Rightarrow> rt_receipt list option" where
  "batch_receipts D rs db vec =
     (case fst (fold_pointers D rs vec [] []) of
        Ok ps \<Rightarrow> Some (filter (\<lambda>r. r_instruction r \<in> set ps) (t_receipts db))
      | Err _ \<Rightarrow> None)"

definition batch_done :: "deps \<Rightarrow> indexed_resources \<Rightarrow> database \<Rightarrow> node list \<Rightarrow> bool" where
  "batch_done D rs db vec \<longleftrightarrow>
     (case batch_receipts D rs db vec of Some found \<Rightarrow> length found = length vec | None \<Rightarrow> False)"

definition batch_links :: "deps \<Rightarrow> indexed_resources \<Rightarrow> database \<Rightarrow> node list \<Rightarrow> linkmap" where
  "batch_links D rs db vec =
     (case batch_receipts D rs db vec of Some found \<Rightarrow> fold link_receipt found [] | None \<Rightarrow> [])"

lemmas batch_defs = batch_receipts_def batch_done_def batch_links_def

text \<open>The loop finds the first of the given batches that is done.\<close>

lemma resume_loop_find:
  "fst (resume_loop D rs db bs rtf) =
     map_option (\<lambda>(idx, vec). (idx + 1, batch_links D rs db vec)) (List.find (\<lambda>(idx, vec). batch_done D rs db vec) bs)"
proof (induction bs arbitrary: rtf)
  case (Cons b bs)
  obtain idx vec where b: "b = (idx, vec)" by fastforce
  obtain res rtf1 where f: "fold_pointers D rs vec rtf [] = (res, rtf1)" by fastforce
  then have "fst (fold_pointers D rs vec [] []) = res"
    using fold_pointers_fst [of D rs vec rtf "[]" "[]"] by simp
  with Cons f show ?case
    by (cases res) (auto simp: b batch_defs find_instruction_pointers_def Let_def)
qed simp

lemma links_sound_batch: "links_sound db (batch_links D rs db vec)"
  by (auto simp: batch_defs intro!: links_sound_fold split: option.splits sum.splits)

text \<open>The last batch that is done.\<close>

definition last_done :: "deps \<Rightarrow> indexed_resources \<Rightarrow> database \<Rightarrow> schedule \<Rightarrow> (nat \<times> node list) option" where
  "last_done D rs db sched = List.find (\<lambda>(idx, vec). batch_done D rs db vec) (rev (enumerate 0 sched))"

lemma find_rev_enumerate:
  "List.find (\<lambda>(i, x). P x) (rev (enumerate 0 xs)) = Some (k, y) \<longleftrightarrow>
     k < length xs \<and> xs ! k = y \<and> P y \<and> (\<forall>j < length xs. k < j \<longrightarrow> \<not> P (xs ! j))"
proof (induction xs rule: rev_induct)
  case (snoc x xs)
  show ?case
  proof (cases "P x")
    case True
    then show ?thesis by (auto simp: enumerate_append_eq nth_append less_Suc_eq)
  next
    case False
    then have "List.find (\<lambda>(i, x). P x) (rev (enumerate 0 (xs @ [x]))) =
      List.find (\<lambda>(i, x). P x) (rev (enumerate 0 xs))"
      by (simp add: enumerate_append_eq)
    with snoc False show ?thesis by (auto simp: nth_append less_Suc_eq)
  qed
qed simp

lemma last_done_Some:
  "last_done D rs db sched = Some (k, vec) \<longleftrightarrow>
     k < length sched \<and> sched ! k = vec \<and> batch_done D rs db vec \<and>
     (\<forall>j < length sched. k < j \<longrightarrow> \<not> batch_done D rs db (sched ! j))"
  unfolding last_done_def by (rule find_rev_enumerate)

lemma last_done_None:
  "last_done D rs db sched = None \<longleftrightarrow> (\<forall>vec \<in> set sched. \<not> batch_done D rs db vec)"
proof -
  have "snd ` set (enumerate 0 sched) = set sched"
    by (metis list.set_map map_snd_enumerate)
  then show ?thesis by (force simp: last_done_def find_None_iff)
qed

lemma scheduler_init_Ok:
  assumes "scheduler_init D g db f = Ok s"
  obtains (fresh) "last_done D (g_resources g) db (g_schedule g) = None" "sch_ran s = None"
      "sch_run s = g_schedule g" "sch_resume_step s = None" "sch_linkmap s = []"
  | (resumed) k vec where "last_done D (g_resources g) db (g_schedule g) = Some (k, vec)"
      "sch_ran s = Some (take (k + 1) (g_schedule g))" "sch_run s = drop (k + 1) (g_schedule g)"
      "sch_resume_step s = (if k + 1 < length (g_schedule g) then Some (k + 1) else None)"
      "sch_linkmap s = batch_links D (g_resources g) db vec"
proof -
  obtain res rtf where loop: "resume_loop D (g_resources g) db (rev (enumerate 0 (g_schedule g))) [] = (res, rtf)"
    by fastforce
  then have res: "res = map_option (\<lambda>(idx, vec). (idx + 1, batch_links D (g_resources g) db vec))
      (last_done D (g_resources g) db (g_schedule g))"
    using resume_loop_find [of D "g_resources g" db "rev (enumerate 0 (g_schedule g))" "[]"]
    by (simp add: last_done_def)
  show ?thesis
  proof (cases "last_done D (g_resources g) db (g_schedule g)")
    case None
    with assms loop res show ?thesis by (intro fresh) (auto simp: scheduler_init_def result_simps Let_def)
  next
    case (Some p)
    then obtain k vec where p: "last_done D (g_resources g) db (g_schedule g) = Some (k, vec)" by fastforce
    with assms loop res show ?thesis by (intro resumed) (auto simp: scheduler_init_def result_simps Let_def)
  qed
qed

section \<open>What is fetched\<close>

text \<open>The set of resources \<open>init\<close> asks for.\<close>

definition fetch_request :: "deps \<Rightarrow> execution_graph \<Rightarrow> database \<Rightarrow> resource set" where
  "fetch_request D g db =
     set (map snd (snd (resume_loop D (g_resources g) db (rev (enumerate 0 (g_schedule g))) [])))"

lemma scheduler_init_fetch:
  "scheduler_init D g db f = Ok s \<Longrightarrow> f (fetch_request D g db) = Ok (sch_resources s)"
  by (auto simp: scheduler_init_def fetch_request_def result_simps Let_def split: prod.splits option.splits)

definition no_receipt :: "database \<Rightarrow> cid \<Rightarrow> bool" where
  "no_receipt db c \<longleftrightarrow> (\<forall>r \<in> set (t_receipts db). r_instruction r \<noteq> Pointer c)"

lemma no_receipt_kept:
  assumes "(c, r) \<in> set rtf" and "no_receipt db c"
  shows "(c, r) \<in> set (snd (resume_loop D rs db bs rtf))"
  using assms(1)
proof (induction bs arbitrary: rtf)
  case (Cons b bs)
  obtain idx vec where b: "b = (idx, vec)" by fastforce
  obtain res rtf1 where f: "fold_pointers D rs vec rtf [] = (res, rtf1)" by fastforce
  with fold_pointers_mono [of rtf D rs vec "[]"] Cons.prems have mem: "(c, r) \<in> set rtf1" by auto
  show ?case
  proof (cases res)
    case (Inl e)
    with Cons.IH [OF mem] f show ?thesis by (simp add: b)
  next
    case (Inr ps)
    let ?found = "filter (\<lambda>r. r_instruction r \<in> set ps) (t_receipts db)"
    have "\<forall>x \<in> set ?found. ptr_cid (r_instruction x) \<noteq> c"
      using assms(2) by (metis filter_is_subset no_receipt_def pointer.collapse subsetD)
    from fold_drop_other [OF mem this] Cons.IH f Inr show ?thesis
      by (simp add: b find_instruction_pointers_def Let_def)
  qed
qed simp

text \<open>A batch that is visited and not done, whose nodes are known: all resources of a node without receipt stay.\<close>

lemma visited_fetched:
  assumes "\<forall>b \<in> set (as @ [(i, vec)]). \<not> batch_done D rs db (snd b)"
    and "fst (fold_pointers D rs vec [] []) = Ok ps" and "Pointer c \<in> set ps"
    and "im_get rs c = Some l" and "r \<in> set l" and "no_receipt db c"
  shows "(c, r) \<in> set (snd (resume_loop D rs db (as @ (i, vec) # bs) rtf))"
  using assms(1)
proof (induction as arbitrary: rtf)
  case Nil
  obtain res rtf1 where f: "fold_pointers D rs vec rtf [] = (res, rtf1)" by fastforce
  then have ok: "fold_pointers D rs vec rtf [] = (Ok ps, rtf1)"
    using fold_pointers_fst [of D rs vec rtf "[]" "[]"] assms(2) by simp
  then have mem: "(c, r) \<in> set rtf1"
    by (rule fold_pointers_Ok) (use assms(3-5) in force)
  let ?found = "filter (\<lambda>r. r_instruction r \<in> set ps) (t_receipts db)"
  have "\<forall>x \<in> set ?found. ptr_cid (r_instruction x) \<noteq> c"
    using assms(6) by (metis filter_is_subset no_receipt_def pointer.collapse subsetD)
  from fold_drop_other [OF mem this] no_receipt_kept [OF _ assms(6)] ok Nil assms(2) show ?case
    by (auto simp: find_instruction_pointers_def Let_def batch_defs)
next
  case (Cons a as)
  obtain idx v where a: "a = (idx, v)" by fastforce
  obtain res rtf1 where f: "fold_pointers D rs v rtf [] = (res, rtf1)" by fastforce
  then have res: "fst (fold_pointers D rs v [] []) = res"
    using fold_pointers_fst [of D rs v rtf "[]" "[]"] by simp
  from Cons.prems have "\<not> batch_done D rs db v" by (simp add: a)
  with f res obtain rtf2 where
    "resume_loop D rs db ((a # as) @ (i, vec) # bs) rtf = resume_loop D rs db (as @ (i, vec) # bs) rtf2"
    by (cases res) (auto simp: a find_instruction_pointers_def Let_def batch_defs)
  with Cons show ?case by simp
qed

text \<open>Every node's name is the CID of an instruction with an entry in the resource map.\<close>

definition nodes_known :: "deps \<Rightarrow> execution_graph \<Rightarrow> bool" where
  "nodes_known D g \<longleftrightarrow>
     (\<forall>n \<in> set (concat (g_schedule g)). \<exists>c. node_cid D n c \<and> im_get (g_resources g) c \<noteq> None)"

lemma fold_pointers_known:
  assumes "\<forall>n \<in> set ns. \<exists>c. node_cid D n c \<and> im_get rs c \<noteq> None"
  shows "\<exists>ps. fst (fold_pointers D rs ns rtf ptrs) = Ok (ptrs @ ps) \<and>
    (\<forall>n \<in> set ns. \<forall>c. node_cid D n c \<longrightarrow> Pointer c \<in> set ps)"
  using assms
proof (induction ns arbitrary: rtf ptrs)
  case (Cons n ns)
  then obtain c l where c: "cid_from_str D (n_name n) = Ok c" "im_get rs c = Some l"
    by (auto simp: node_cid_def)
  from Cons obtain ps where
    "fst (fold_pointers D rs ns (rtf @ map (Pair c) l) (ptrs @ [Pointer c])) = Ok ((ptrs @ [Pointer c]) @ ps)"
    "\<forall>n \<in> set ns. \<forall>c. node_cid D n c \<longrightarrow> Pointer c \<in> set ps"
    by (metis list.set_intros(2))
  with c show ?case by (intro exI [of _ "Pointer c # ps"]) (auto simp: node_cid_def)
qed simp

lemma rev_enumerate_split:
  "j < length xs \<Longrightarrow>
   rev (enumerate 0 xs) = rev (enumerate (j + 1) (drop (j + 1) xs)) @ (j, xs ! j) # rev (enumerate 0 (take j xs))"
  by (subst id_take_nth_drop [of j xs]) (simp_all add: enumerate_append_eq)

lemma fetch_complete:
  assumes "nodes_known D g" and run: "sch_run s = drop k (g_schedule g)"
    and not_done: "\<forall>j < length (g_schedule g). k \<le> j \<longrightarrow> \<not> batch_done D (g_resources g) db (g_schedule g ! j)"
    and "n \<in> set (concat (sch_run s))" and "node_cid D n c" and "no_receipt db c"
    and "im_get (g_resources g) c = Some l" and "r \<in> set l"
  shows "r \<in> fetch_request D g db"
proof -
  from assms(4) run obtain j where j: "k \<le> j" "j < length (g_schedule g)" "n \<in> set (g_schedule g ! j)"
    by (auto simp: in_set_conv_nth [of _ "drop k (g_schedule g)"]) (metis add.commute le_add1 less_diff_conv)
  have "\<forall>m \<in> set (g_schedule g ! j). \<exists>c. node_cid D m c \<and> im_get (g_resources g) c \<noteq> None"
    using assms(1) j(2) by (auto simp: nodes_known_def)
  from fold_pointers_known [OF this, of "[]" "[]"] obtain ps where
    ps: "fst (fold_pointers D (g_resources g) (g_schedule g ! j) [] []) = Ok ps" "Pointer c \<in> set ps"
    using j(3) assms(5) by auto
  have "\<not> batch_done D (g_resources g) db (snd b)"
    if "b \<in> set (rev (enumerate (j + 1) (drop (j + 1) (g_schedule g))) @ [(j, g_schedule g ! j)])" for b
  proof -
    from that j have "j \<le> fst b" "fst b < length (g_schedule g)" "snd b = g_schedule g ! fst b"
      by (auto simp: in_set_enumerate_eq)
    with not_done j(1) show ?thesis by auto
  qed
  from visited_fetched [OF _ ps assms(7,8,6)] this
  have "(c, r) \<in> set (snd (resume_loop D (g_resources g) db (rev (enumerate 0 (g_schedule g))) []))"
    unfolding rev_enumerate_split [OF j(2)] by blast
  then show ?thesis by (force simp: fetch_request_def)
qed

text \<open>The names of the nodes of a graph are those of the instructions, and every instruction has an entry.\<close>

lemma graph_nodes_known:
  assumes "graph D W S flow = Ok g" and "schedule_ok S" and "cid_text_ok D"
  shows "nodes_known D g"
  unfolding nodes_known_def
proof
  fix n
  assume n: "n \<in> set (concat (g_schedule g))"
  from assms(1) obtain ctx where ctx: "aot D W flow = Ok ctx" "S (aot_dag ctx) = Ok (g_schedule g)"
    "g_resources g = aot_resources ctx" by (auto simp: graph_eq_Ok)
  from aot_items [OF ctx(1)] obtain its where
    its: "mset (aot_dag ctx) = mset (map (final_node D (concat (map it_reads its))) its)"
      "aot_resources ctx = fold add_resources its []" by metis
  have "n \<in> set (map (final_node D (concat (map it_reads its))) its)"
    using n unfolding mset_eq_setD [OF schedule_okD(1) [OF assms(2) ctx(2)]] mset_eq_setD [OF its(1)] .
  then obtain it where it: "it \<in> set its" "n = final_node D (concat (map it_reads its)) it" by auto
  have "node_cid D n (it_cid it)"
    using assms(3) by (simp add: it(2) node_cid_def final_node_def item_node_def node_new_def cid_text_ok_def)
  moreover have "im_get (g_resources g) (it_cid it) \<noteq> None"
    using fold_resources_links [OF it(1), of "[]"] by (auto simp: ctx(3) its(2))
  ultimately show "\<exists>c. node_cid D n c \<and> im_get (g_resources g) c \<noteq> None" by blast
qed

section \<open>What is not fetched\<close>

text \<open>The pairs that are left for an instruction with a receipt, when it had one.\<close>

abbreviation pairs_of :: "cid \<Rightarrow> to_fetch \<Rightarrow> to_fetch" where
  "pairs_of c rtf \<equiv> filter (\<lambda>p. fst p = c) rtf"

lemma drop_one_pairs:
  "length (pairs_of c (drop_one d rtf)) \<le> length (pairs_of c rtf) - (if c = d then 1 else 0)"
proof (cases "position (\<lambda>p. fst p = d) rtf")
  case None
  then have "pairs_of d rtf = []" using position_None [of "\<lambda>p. fst p = d" rtf] by (simp add: filter_empty_conv)
  with None show ?thesis by (simp add: drop_one_def)
next
  case (Some i)
  then have i: "i < length rtf" "fst (rtf ! i) = d" using position_Some [OF Some] by auto
  let ?of = "filter_mset (\<lambda>p. fst p = c)"
  have "mset (pairs_of c (drop_one d rtf)) = ?of (mset rtf) - ?of {#rtf ! i#}"
    using Some mset_swap_remove [OF i(1)] by (simp add: drop_one_def mset_filter)
  moreover have "size (?of (mset rtf) - ?of {#rtf ! i#}) \<le> size (?of (mset rtf)) - (if c = d then 1 else 0)"
  proof (cases "c = d")
    case True
    with i have "rtf ! i \<in># ?of (mset rtf)" by simp
    with True i(2) show ?thesis by (simp add: size_Diff_singleton)
  qed (use i(2) in simp)
  ultimately show ?thesis by (metis mset_filter size_mset)
qed

lemma fold_drop_pairs:
  "length (pairs_of c (fold (\<lambda>x. drop_one (ptr_cid (r_instruction x))) rs rtf)) \<le> length (pairs_of c rtf)"
proof (induction rs arbitrary: rtf)
  case (Cons x rs)
  show ?case
    using Cons [of "drop_one (ptr_cid (r_instruction x)) rtf"] drop_one_pairs [of c "ptr_cid (r_instruction x)" rtf]
    by simp
qed simp

lemma fold_drop_receipt:
  assumes "length (pairs_of c rtf) \<le> 1" and "\<exists>x \<in> set rs. ptr_cid (r_instruction x) = c"
  shows "(c, r) \<notin> set (fold (\<lambda>x. drop_one (ptr_cid (r_instruction x))) rs rtf)"
proof -
  let ?drop = "\<lambda>x. drop_one (ptr_cid (r_instruction x))"
  from assms(2) obtain as x bs where rs: "rs = as @ x # bs" "ptr_cid (r_instruction x) = c"
    by (metis split_list)
  have "length (pairs_of c (?drop x (fold ?drop as rtf))) \<le> 0"
    using drop_one_pairs [of c c "fold ?drop as rtf"] fold_drop_pairs [of c as rtf] assms(1) rs(2) by simp
  then have "pairs_of c (fold ?drop rs rtf) = []"
    using fold_drop_pairs [of c bs "?drop x (fold ?drop as rtf)"] by (simp add: rs(1))
  then show ?thesis by (fastforce simp: filter_empty_conv)
qed

lemma pairs_of_entries:
  "distinct cs \<Longrightarrow> c \<in> set cs \<Longrightarrow> pairs_of c (concat (map (\<lambda>c. map (Pair c) (f c)) cs)) = map (Pair c) (f c)"
proof (induction cs)
  case (Cons d cs)
  have none: "pairs_of c (concat (map (\<lambda>c. map (Pair c) (f c)) cs)) = []" if "c \<notin> set cs"
    using that by (auto simp: filter_empty_conv)
  show ?case
    using Cons none by (cases "c = d") (auto simp: filter_map comp_def)
qed simp

text \<open>
  A resource \<open>u\<close> that only instructions with a receipt need, each of them nothing else, is not fetched
  when the instructions of the schedule are distinct.
\<close>

definition only_done :: "indexed_resources \<Rightarrow> database \<Rightarrow> resource \<Rightarrow> bool" where
  "only_done rs db u \<longleftrightarrow>
     (\<forall>c l. im_get rs c = Some l \<and> u \<in> set l \<longrightarrow> l = [u] \<and> \<not> no_receipt db c)"

lemma visited_dropped:
  assumes "only_done rs db u" and "fold_pointers D rs vec rtf [] = (Ok ps, rtf1)"
    and "u \<notin> snd ` set rtf" and "distinct (map (\<lambda>n. cid_from_str D (n_name n)) vec)"
    and "\<And>n c. n \<in> set vec \<Longrightarrow> node_cid D n c \<Longrightarrow> c \<notin> fst ` set rtf"
    and "rtf2 = fold (\<lambda>r. drop_one (ptr_cid (r_instruction r))) (filter (\<lambda>r. r_instruction r \<in> set ps) (t_receipts db)) rtf1"
  shows "u \<notin> snd ` set rtf2 \<and> (\<forall>c \<in> fst ` set rtf2. c \<in> fst ` set rtf \<or> (\<exists>n \<in> set vec. node_cid D n c))"
proof -
  from assms(2) obtain cs where cs: "list_all2 (node_cid D) vec cs" "ps = map Pointer cs"
    "rtf1 = rtf @ concat (map (\<lambda>c. map (Pair c) (the (im_get rs c))) cs)" "\<forall>c \<in> set cs. im_get rs c \<noteq> None"
    by (rule fold_pointers_Ok) simp
  have "map (\<lambda>n. cid_from_str D (n_name n)) vec = map Ok cs"
    using cs(1) by (induction rule: list_all2_induct) (simp_all add: node_cid_def)
  then have "distinct (map (Ok :: cid \<Rightarrow> string + cid) cs)" using assms(4) by simp
  then have dist: "distinct cs" by (rule distinct_map [THEN iffD1, THEN conjunct1])
  have of_vec: "\<exists>n \<in> set vec. node_cid D n c" if "c \<in> set cs" for c
    using cs(1) that by (induction rule: list_all2_induct) auto
  have sub: "set rtf2 \<subseteq> set rtf1" unfolding assms(6) by (rule fold_drop_subset)
  have "(c, u) \<notin> set rtf2" for c
  proof
    assume mem: "(c, u) \<in> set rtf2"
    have "(c, u) \<notin> set rtf" using assms(3) by force
    with mem sub have "(c, u) \<in> set (concat (map (\<lambda>c. map (Pair c) (the (im_get rs c))) cs))"
      unfolding cs(3) by auto
    then have c: "c \<in> set cs" "u \<in> set (the (im_get rs c))" by auto
    with cs(4) assms(1) have l: "the (im_get rs c) = [u]" "\<not> no_receipt db c"
      by (auto simp: only_done_def)
    have "c \<notin> fst ` set rtf" using of_vec [OF c(1)] assms(5) by blast
    then have "pairs_of c rtf = []" by (auto simp: filter_empty_conv)
    then have "length (pairs_of c rtf1) \<le> 1" using pairs_of_entries [OF dist c(1)] l(1) by (simp add: cs(3))
    moreover have "\<exists>x \<in> set (filter (\<lambda>r. r_instruction r \<in> set ps) (t_receipts db)). ptr_cid (r_instruction x) = c"
      using l(2) c(1) cs(2) by (auto simp: no_receipt_def)
    ultimately show False using fold_drop_receipt mem unfolding assms(6) by blast
  qed
  moreover have "c \<in> fst ` set rtf \<or> (\<exists>n \<in> set vec. node_cid D n c)" if "c \<in> fst ` set rtf2" for c
  proof -
    from that obtain r where "(c, r) \<in> set rtf2" by auto
    with sub have "(c, r) \<in> set rtf1" by (rule subsetD)
    then have "(c, r) \<in> set rtf \<or> c \<in> set cs" unfolding cs(3) by auto
    then show ?thesis using of_vec by force
  qed
  ultimately show ?thesis by auto
qed

lemma resume_dropped:
  assumes "only_done rs db u" and "\<forall>n \<in> set (concat (map snd bs)). \<exists>c. node_cid D n c \<and> im_get rs c \<noteq> None"
    and "distinct (map (\<lambda>n. cid_from_str D (n_name n)) (concat (map snd bs)))"
    and "u \<notin> snd ` set rtf"
    and "\<And>n c. n \<in> set (concat (map snd bs)) \<Longrightarrow> node_cid D n c \<Longrightarrow> c \<notin> fst ` set rtf"
  shows "u \<notin> snd ` set (snd (resume_loop D rs db bs rtf))"
  using assms(2-)
proof (induction bs arbitrary: rtf)
  case (Cons b bs)
  obtain idx vec where b: "b = (idx, vec)" by fastforce
  have "\<forall>n \<in> set vec. \<exists>c. node_cid D n c \<and> im_get rs c \<noteq> None"
    using Cons.prems(1) by (simp add: b)
  from fold_pointers_known [OF this, of rtf "[]"] obtain ps rtf1
    where f: "fold_pointers D rs vec rtf [] = (Ok ps, rtf1)"
    by (cases "fold_pointers D rs vec rtf []") auto
  define rtf2 where "rtf2 = fold (\<lambda>r. drop_one (ptr_cid (r_instruction r)))
    (filter (\<lambda>r. r_instruction r \<in> set ps) (t_receipts db)) rtf1"
  have v: "u \<notin> snd ` set rtf2" "\<forall>c \<in> fst ` set rtf2. c \<in> fst ` set rtf \<or> (\<exists>n \<in> set vec. node_cid D n c)"
    using visited_dropped [OF assms(1) f Cons.prems(3) _ _ rtf2_def] Cons.prems(2,4) by (auto simp: b)
  have "c \<notin> fst ` set rtf2" if n: "n \<in> set (concat (map snd bs))" "node_cid D n c" for n c
  proof
    assume "c \<in> fst ` set rtf2"
    with v(2) Cons.prems(4) [of n c] n obtain m where "m \<in> set vec" "node_cid D m c" by (auto simp: b)
    then have "Ok c \<in> (\<lambda>n. cid_from_str D (n_name n)) ` set vec \<inter> (\<lambda>n. cid_from_str D (n_name n)) ` set (concat (map snd bs))"
      using n by (force simp: node_cid_def)
    with Cons.prems(2) show False by (auto simp: b)
  qed
  then have "u \<notin> snd ` set (snd (resume_loop D rs db bs rtf2))"
    using Cons.prems(1,2) v(1) by (intro Cons.IH) auto
  with f v(1) show ?case
    by (simp add: b find_instruction_pointers_def Let_def rtf2_def)
qed simp

lemma not_requested:
  assumes "only_done (g_resources g) db u" and "nodes_known D g"
    and "distinct (map (\<lambda>n. cid_from_str D (n_name n)) (concat (g_schedule g)))"
  shows "u \<notin> fetch_request D g db"
proof -
  let ?name = "\<lambda>n. cid_from_str D (n_name n)"
  have b: "map snd (rev (enumerate 0 (g_schedule g))) = rev (g_schedule g)" by (simp add: rev_map [symmetric])
  have "mset (concat (rev xs)) = mset (concat xs)" for xs :: schedule
    by (induction xs) (simp_all add: add.commute)
  then have "mset (map ?name (concat (rev (g_schedule g)))) = mset (map ?name (concat (g_schedule g)))"
    by (simp only: mset_map)
  then have "distinct (map ?name (concat (rev (g_schedule g))))"
    using assms(3) mset_eq_imp_distinct_iff by blast
  then have "u \<notin> snd ` set (snd (resume_loop D (g_resources g) db (rev (enumerate 0 (g_schedule g))) []))"
    using assms(1,2) by (intro resume_dropped) (simp_all add: b nodes_known_def)
  then show ?thesis by (simp add: fetch_request_def)
qed

end
