(* ===== verification/Events.thy ===== *)
theory Events
  imports Scheduler
begin

text \<open>
  The events the worker, the runner and the network exchange with the event handler
  (\<open>event_handler/event.rs\<close>, \<open>event_handler/swarm_event.rs\<close>), and the notifications sent to
  websocket clients (\<open>event_handler/notification.rs\<close>, \<open>notification/swarm.rs\<close>,
  \<open>notification/receipt.rs\<close>, \<open>network/webserver/notifier.rs\<close>). A channel sender is the number
  of its channel. Third-party text forms and the clock are fields of the record \<open>net_deps\<close>.
\<close>

section \<open>Third-party code\<close>

type_synonym sender = nat

text \<open>Why nothing is received on a channel.\<close>

datatype recv_error = RecvTimeout | RecvDisconnected

record net_deps =
  peer_to_string :: "peer_id \<Rightarrow> string"
  show_anyhow :: "anyhow \<Rightarrow> string"
  show_recv :: "recv_error \<Rightarrow> string"
  ipld_get :: "ipld \<Rightarrow> string \<Rightarrow> ipld option"
  from_ipld_i64 :: "ipld \<Rightarrow> string + int"
  timestamp_millis :: int

text \<open>\<open>Ipld::get\<close> looks a key up in a map, and \<open>from_ipld\<close> reads the integers of 64 bits.\<close>

definition net_ok :: "net_deps \<Rightarrow> bool" where
  "net_ok N \<longleftrightarrow>
     (\<forall>m k. ipld_get N (IMap m) k = bt_get m k) \<and>
     (\<forall>x n. from_ipld_i64 N x = Ok n \<longleftrightarrow> x = IInteger n \<and> - (2 ^ 63) \<le> n \<and> n < 2 ^ 63) \<and>
     - (2 ^ 63) \<le> timestamp_millis N \<and> timestamp_millis N < 2 ^ 63"

section \<open>Notification types\<close>

datatype swarm_notification =
    ConnnectionEstablished | ConnnectionClosed | ListeningOn
  | OutgoingConnectionError | IncomingConnectionError
  | PublishedReceiptPubsub | ReceivedReceiptPubsub
  | GotReceiptDht | PutReceiptDht | GotWorkflowInfoDht | PutWorkflowInfoDht
  | ReceiptQuorumSuccess | ReceiptQuorumFailure
  | WorkflowInfoQuorumSuccess | WorkflowInfoQuorumFailure
  | SentWorkflowInfo | ReceivedWorkflowInfo

fun swarm_notification_fmt :: "swarm_notification \<Rightarrow> string" where
  "swarm_notification_fmt ConnnectionEstablished = ''connectionEstablished''"
| "swarm_notification_fmt ConnnectionClosed = ''connectionClosed''"
| "swarm_notification_fmt ListeningOn = ''listeningOn''"
| "swarm_notification_fmt OutgoingConnectionError = ''outgoingConnectionError''"
| "swarm_notification_fmt IncomingConnectionError = ''incomingConnectionError''"
| "swarm_notification_fmt ReceivedReceiptPubsub = ''receivedReceiptPubsub''"
| "swarm_notification_fmt PublishedReceiptPubsub = ''publishedReceiptPubsub''"
| "swarm_notification_fmt PutReceiptDht = ''putReceiptDht''"
| "swarm_notification_fmt GotReceiptDht = ''gotReceiptDht''"
| "swarm_notification_fmt PutWorkflowInfoDht = ''putWorkflowInfoDht''"
| "swarm_notification_fmt GotWorkflowInfoDht = ''gotWorkflowInfoDht''"
| "swarm_notification_fmt ReceiptQuorumSuccess = ''receiptQuorumSuccess''"
| "swarm_notification_fmt ReceiptQuorumFailure = ''receiptQuorumFailure''"
| "swarm_notification_fmt WorkflowInfoQuorumSuccess = ''workflowInfoQuorumSuccess''"
| "swarm_notification_fmt WorkflowInfoQuorumFailure = ''workflowInfoQuorumFailure''"
| "swarm_notification_fmt SentWorkflowInfo = ''sentWorkflowInfo''"
| "swarm_notification_fmt ReceivedWorkflowInfo = ''receivedWorkflowInfo''"

definition swarm_notification_from_str :: "string \<Rightarrow> anyhow + swarm_notification" where
  "swarm_notification_from_str ty =
     (if ty = ''connectionEstablished'' then Ok ConnnectionEstablished
      else if ty = ''connectionClosed'' then Ok ConnnectionClosed
      else if ty = ''listeningOn'' then Ok ListeningOn
      else if ty = ''outgoingConnectionError'' then Ok OutgoingConnectionError
      else if ty = ''incomingConnectionError'' then Ok IncomingConnectionError
      else if ty = ''receivedReceiptPubsub'' then Ok ReceivedReceiptPubsub
      else if ty = ''publishedReceiptPubsub'' then Ok PublishedReceiptPubsub
      else if ty = ''putReciptDht'' then Ok PutReceiptDht
      else if ty = ''gotReceiptDht'' then Ok GotReceiptDht
      else if ty = ''putWorkflowInfoDht'' then Ok PutWorkflowInfoDht
      else if ty = ''gotWorkflowInfoDht'' then Ok GotWorkflowInfoDht
      else if ty = ''receiptQuorumSuccess'' then Ok ReceiptQuorumSuccess
      else if ty = ''receiptQuorumFailure'' then Ok ReceiptQuorumFailure
      else if ty = ''workflowInfoQuorumSuccess'' then Ok WorkflowInfoQuorumSuccess
      else if ty = ''workflowInfoQuorumFailure'' then Ok WorkflowInfoQuorumFailure
      else if ty = ''sentWorkflowInfo'' then Ok SentWorkflowInfo
      else if ty = ''receivedWorkflowInfo'' then Ok ReceivedWorkflowInfo
      else Err (Msg (''Missing swarm notification type: '' @ ty)))"

datatype event_notification_typ = SwarmNotification swarm_notification

fun workflow_info_source_label :: "event_notification_typ \<Rightarrow> string option" where
  "workflow_info_source_label (SwarmNotification ReceivedWorkflowInfo) = Some ''provider''"
| "workflow_info_source_label (SwarmNotification GotWorkflowInfoDht) = Some ''publisher''"
| "workflow_info_source_label _ = None"

fun typ_into :: "event_notification_typ \<Rightarrow> ipld" where
  "typ_into (SwarmNotification subtype) = IString (''network:'' @ swarm_notification_fmt subtype)"

text \<open>\<open>str::split_once\<close> at the first occurrence of a character.\<close>

definition split_once :: "char \<Rightarrow> string \<Rightarrow> (string \<times> string) option" where
  "split_once c s =
     (let a = takeWhile (\<lambda>x. x \<noteq> c) s in
      if length a < length s then Some (a, drop (length a + 1) s) else None)"

definition typ_try_from :: "deps \<Rightarrow> ipld \<Rightarrow> anyhow + event_notification_typ" where
  "typ_try_from D x =
     and_then (map_err Msg (from_ipld_string D x)) (\<lambda>s.
     case split_once CHR '':'' s of
       Some (ty, subtype) \<Rightarrow>
         if ty = ''network''
         then and_then (swarm_notification_from_str subtype) (\<lambda>n. Ok (SwarmNotification n))
         else Err (Msg (''Missing event notification type: '' @ ty))
     | None \<Rightarrow>
         Err (Msg ''Event notification type missing colon delimiter between type and subtype.''))"

record event_notification =
  en_typ :: event_notification_typ
  en_data :: ipld
  en_timestamp :: int

definition event_notification_new ::
  "net_deps \<Rightarrow> event_notification_typ \<Rightarrow> (string, ipld) btree_map \<Rightarrow> event_notification" where
  "event_notification_new N typ data =
     \<lparr>en_typ = typ, en_data = IMap (bt_from data), en_timestamp = timestamp_millis N\<rparr>"

definition event_notification_into :: "event_notification \<Rightarrow> ipld" where
  "event_notification_into n =
     IMap (bt_from
       [(''type'', typ_into (en_typ n)), (''data'', en_data n),
        (''timestamp'', IInteger (en_timestamp n))])"

definition event_notification_try_from ::
  "deps \<Rightarrow> net_deps \<Rightarrow> ipld \<Rightarrow> anyhow + event_notification" where
  "event_notification_try_from D N x =
     and_then (map_err Msg (from_ipld_map D x)) (\<lambda>m.
     and_then (get_or_missing m ''type'') (\<lambda>t_ipld.
     and_then (typ_try_from D t_ipld) (\<lambda>typ.
     and_then (get_or_missing m ''data'') (\<lambda>data.
     and_then (get_or_missing m ''timestamp'') (\<lambda>ts_ipld.
     and_then (map_err Msg (from_ipld_i64 N ts_ipld)) (\<lambda>ts.
     Ok \<lparr>en_typ = typ, en_data = data, en_timestamp = ts\<rparr>))))))"

text \<open>\<open>ReceiptNotification::with\<close>; the \<open>ipld!\<close> macro builds a map.\<close>

definition receipt_notification_with ::
  "deps \<Rightarrow> invocation_receipt \<Rightarrow> cid \<Rightarrow> ipld option \<Rightarrow> ipld" where
  "receipt_notification_with D r c metadata =
     IMap (bt_from
       [(''receipt'', receipt_into D r), (''metadata'', unwrap_or metadata INull),
        (''receipt_cid'', ILink c)])"

section \<open>Messages to websocket clients\<close>

datatype subscription_typ = EventSub string | SubCid cid

record ws_header =
  h_subscription :: subscription_typ
  h_ident :: "string option"

record ws_message =
  ws_header :: ws_header
  ws_payload :: bytes

definition SUBSCRIBE_NETWORK_EVENTS_ENDPOINT :: string where
  "SUBSCRIBE_NETWORK_EVENTS_ENDPOINT = ''subscribe_network_events''"

definition REPLAYED_KEY :: string where "REPLAYED_KEY = ''replayed''"
definition WORKFLOW_KEY :: string where "WORKFLOW_KEY = ''workflow''"
definition WORKFLOW_NAME_KEY :: string where "WORKFLOW_NAME_KEY = ''name''"

text \<open>The messages \<open>emit_receipt\<close> and \<open>emit_event\<close> broadcast, none when nothing is sent.\<close>

definition emit_receipt ::
  "deps \<Rightarrow> net_deps \<Rightarrow> rt_receipt \<Rightarrow> ipld option \<Rightarrow> ws_message list" where
  "emit_receipt D N r metadata =
     (let notification = receipt_notification_with D (to_invocation_receipt r) (ptr_cid (r_cid r)) metadata in
      case to_json D id notification of
        Err _ \<Rightarrow> []
      | Ok json \<Rightarrow>
          (case metadata of
             None \<Rightarrow> []
           | Some x \<Rightarrow>
               (case (ipld_get N x WORKFLOW_KEY, ipld_get N x WORKFLOW_NAME_KEY) of
                  (Some (ILink c), Some (IString name)) \<Rightarrow>
                    [\<lparr>ws_header = \<lparr>h_subscription = SubCid c, h_ident = Some name\<rparr>, ws_payload = json\<rparr>]
                | (Some (ILink c), None) \<Rightarrow>
                    [\<lparr>ws_header = \<lparr>h_subscription = SubCid c, h_ident = None\<rparr>, ws_payload = json\<rparr>]
                | _ \<Rightarrow> [])))"

definition emit_event ::
  "deps \<Rightarrow> net_deps \<Rightarrow> event_notification_typ \<Rightarrow> (string, ipld) btree_map \<Rightarrow> ws_message list" where
  "emit_event D N ty data =
     (let header = \<lparr>h_subscription = EventSub SUBSCRIBE_NETWORK_EVENTS_ENDPOINT, h_ident = None\<rparr>;
          notification = event_notification_new N ty data in
      case to_json D event_notification_into notification of
        Ok json \<Rightarrow> [\<lparr>ws_header = header, ws_payload = json\<rparr>]
      | Err _ \<Rightarrow> [])"

section \<open>Events\<close>

datatype found_event =
    FoundReceipt "peer_id option" rt_receipt event_notification_typ
  | FoundWorkflow "peer_id option" info event_notification_typ

datatype response_event =
    Found "anyhow + found_event"
  | RespProviders "anyhow + peer_id list"

record captured =
  cap_receipt :: cid
  cap_workflow :: info
  cap_metadata :: "ipld option"

record replay =
  rep_pointers :: "pointer list"
  rep_metadata :: "ipld option"

record query_record =
  q_cid :: cid
  q_capsule :: capsule_tag
  q_sender :: "sender option"

record peer_request =
  pr_peer :: peer_id
  pr_request :: request_response_key
  pr_sender :: sender

datatype event =
    CapturedReceipt captured
  | ReplayReceipts replay
  | Shutdown sender
  | FindRecord query_record
  | RemoveRecord query_record
  | StoredRecord found_event
  | OutboundRequest peer_request
  | GetProviders query_record
  | ProvideRecord cid "sender option" capsule_tag
  | Providers "anyhow + (peer_id list \<times> request_response_key \<times> sender)"
  | RegisterPeer peer_id
  | DiscoverPeers peer_id
  | GetNodeInfo sender

section \<open>Lemmas\<close>

text \<open>
  Reading a notification's name back fails for one type, whose name is misspelt in
  \<open>from_str\<close>; all the others are read back.
\<close>

lemma swarm_notification_roundtrip:
  "swarm_notification_from_str (swarm_notification_fmt n) = Ok n \<longleftrightarrow> n \<noteq> PutReceiptDht"
  by (cases n) (simp_all add: swarm_notification_from_str_def)

lemma split_once_network: "split_once CHR '':'' (''network:'' @ s) = Some (''network'', s)"
  by (simp add: split_once_def Let_def)

lemma typ_roundtrip:
  assumes "serde_ok D" and "ty \<noteq> SwarmNotification PutReceiptDht"
  shows "typ_try_from D (typ_into ty) = Ok ty"
proof (cases ty)
  case (SwarmNotification n)
  with assms(2) have "swarm_notification_from_str (swarm_notification_fmt n) = Ok n"
    by (simp add: swarm_notification_roundtrip)
  with SwarmNotification show ?thesis
    using serde_ok_simps [OF assms(1)]
    by (simp only: typ_into.simps typ_try_from_def split_once_network map_err.simps and_then.simps
        option.case prod.case if_True simp_thms)
qed

lemma event_notification_into_map:
  "event_notification_into n =
     IMap [(''data'', en_data n), (''timestamp'', IInteger (en_timestamp n)), (''type'', typ_into (en_typ n))]"
  by (simp add: event_notification_into_def bt_from_def)

interpretation event_notification_codec:
  ipld_codec event_notification_into "event_notification_try_from D N"
    "\<lambda>n. serde_ok D \<and> net_ok N \<and> en_typ n \<noteq> SwarmNotification PutReceiptDht \<and>
         - (2 ^ 63) \<le> en_timestamp n \<and> en_timestamp n < 2 ^ 63" for D N
proof
  fix n :: event_notification
  assume v: "serde_ok D \<and> net_ok N \<and> en_typ n \<noteq> SwarmNotification PutReceiptDht \<and>
    - (2 ^ 63) \<le> en_timestamp n \<and> en_timestamp n < 2 ^ 63"
  then have "from_ipld_i64 N (IInteger (en_timestamp n)) = Ok (en_timestamp n)"
    by (simp add: net_ok_def)
  with v show "event_notification_try_from D N (event_notification_into n) = Ok n"
    by (simp add: event_notification_try_from_def event_notification_into_map get_or_missing_def
        serde_ok_simps typ_roundtrip)
qed

end
