(* ===== verification/Worker.thy ===== *)
theory Worker
  imports Events
begin

text \<open>
  The worker (\<open>homestar-runtime/src/worker.rs\<close>, \<open>tasks.rs\<close>) with the initialisation of the
  workflow information (\<open>workflow/info.rs\<close>). \<open>run_queue\<close> is a step relation: the tasks of a
  batch are spawned together, run in any order and are joined in any order; one step runs
  one task, joins one result, or starts the next batch. What a step finds outside the worker, that
  is the network, the database pool and the event channel, is one of the surroundings the run is
  given, another one at every step.

  The link map is shared behind a \<open>tokio\<close> read-write lock: \<open>rwlock\<close> counts the read guards
  that are alive; a write waits as long as there is one, and a read waits as long as a write
  is queued. An operation that waits has no result. The guard taken in the condition of
  \<open>if let .. else ..\<close> lives to the end of the whole expression.
\<close>

section \<open>Locks\<close>

record 'a rwlock =
  lk_value :: 'a
  lk_readers :: nat
  lk_queued :: bool

definition lock_new :: "'a \<Rightarrow> 'a rwlock" where
  "lock_new v = \<lparr>lk_value = v, lk_readers = 0, lk_queued = False\<rparr>"

definition lock_free :: "'a rwlock \<Rightarrow> bool" where
  "lock_free l \<longleftrightarrow> lk_readers l = 0 \<and> \<not> lk_queued l"

definition lock_read :: "'a rwlock \<Rightarrow> 'a rwlock option" where
  "lock_read l = (if lk_queued l then None else Some (l\<lparr>lk_readers := lk_readers l + 1\<rparr>))"

definition drop_guard :: "'a rwlock \<Rightarrow> 'a rwlock" where
  "drop_guard l = l\<lparr>lk_readers := lk_readers l - 1\<rparr>"

definition lock_write :: "('a \<Rightarrow> 'a) \<Rightarrow> 'a rwlock \<Rightarrow> 'a rwlock option" where
  "lock_write f l = (if lock_free l then Some (l\<lparr>lk_value := f (lk_value l)\<rparr>) else None)"

definition lock_queue :: "'a rwlock \<Rightarrow> 'a rwlock" where
  "lock_queue l = l\<lparr>lk_queued := True\<rparr>"

section \<open>Workflow information at the start of a worker\<close>

text \<open>
  \<open>Info::init\<close>. The background task that asks the network for the information only sends
  events and drops what it finds; it is \<open>retrieve_from_dht\<close> and \<open>retrieve_from_provider\<close>,
  given the response.
\<close>

definition info_init ::
  "cid \<Rightarrow> u32 \<Rightarrow> string \<Rightarrow> indexed_resources \<Rightarrow> timestamp \<Rightarrow>
   database \<Rightarrow> (diesel_error + (info \<times> timestamp)) \<times> database" where
  "info_init workflow_cid task_count name rscs now db =
     (case get_workflow_info workflow_cid db of
        Ok (stored_name, i) \<Rightarrow>
          (case stored_name of
             Some n \<Rightarrow>
               if n \<noteq> name
               then (case update_local_name name now db of
                       (Ok _, db') \<Rightarrow> (Ok (i, now), db')
                     | (Err e, db') \<Rightarrow> (Err e, db'))
               else (Ok (i, now), db)
           | None \<Rightarrow> (Ok (i, now), db))
      | Err _ \<Rightarrow>
          (let stored = stored_new (Pointer workflow_cid) (Some name) task_count rscs now in
           case store_workflow stored db of
             (Ok result, db') \<Rightarrow> (Ok (info_default result, now), db')
           | (Err e, db') \<Rightarrow> (Err e, db')))"

definition retrieve_from_dht ::
  "deps \<Rightarrow> net_deps \<Rightarrow> (response_event \<Rightarrow> string) \<Rightarrow> sender \<Rightarrow> cid \<Rightarrow> recv_error + response_event \<Rightarrow>
   (anyhow + info) \<times> event list" where
  "retrieve_from_dht D N show_event tx workflow_cid response =
     (let ev = FindRecord \<lparr>q_cid = workflow_cid, q_capsule = CapsuleWorkflow, q_sender = Some tx\<rparr> in
      case response of
        Ok (Found (Ok (FoundWorkflow p i ty))) \<Rightarrow> (Ok i, [ev, StoredRecord (FoundWorkflow p i ty)])
      | Ok (Found (Err _)) \<Rightarrow>
          (Err (Msg (''failed to find workflow info with cid '' @ cid_to_string D workflow_cid)), [ev])
      | Ok other \<Rightarrow>
          (Err (Msg (''received unexpected event '' @ show_event other @ '' for workflow '' @
             cid_to_string D workflow_cid)), [ev])
      | Err RecvDisconnected \<Rightarrow>
          (Err (Msg (''unexpected error while retrieving workflow info: '' @
             show_recv N RecvDisconnected)), [ev])
      | Err RecvTimeout \<Rightarrow>
          (Err (Msg (''timeout deadline reached while finding workflow info with cid '' @
             cid_to_string D workflow_cid)), [ev]))"

definition retrieve_from_provider ::
  "deps \<Rightarrow> net_deps \<Rightarrow> (response_event \<Rightarrow> string) \<Rightarrow> sender \<Rightarrow> cid \<Rightarrow> recv_error + response_event \<Rightarrow>
   (anyhow + info) \<times> event list" where
  "retrieve_from_provider D N show_event tx workflow_cid response =
     (let ev = GetProviders \<lparr>q_cid = workflow_cid, q_capsule = CapsuleWorkflow, q_sender = Some tx\<rparr> in
      case response of
        Ok (Found (Ok (FoundWorkflow p i ty))) \<Rightarrow> (Ok i, [ev, StoredRecord (FoundWorkflow p i ty)])
      | Ok (Found (Err e)) \<Rightarrow>
          (Err (Msg (''failure in attempting to find event: '' @ show_anyhow N e)), [ev])
      | Ok other \<Rightarrow>
          (Err (Msg (''received unexpected event '' @ show_event other @ '' for workflow '' @
             cid_to_string D workflow_cid)), [ev])
      | Err RecvDisconnected \<Rightarrow>
          (Err (Msg (''unexpected error while retrieving workflow info: '' @
             show_recv N RecvDisconnected)), [ev])
      | Err RecvTimeout \<Rightarrow>
          (Err (Msg (''timeout deadline reached while finding workflow info with cid '' @
             cid_to_string D workflow_cid)), [ev]))"

text \<open>The background task of \<open>Info::init\<close>; its result is dropped.\<close>

definition init_background ::
  "deps \<Rightarrow> net_deps \<Rightarrow> (response_event \<Rightarrow> string) \<Rightarrow> sender \<Rightarrow> sender \<Rightarrow> cid \<Rightarrow> recv_error + response_event \<Rightarrow>
   recv_error + response_event \<Rightarrow> event list" where
  "init_background D N show_event tx tx' workflow_cid dht_response provider_response =
     (case retrieve_from_dht D N show_event tx workflow_cid dht_response of
        (Ok _, evs) \<Rightarrow> evs
      | (Err _, evs) \<Rightarrow> evs @ snd (retrieve_from_provider D N show_event tx' workflow_cid provider_response))"

definition info_retrieve ::
  "deps \<Rightarrow> net_deps \<Rightarrow> (response_event \<Rightarrow> string) \<Rightarrow> sender \<Rightarrow> cid \<Rightarrow> database option \<Rightarrow>
   recv_error + response_event \<Rightarrow> (anyhow + info) \<times> event list" where
  "info_retrieve D N show_event tx workflow_cid conn response =
     (case Option.bind conn (\<lambda>db. ok (get_workflow_info workflow_cid db)) of
        Some (_, i) \<Rightarrow> (Ok i, [])
      | None \<Rightarrow> retrieve_from_provider D N show_event tx workflow_cid response)"

section \<open>Creating a worker\<close>

record worker =
  wk_graph :: execution_graph
  wk_name :: string
  wk_info :: info
  wk_started :: timestamp

definition worker_new ::
  "deps \<Rightarrow> wasm_deps \<Rightarrow> (dag \<Rightarrow> string + node list list) \<Rightarrow> arg workflow \<Rightarrow> string option \<Rightarrow>
   timestamp \<Rightarrow> database \<Rightarrow> (anyhow + worker) \<times> database" where
  "worker_new D W S flow name now db =
     (case map_err FromWorkflow (workflow_to_cid D (arg_into D W) flow) of
        Err e \<Rightarrow> (Err e, db)
      | Ok workflow_cid \<Rightarrow>
          (case graph D W S flow of
             Err e \<Rightarrow> (Err e, db)
           | Ok g \<Rightarrow>
               (let n = unwrap_or name (cid_to_string D workflow_cid) in
                case info_init workflow_cid (workflow_len flow) n (g_resources g) now db of
                  (Err _, db') \<Rightarrow> (Err (Msg ''database error''), db')
                | (Ok (i, t), db') \<Rightarrow>
                    (Ok \<lparr>wk_graph = g, wk_name = n, wk_info = i, wk_started = t\<rparr>, db'))))"

section \<open>Resolving a CID\<close>

text \<open>
  The surroundings of a step: what is received for a query before the deadline, whether the pool
  gives a connection, whether the queries on it are refused (a busy or broken database), and
  whether the event channel has room. A send waits for room, so a step that sends an event
  happens in surroundings with room only.
\<close>

record surroundings =
  su_response :: "cid \<Rightarrow> recv_error + response_event"
  su_conn :: "string + unit"
  su_refused :: "diesel_error option"
  su_room :: bool

definition on_db :: "surroundings \<Rightarrow> diesel_error + 'a \<Rightarrow> diesel_error + 'a" where
  "on_db net res = (case su_refused net of None \<Rightarrow> res | Some e \<Rightarrow> Err e)"

definition commit_on :: "surroundings \<Rightarrow> cid \<Rightarrow> rt_receipt \<Rightarrow> database \<Rightarrow> (diesel_error + rt_receipt) \<times> database" where
  "commit_on net w r db = (case su_refused net of None \<Rightarrow> commit_receipt w r db | Some e \<Rightarrow> (Err e, db))"

datatype resolve_outcome = Resolved "arg instruction_result" | Unresolved resolve_error | Waiting

definition insert_into_map :: "'k \<Rightarrow> 'v \<Rightarrow> ('k, 'v) index_map rwlock \<Rightarrow> ('k, 'v) index_map rwlock option" where
  "insert_into_map key value m = lock_write (im_or_insert key value) m"

text \<open>
  \<open>resolve_cid\<close> in the surroundings \<open>net\<close>. The read guard of the link map is dropped when a branch
  of the conditional ends.
\<close>

definition resolve_cid ::
  "deps \<Rightarrow> net_deps \<Rightarrow> surroundings \<Rightarrow> sender \<Rightarrow> cid \<Rightarrow> fetched \<Rightarrow> cid \<Rightarrow>
   linkmap rwlock \<Rightarrow> database \<Rightarrow> resolve_outcome \<times> linkmap rwlock \<times> database \<times> event list" where
  "resolve_cid D N net tx workflow_cid rscs c lm db =
     (case lock_read lm of
        None \<Rightarrow> (Waiting, lm, db, [])
      | Some guard \<Rightarrow>
      case im_get (lk_value guard) c of
        Some result \<Rightarrow> (Resolved result, drop_guard guard, db, [])
      | None \<Rightarrow>
          (case im_get rscs (RscCid c) of
             Some bytes \<Rightarrow> (Resolved (IrOk (ArgIpld (IBytes bytes))), drop_guard guard, db, [])
           | None \<Rightarrow>
               (case su_conn net of
                  Err e \<Rightarrow> (Unresolved (Runtime e), drop_guard guard, db, [])
                | Ok _ \<Rightarrow>
               (case on_db net (find_instruction_by_cid c db) of
                  Ok found \<Rightarrow> (Resolved (output_as_arg (r_out found)), drop_guard guard, db, [])
                | Err _ \<Rightarrow>
                    (let ev = FindRecord \<lparr>q_cid = c, q_capsule = CapsuleReceipt, q_sender = Some tx\<rparr> in
                     case su_response net c of
                       Ok (Found (Ok (FoundReceipt p found ty))) \<Rightarrow>
                         (let (committed, db') = commit_on net workflow_cid found db;
                              receipt = (case committed of Ok r \<Rightarrow> r | Err _ \<Rightarrow> found);
                              found_result = output_as_arg (r_out receipt) in
                          case insert_into_map c found_result guard of
                            Some guard' \<Rightarrow>
                              (Resolved found_result, drop_guard guard', db',
                               [ev, StoredRecord (FoundReceipt p found ty)])
                          | None \<Rightarrow> (Waiting, lock_queue guard, db', [ev]))
                     | Ok (Found (Err e)) \<Rightarrow>
                         (Unresolved (UnresolvedCid (''failure in attempting to find event: '' @ show_anyhow N e)),
                          drop_guard guard, db, [ev])
                     | Ok _ \<Rightarrow>
                         (Unresolved (UnresolvedCid ''wrong or unexpected event message received''),
                          drop_guard guard, db, [ev])
                     | Err e \<Rightarrow>
                         (Unresolved (UnresolvedCid (''timeout deadline reached for invocation receipt @ '' @
                            cid_to_string D c @ '': '' @ show_recv N e)), drop_guard guard, db, [ev]))))))"

text \<open>The CIDs \<open>Args::resolve\<close> looks up, in order.\<close>

fun link_list :: "ipld \<Rightarrow> cid list" where
  "link_list (ILink c) = [c]"
| "link_list (IList xs) = concat (map link_list xs)"
| "link_list (IMap m) = concat (map (\<lambda>p. link_list (snd p)) m)"
| "link_list _ = []"

definition input_lookups :: "deps \<Rightarrow> 't input \<Rightarrow> cid list" where
  "input_lookups D i =
     (case i of
        InputIpld x \<Rightarrow>
          (case await_try_from D x of Ok a \<Rightarrow> [instruction_cid a] | Err _ \<Rightarrow> link_list x)
      | Arg _ \<Rightarrow> []
      | Deferred a \<Rightarrow> [instruction_cid a])"

definition lookups :: "deps \<Rightarrow> 't args \<Rightarrow> cid list" where
  "lookups D a = concat (map (input_lookups D) (args_inner a))"

type_synonym answers = "(cid, resolve_error + arg instruction_result) index_map"

text \<open>The lookups of a task, one after the other; one that waits holds up the rest.\<close>

fun resolve_many ::
  "deps \<Rightarrow> net_deps \<Rightarrow> surroundings \<Rightarrow> sender \<Rightarrow> cid \<Rightarrow> fetched \<Rightarrow> cid list \<Rightarrow>
   answers \<Rightarrow> linkmap rwlock \<Rightarrow> database \<Rightarrow> answers option \<times> linkmap rwlock \<times> database \<times> event list" where
  "resolve_many D N net tx w rscs [] acc lm db = (Some acc, lm, db, [])"
| "resolve_many D N net tx w rscs (c # cs) acc lm db =
     (case resolve_cid D N net tx w rscs c lm db of
        (Waiting, lm', db', evs) \<Rightarrow> (None, lm', db', evs)
      | (Resolved r, lm', db', evs) \<Rightarrow>
          (case resolve_many D N net tx w rscs cs (im_insert c (Ok r) acc) lm' db' of
             (res, lm'', db'', evs') \<Rightarrow> (res, lm'', db'', evs @ evs'))
      | (Unresolved e, lm', db', evs) \<Rightarrow>
          (case resolve_many D N net tx w rscs cs (im_insert c (Err e) acc) lm' db' of
             (res, lm'', db'', evs') \<Rightarrow> (res, lm'', db'', evs @ evs')))"

definition answer :: "answers \<Rightarrow> cid \<Rightarrow> resolve_error + arg instruction_result" where
  "answer acc c = (case im_get acc c of Some r \<Rightarrow> r | None \<Rightarrow> Err (Runtime ''no answer''))"

section \<open>Tasks of a batch\<close>

definition WASM_OP :: string where "WASM_OP = ''wasm/run''"

datatype registered_tasks = WasmRun

definition registered_ability :: "string \<Rightarrow> registered_tasks option" where
  "registered_ability s = (if s = WASM_OP then Some WasmRun else None)"

record wtask =
  t_wasm :: bytes
  t_fun :: string
  t_args :: "arg args"
  t_instruction :: pointer
  t_invocation :: pointer
  t_receipt_meta :: ipld
  t_add_meta :: ipld
  t_store :: wasm_store

definition additional_meta :: "bool \<Rightarrow> info \<Rightarrow> string \<Rightarrow> ipld" where
  "additional_meta replayed i name =
     IMap (bt_from
       [(REPLAYED_KEY, IBool replayed), (WORKFLOW_KEY, ILink (i_cid i)), (WORKFLOW_NAME_KEY, IString name)])"

text \<open>
  What is done for a node before its task is spawned, with the Wasm context of the task made on the
  default state; a node of another operation is skipped. The context has no instance yet.
\<close>

definition prepare_task ::
  "deps \<Rightarrow> wasm_deps \<Rightarrow> engine_host \<Rightarrow> info \<Rightarrow> string \<Rightarrow> fetched \<Rightarrow> node \<Rightarrow> anyhow + wtask option" where
  "prepare_task D W G i name rscs n =
     (let vertice = n_vertex n; instruction = v_instruction vertice; parsed = v_parsed vertice in
      and_then (ok_or (parsed_fun parsed) (Msg ''no function defined'')) (\<lambda>f.
      case registered_ability (ability_str (op instruction)) of
        Some WasmRun \<Rightarrow>
          and_then (ok_or (im_get rscs (RscUrl (rsc instruction))) (Msg ''resource not available'')) (\<lambda>wasm.
          and_then (map_err FromWorkflow (instruction_pointer D (arg_into D W) instruction)) (\<lambda>ptr.
          and_then (map_err FromWasm (wasm_context_new G (state_default 0) :: wasm_failure + unit env)) (\<lambda>wasm_ctx.
          Ok (Some \<lparr>t_wasm = wasm, t_fun = f, t_args = parsed_args parsed, t_instruction = ptr,
                   t_invocation = v_invocation vertice,
                   t_receipt_meta = IMap (bt_from [(OP_KEY, IString f)]),
                   t_add_meta = additional_meta False i name, t_store = env_store wasm_ctx\<rparr>))))
      | None \<Rightarrow> Ok None))"

fun prepare_batch ::
  "deps \<Rightarrow> wasm_deps \<Rightarrow> engine_host \<Rightarrow> info \<Rightarrow> string \<Rightarrow> fetched \<Rightarrow> node list \<Rightarrow> anyhow + wtask list" where
  "prepare_batch D W G i name rscs [] = Ok []"
| "prepare_batch D W G i name rscs (n # ns) =
     and_then (prepare_task D W G i name rscs n) (\<lambda>t.
     and_then (prepare_batch D W G i name rscs ns) (\<lambda>ts.
     Ok (case t of Some t' \<Rightarrow> t' # ts | None \<Rightarrow> ts)))"

text \<open>
  The spawned future: resolve the arguments, then run the function. There is no result when a lookup
  waits for the lock for ever, or when the function does not return.
\<close>

datatype task_result = TaskDone wasm_output | TaskFailed

definition run_task ::
  "deps \<Rightarrow> wasm_deps \<Rightarrow> net_deps \<Rightarrow> ('c, 'i) wasm_host \<Rightarrow> surroundings \<Rightarrow> sender \<Rightarrow>
   cid \<Rightarrow> fetched \<Rightarrow> wtask \<Rightarrow> linkmap rwlock \<Rightarrow> database \<Rightarrow>
   task_result option \<times> linkmap rwlock \<times> database \<times> event list" where
  "run_task D W N H net tx workflow_cid rscs t lm db =
     (case resolve_many D N net tx workflow_cid rscs (lookups D (t_args t)) [] lm db of
        (None, lm', db', evs) \<Rightarrow> (None, lm', db', evs)
      | (Some acc, lm', db', evs) \<Rightarrow>
          (case args_resolve D (arg_into D W) (answer acc) (t_args t) of
             Err _ \<Rightarrow> (Some TaskFailed, lm', db', evs)
           | Ok resolved \<Rightarrow>
               if guest_returns D W H (env_new (t_store t)) (t_wasm t) (t_fun t) resolved
               then
                 (case wasm_run D W H (env_new (t_store t)) (t_wasm t) (t_fun t) resolved of
                    Ok outp \<Rightarrow> (Some (TaskDone outp), lm', db', evs)
                  | Err _ \<Rightarrow> (Some TaskFailed, lm', db', evs))
               else (None, lm', db', evs)))"

section \<open>Joining a result\<close>

text \<open>\<open>InvocationReceipt::new\<close> and \<open>Receipt::try_with\<close> for the output of a task.\<close>

definition task_receipt ::
  "deps \<Rightarrow> wasm_deps \<Rightarrow> wtask \<Rightarrow> wasm_output \<Rightarrow> anyhow + rt_receipt" where
  "task_receipt D W t executed =
     and_then (map_err (\<lambda>e. FromWasm (WError (WInterpreter e))) (output_into_ipld D W executed)) (\<lambda>x.
     try_with D (t_instruction t)
       \<lparr>ran = t_invocation t, out = IrOk x, meta = t_receipt_meta t, issuer = None, proof_links = UcanPrf []\<rparr>)"

definition bump_progress :: "nat option \<Rightarrow> info \<Rightarrow> info" where
  "bump_progress resume_step i =
     (case resume_step of
        Some step \<Rightarrow> set_progress_count (max (i_progress_count i) (word_of_nat step)) i
      | None \<Rightarrow> i)"

text \<open>The state of \<open>run_queue\<close> and the task sets it shares with the runner.\<close>

datatype phase = Running | Returned "anyhow + unit"

record worker_state =
  ws_batches :: schedule
  ws_spawned :: "wtask list"
  ws_finished :: "(wtask \<times> task_result) list"
  ws_waiting :: nat
  ws_linkmap :: "linkmap rwlock"
  ws_db :: database
  ws_info :: info
  ws_events :: "event list"
  ws_running :: "(cid, nat list) index_map"
  ws_handles :: nat
  ws_phase :: phase

text \<open>\<open>RunningTaskSet::append_or_insert\<close>; an abort handle is the number of its task.\<close>

definition append_or_insert :: "cid \<Rightarrow> nat list \<Rightarrow> (cid, nat list) index_map \<Rightarrow> (cid, nat list) index_map" where
  "append_or_insert c handles m = im_modify_or_insert c (\<lambda>prev. prev @ handles) handles m"

text \<open>What stays the same during a run, and the surroundings that can be met.\<close>

record ('c, 'i) worker_env =
  we_deps :: deps
  we_wasm :: wasm_deps
  we_net :: net_deps
  we_host :: "('c, 'i) wasm_host"
  we_engine :: engine_host
  we_around :: "surroundings set"
  we_sender :: sender
  we_name :: string
  we_resources :: fetched
  we_resume_step :: "nat option"

definition join_task ::
  "('c, 'i) worker_env \<Rightarrow> surroundings \<Rightarrow> wtask \<Rightarrow> wasm_output \<Rightarrow> worker_state \<Rightarrow>
   (anyhow + worker_state) option" where
  "join_task E net t executed s =
     (case task_receipt (we_deps E) (we_wasm E) t executed of
        Err e \<Rightarrow> Some (Err e)
      | Ok receipt \<Rightarrow>
          map_option (\<lambda>lm.
            let i = bump_progress (we_resume_step E) (ws_info s) in
            case su_conn net of
              Err e \<Rightarrow> Err (Msg e)
            | Ok _ \<Rightarrow>
            case commit_on net (i_cid i) receipt (ws_db s) of
              (Err _, db') \<Rightarrow> Err (Msg ''database error'')
            | (Ok stored, db') \<Rightarrow>
                Ok (s\<lparr>ws_linkmap := lm, ws_db := db', ws_info := i,
                      ws_events := ws_events s @
                        [CapturedReceipt \<lparr>cap_receipt = ptr_cid (r_cid stored), cap_workflow = i,
                                          cap_metadata = Some (t_add_meta t)\<rparr>]\<rparr>))
            (lock_write (im_insert (ptr_cid (r_instruction receipt)) (output_as_arg (r_out receipt)))
              (ws_linkmap s)))"

text \<open>The events that replay the receipts of the batches that are done.\<close>

definition replay_events ::
  "deps \<Rightarrow> wasm_deps \<Rightarrow> info \<Rightarrow> string \<Rightarrow> task_scheduler \<Rightarrow> anyhow + event list" where
  "replay_events D W i name s =
     (if 0 < ran_length s
      then
        and_then (ok_or (sch_ran s) (Msg ''empty scheduler information'')) (\<lambda>batches.
        and_then (try_map (\<lambda>n. map_err FromWorkflow
            (instruction_to_cid D (arg_into D W) (v_instruction (n_vertex n)))) (concat batches)) (\<lambda>cs.
        Ok [ReplayReceipts \<lparr>rep_pointers = map Pointer cs,
                            rep_metadata = Some (additional_meta True i name)\<rparr>]))
      else Ok [])"

definition run_queue_start ::
  "deps \<Rightarrow> wasm_deps \<Rightarrow> worker \<Rightarrow> task_scheduler \<Rightarrow> (cid, nat list) index_map \<Rightarrow> nat \<Rightarrow> database \<Rightarrow>
   worker_state" where
  "run_queue_start D W w s running handles db =
     \<lparr>ws_batches = sch_run s, ws_spawned = [], ws_finished = [], ws_waiting = 0,
      ws_linkmap = lock_new (sch_linkmap s), ws_db = db, ws_info = wk_info w,
      ws_events = (case replay_events D W (wk_info w) (wk_name w) s of Ok evs \<Rightarrow> evs | Err _ \<Rightarrow> []),
      ws_running = running, ws_handles = handles,
      ws_phase = (case replay_events D W (wk_info w) (wk_name w) s of
                    Ok _ \<Rightarrow> Running | Err e \<Rightarrow> Returned (Err e))\<rparr>"

text \<open>\<open>Worker::run\<close> up to the first batch, with the connection the pool gives or not.\<close>

definition worker_run ::
  "deps \<Rightarrow> wasm_deps \<Rightarrow> worker \<Rightarrow> string + unit \<Rightarrow> (resource set \<Rightarrow> anyhow + fetched) \<Rightarrow> (cid, nat list) index_map \<Rightarrow> nat \<Rightarrow>
   database \<Rightarrow> anyhow + (task_scheduler \<times> worker_state)" where
  "worker_run D W w conn fetch_fn running handles db =
     and_then (map_err Msg conn) (\<lambda>_.
     case scheduler_init D (wk_graph w) db fetch_fn of
       Ok s \<Rightarrow> Ok (s, run_queue_start D W w s running handles db)
     | Err _ \<Rightarrow> Err (Msg ''error initializing scheduler''))"

text \<open>
  The steps of a run. A task without a result is counted in \<open>ws_waiting\<close>: its batch is never joined
  to the end, unless another task of the batch fails and the rest is dropped.
\<close>

definition drop_nth :: "nat \<Rightarrow> 'a list \<Rightarrow> 'a list" where
  "drop_nth i xs = take i xs @ drop (i + 1) xs"

inductive wstep :: "('c, 'i) worker_env \<Rightarrow> worker_state \<Rightarrow> worker_state \<Rightarrow> bool" for E where
  next_batch:
    "ws_phase s = Running \<Longrightarrow> ws_spawned s = [] \<Longrightarrow> ws_finished s = [] \<Longrightarrow> ws_waiting s = 0 \<Longrightarrow>
     ws_batches s = b # bs \<Longrightarrow>
     prepare_batch (we_deps E) (we_wasm E) (we_engine E) (ws_info s) (we_name E) (we_resources E) b = Ok ts \<Longrightarrow>
     wstep E s (s\<lparr>ws_batches := bs, ws_spawned := ts,
                  ws_running := append_or_insert (i_cid (ws_info s))
                    [ws_handles s..<ws_handles s + length ts] (ws_running s),
                  ws_handles := ws_handles s + length ts\<rparr>)"
| batch_error:
    "ws_phase s = Running \<Longrightarrow> ws_spawned s = [] \<Longrightarrow> ws_finished s = [] \<Longrightarrow> ws_waiting s = 0 \<Longrightarrow>
     ws_batches s = b # bs \<Longrightarrow>
     prepare_batch (we_deps E) (we_wasm E) (we_engine E) (ws_info s) (we_name E) (we_resources E) b = Err e \<Longrightarrow>
     wstep E s (s\<lparr>ws_phase := Returned (Err e)\<rparr>)"
| run_one:
    "ws_phase s = Running \<Longrightarrow> i < length (ws_spawned s) \<Longrightarrow> net \<in> we_around E \<Longrightarrow>
     run_task (we_deps E) (we_wasm E) (we_net E) (we_host E) net (we_sender E)
       (i_cid (ws_info s)) (we_resources E) (ws_spawned s ! i) (ws_linkmap s) (ws_db s)
       = (Some r, lm, db, evs) \<Longrightarrow> evs = [] \<or> su_room net \<Longrightarrow>
     wstep E s (s\<lparr>ws_spawned := drop_nth i (ws_spawned s),
                  ws_finished := ws_finished s @ [(ws_spawned s ! i, r)],
                  ws_linkmap := lm, ws_db := db, ws_events := ws_events s @ evs\<rparr>)"
| run_waits:
    "ws_phase s = Running \<Longrightarrow> i < length (ws_spawned s) \<Longrightarrow> net \<in> we_around E \<Longrightarrow>
     run_task (we_deps E) (we_wasm E) (we_net E) (we_host E) net (we_sender E)
       (i_cid (ws_info s)) (we_resources E) (ws_spawned s ! i) (ws_linkmap s) (ws_db s)
       = (None, lm, db, evs) \<Longrightarrow> evs = [] \<or> su_room net \<Longrightarrow>
     wstep E s (s\<lparr>ws_spawned := drop_nth i (ws_spawned s), ws_waiting := ws_waiting s + 1,
                  ws_linkmap := lm, ws_db := db, ws_events := ws_events s @ evs\<rparr>)"
| join_ok:
    "ws_phase s = Running \<Longrightarrow> i < length (ws_finished s) \<Longrightarrow> ws_finished s ! i = (t, TaskDone x) \<Longrightarrow>
     net \<in> we_around E \<Longrightarrow> join_task E net t x s = Some (Ok s') \<Longrightarrow> su_room net \<Longrightarrow>
     wstep E s (s'\<lparr>ws_finished := drop_nth i (ws_finished s)\<rparr>)"
| join_error:
    "ws_phase s = Running \<Longrightarrow> i < length (ws_finished s) \<Longrightarrow> ws_finished s ! i = (t, TaskDone x) \<Longrightarrow>
     net \<in> we_around E \<Longrightarrow> join_task E net t x s = Some (Err e) \<Longrightarrow>
     wstep E s (s\<lparr>ws_phase := Returned (Err e)\<rparr>)"
| join_failed:
    "ws_phase s = Running \<Longrightarrow> i < length (ws_finished s) \<Longrightarrow> ws_finished s ! i = (t, TaskFailed) \<Longrightarrow>
     wstep E s (s\<lparr>ws_spawned := [], ws_finished := [], ws_waiting := 0,
                  ws_linkmap := lock_new (lk_value (ws_linkmap s))\<rparr>)"
| all_done:
    "ws_phase s = Running \<Longrightarrow> ws_spawned s = [] \<Longrightarrow> ws_finished s = [] \<Longrightarrow> ws_waiting s = 0 \<Longrightarrow>
     ws_batches s = [] \<Longrightarrow>
     wstep E s (s\<lparr>ws_phase := Returned (Ok ())\<rparr>)"

abbreviation wsteps :: "('c, 'i) worker_env \<Rightarrow> worker_state \<Rightarrow> worker_state \<Rightarrow> bool" where
  "wsteps E \<equiv> (wstep E)\<^sup>*\<^sup>*"

section \<open>Lemmas on resolution\<close>

lemma drop_read: "lock_read l = Some g \<Longrightarrow> drop_guard g = l"
  by (auto simp: lock_read_def drop_guard_def split: if_splits)

lemma lock_read_value: "lock_read l = Some g \<Longrightarrow> lk_value g = lk_value l"
  by (auto simp: lock_read_def split: if_splits)

text \<open>The guard of the conditional is alive when the found result is to be inserted.\<close>

lemma insert_waits: "lock_read l = Some g \<Longrightarrow> insert_into_map c v g = None"
  by (auto simp: lock_read_def insert_into_map_def lock_write_def lock_free_def split: if_splits)

text \<open>
  The result of a lookup, by cases: answered from the link map, the fetched resources or the
  database without any effect; unanswered; or waiting, with the receipt from the network
  committed.
\<close>

lemma resolve_cid_cases:
  assumes "resolve_cid D N net tx w rscs c lm db = (res, lm', db', evs)"
  obtains (known) v where "res = Resolved v" "lm' = lm" "db' = db" "evs = []"
      "im_get (lk_value lm) c = Some v \<or>
       (\<exists>b. im_get (lk_value lm) c = None \<and> im_get rscs (RscCid c) = Some b \<and> v = IrOk (ArgIpld (IBytes b))) \<or>
       im_get (lk_value lm) c = None \<and> im_get rscs (RscCid c) = None \<and> (\<exists>r \<in> set (t_receipts db). r_instruction r = Pointer c \<and> v = output_as_arg (r_out r))"
  | (unknown) e where "res = Unresolved e" "lm' = lm" "db' = db"
      "\<And>cap. CapturedReceipt cap \<notin> set evs"
  | (queued) "res = Waiting" "lk_queued lm" "lm' = lm" "db' = db" "evs = []"
  | (network) p r ty g where "res = Waiting" "su_response net c = Ok (Found (Ok (FoundReceipt p r ty)))"
      "lock_read lm = Some g" "lm' = lock_queue g" "db' = snd (commit_on net w r db)"
      "\<And>cap. CapturedReceipt cap \<notin> set evs"
proof (cases "lock_read lm")
  case None
  with assms show ?thesis
    by (intro queued) (auto simp: resolve_cid_def lock_read_def split: if_splits)
next
  case (Some g)
  note g = Some drop_read [OF Some] lock_read_value [OF Some]
  show ?thesis
  proof (cases "im_get (lk_value lm) c")
    case (Some v)
    with assms g show ?thesis by (intro known) (auto simp: resolve_cid_def)
  next
    case link: None
    show ?thesis
    proof (cases "im_get rscs (RscCid c)")
      case (Some b)
      with assms g link show ?thesis by (intro known) (auto simp: resolve_cid_def)
    next
      case rsc: None
      show ?thesis
      proof (cases "\<exists>u r. su_conn net = Ok u \<and> on_db net (find_instruction_by_cid c db) = Ok r")
        case True
        then obtain u r where r: "su_conn net = Ok u" "on_db net (find_instruction_by_cid c db) = Ok r" by blast
        then have "find_instruction_by_cid c db = Ok r" by (auto simp: on_db_def split: option.splits)
        then have "r \<in> set (t_receipts db)" "r_instruction r = Pointer c"
          using first_row_filter_Ok unfolding find_instruction_by_cid_def by fastforce+
        with assms g link rsc r show ?thesis by (intro known) (auto simp: resolve_cid_def)
      next
        case False
        show ?thesis
        proof (cases "\<exists>u e p r ty. su_conn net = Ok u \<and> on_db net (find_instruction_by_cid c db) = Err e \<and>
            su_response net c = Ok (Found (Ok (FoundReceipt p r ty)))")
          case True
          then obtain u e p r ty where "su_conn net = Ok u" "on_db net (find_instruction_by_cid c db) = Err e"
            "su_response net c = Ok (Found (Ok (FoundReceipt p r ty)))" by blast
          with assms g link rsc show ?thesis
            by (intro network) (auto simp: resolve_cid_def insert_waits Let_def split: prod.splits)
        next
          case silent: False
          with assms g link rsc False show ?thesis
            by (auto simp: resolve_cid_def Let_def intro: unknown
                split: option.splits response_event.splits sum.splits found_event.splits)
        qed
      qed
    qed
  qed
qed

text \<open>A sequence of lookups either has no effect, or ends in a wait.\<close>

lemma resolve_many_Some:
  assumes "resolve_many D N net tx w rscs cs acc lm db = (Some acc', lm', db', evs)"
  shows "lm' = lm \<and> db' = db \<and> (\<forall>cap. CapturedReceipt cap \<notin> set evs)"
  using assms
proof (induction cs arbitrary: acc evs)
  case (Cons c cs)
  obtain res lm1 db1 evs1 where r: "resolve_cid D N net tx w rscs c lm db = (res, lm1, db1, evs1)"
    by (metis prod_cases4)
  then show ?case
  proof (cases rule: resolve_cid_cases)
    case (known v)
    with r Cons.prems Cons.IH [of "im_insert c (Ok v) acc" evs] show ?thesis
      by (auto split: prod.splits)
  next
    case (unknown e)
    with r Cons.prems show ?thesis
      by (auto split: prod.splits dest!: Cons.IH)
  qed (use r Cons.prems in auto)
qed simp

lemma resolve_many_None:
  assumes "resolve_many D N net tx w rscs cs acc lm db = (None, lm', db', evs)"
  obtains (queued) "lk_queued lm" "lm' = lm" "db' = db" "\<And>cap. CapturedReceipt cap \<notin> set evs"
  | (network) c p r ty g where "c \<in> set cs" "su_response net c = Ok (Found (Ok (FoundReceipt p r ty)))"
      "lock_read lm = Some g" "lm' = lock_queue g" "db' = snd (commit_on net w r db)"
      "\<And>cap. CapturedReceipt cap \<notin> set evs"
  using assms
proof (induction cs arbitrary: acc evs thesis)
  case (Cons c cs)
  obtain res lm1 db1 evs1 where r: "resolve_cid D N net tx w rscs c lm db = (res, lm1, db1, evs1)"
    by (metis prod_cases4)
  from r show ?case
  proof (cases rule: resolve_cid_cases)
    case (known v)
    with r Cons.prems(3) obtain evs2 where
      rest: "resolve_many D N net tx w rscs cs (im_insert c (Ok v) acc) lm db = (None, lm', db', evs2)" "evs = evs2"
      by (auto split: prod.splits)
    show ?thesis
    proof (rule Cons.IH [OF _ _ rest(1)], goal_cases)
      case 1
      with rest(2) Cons.prems(1) show ?case by simp
    next
      case (2 c' p r ty g)
      with rest(2) show ?case by (intro Cons.prems(2) [of c' p r ty g]) simp_all
    qed
  next
    case (unknown e)
    with r Cons.prems(3) obtain evs2 where
      rest: "resolve_many D N net tx w rscs cs (im_insert c (Err e) acc) lm db = (None, lm', db', evs2)" "evs = evs1 @ evs2"
      by (auto split: prod.splits)
    show ?thesis
    proof (rule Cons.IH [OF _ _ rest(1)], goal_cases)
      case 1
      with rest(2) unknown Cons.prems(1) show ?case by simp
    next
      case (2 c' p r ty g)
      with rest(2) unknown show ?case by (intro Cons.prems(2) [of c' p r ty g]) simp_all
    qed
  next
    case queued
    with r Cons.prems show ?thesis by auto
  next
    case (network p r ty g)
    with \<open>resolve_cid D N net tx w rscs c lm db = (res, lm1, db1, evs1)\<close> Cons.prems(3)
    show ?thesis by (intro Cons.prems(2) [of c p r ty g]) simp_all
  qed
qed simp

section \<open>The invariant of a run\<close>

text \<open>A database that only has more receipts than another.\<close>

definition db_grows :: "database \<Rightarrow> database \<Rightarrow> bool" where
  "db_grows db db' \<longleftrightarrow>
     set (t_receipts db) \<subseteq> set (t_receipts db') \<and> t_workflows db' = t_workflows db \<and>
     set (t_workflows_receipts db) \<subseteq> set (t_workflows_receipts db')"

lemma db_grows_refl [simp]: "db_grows db db"
  by (simp add: db_grows_def)

lemma db_grows_trans: "db_grows a b \<Longrightarrow> db_grows b c \<Longrightarrow> db_grows a c"
  by (auto simp: db_grows_def)

lemma db_grows_commit: "db_grows db (snd (commit_receipt w r db))"
  by (auto simp: db_grows_def commit_receipt_cases Let_def)

lemma commit_on_cases: "snd (commit_on net w r db) = db \<or> snd (commit_on net w r db) = snd (commit_receipt w r db)"
  by (auto simp: commit_on_def split: option.splits)

lemma db_grows_commit_on: "db_grows db (snd (commit_on net w r db))"
  using commit_on_cases [of net w r db] db_grows_commit by (metis db_grows_refl)

lemma db_inv_commit_on: "db_inv db \<Longrightarrow> db_inv (snd (commit_on net w r db))"
  using commit_on_cases [of net w r db] db_inv_commit_receipt by metis

text \<open>
  Every entry of the link map is the output of a receipt of its instruction. This receipt is stored,
  or it was computed for a task and the database kept another receipt with the same CID.
\<close>

definition displaced :: "deps \<Rightarrow> wasm_deps \<Rightarrow> database \<Rightarrow> rt_receipt \<Rightarrow> bool" where
  "displaced D W db r \<longleftrightarrow>
     (\<exists>t x. task_receipt D W t x = Ok r) \<and> r \<notin> set (t_receipts db) \<and>
     (\<exists>r' \<in> set (t_receipts db). r_cid r' = r_cid r)"

definition links_stored :: "deps \<Rightarrow> wasm_deps \<Rightarrow> database \<Rightarrow> linkmap \<Rightarrow> bool" where
  "links_stored D W db m \<longleftrightarrow>
     (\<forall>c v. im_get m c = Some v \<longrightarrow>
        (\<exists>r. r_instruction r = Pointer c \<and> v = output_as_arg (r_out r) \<and>
             (r \<in> set (t_receipts db) \<or> displaced D W db r)))"

lemma links_sound_stored: "links_sound db m \<Longrightarrow> links_stored D W db m"
  unfolding links_sound_def links_stored_def by blast

lemma links_stored_grows: "links_stored D W db m \<Longrightarrow> db_grows db db' \<Longrightarrow> links_stored D W db' m"
  unfolding links_stored_def db_grows_def displaced_def by (meson subsetD)

lemma links_stored_insert:
  assumes "links_stored D W db m" and "task_receipt D W t x = Ok r"
    and "r_cid r \<in> r_cid ` set (t_receipts db)"
  shows "links_stored D W db (im_insert (ptr_cid (r_instruction r)) (output_as_arg (r_out r)) m)"
proof -
  have "r \<in> set (t_receipts db) \<or> displaced D W db r"
    using assms(2,3) by (auto simp: displaced_def)
  with assms(1) show ?thesis
    by (cases "r_instruction r") (auto simp: links_stored_def map_laws split: if_splits)
qed

text \<open>The lock is free, or it is blocked for ever by a task that waits.\<close>

definition lock_state :: "nat \<Rightarrow> 'a rwlock \<Rightarrow> bool" where
  "lock_state waiting l \<longleftrightarrow> lock_free l \<or> 0 < waiting \<and> lk_queued l \<and> 0 < lk_readers l"

definition captured_recorded :: "cid \<Rightarrow> database \<Rightarrow> event list \<Rightarrow> bool" where
  "captured_recorded w db evs \<longleftrightarrow>
     (\<forall>cap. CapturedReceipt cap \<in> set evs \<longrightarrow>
        i_cid (cap_workflow cap) = w \<and> (Pointer w, Pointer (cap_receipt cap)) \<in> set (t_workflows_receipts db))"

lemma captured_recorded_grows:
  "captured_recorded w db evs \<Longrightarrow> db_grows db db' \<Longrightarrow> captured_recorded w db' evs"
  unfolding captured_recorded_def db_grows_def by blast

lemma captured_recorded_append:
  "captured_recorded w db evs \<Longrightarrow> (\<And>cap. CapturedReceipt cap \<notin> set evs') \<Longrightarrow>
   captured_recorded w db (evs @ evs')"
  by (auto simp: captured_recorded_def)

definition winv :: "deps \<Rightarrow> wasm_deps \<Rightarrow> cid \<Rightarrow> cid list \<Rightarrow> database \<Rightarrow> worker_state \<Rightarrow> bool" where
  "winv D W w progress db0 s \<longleftrightarrow>
     db_inv (ws_db s) \<and> db_grows db0 (ws_db s) \<and>
     i_cid (ws_info s) = w \<and> i_progress (ws_info s) = progress \<and>
     links_stored D W (ws_db s) (lk_value (ws_linkmap s)) \<and>
     captured_recorded w (ws_db s) (ws_events s) \<and>
     lock_state (ws_waiting s) (ws_linkmap s)"

text \<open>
  Running a task: a result comes without effects; without a result, the function does not return, or
  the lock is blocked.
\<close>

lemma run_task_Some:
  assumes "run_task D W N H net tx w rscs t lm db = (Some r, lm', db', evs)"
  shows "lm' = lm \<and> db' = db \<and> (\<forall>cap. CapturedReceipt cap \<notin> set evs)"
proof -
  obtain acc lm1 db1 evs1 where
    m: "resolve_many D N net tx w rscs (lookups D (t_args t)) [] lm db = (acc, lm1, db1, evs1)"
    by (metis prod_cases4)
  with assms show ?thesis
    by (cases acc) (auto simp: run_task_def split: sum.splits if_splits dest: resolve_many_Some)
qed

lemma run_task_None:
  assumes "run_task D W N H net tx w rscs t lm db = (None, lm', db', evs)"
  obtains (diverges) resolved where "\<not> guest_returns D W H (env_new (t_store t)) (t_wasm t) (t_fun t) resolved"
      "lm' = lm" "db' = db" "\<And>cap. CapturedReceipt cap \<notin> set evs"
  | (queued) "lk_queued lm" "lm' = lm" "db' = db" "\<And>cap. CapturedReceipt cap \<notin> set evs"
  | (network) c p r ty g where "c \<in> set (lookups D (t_args t))"
      "su_response net c = Ok (Found (Ok (FoundReceipt p r ty)))" "lock_read lm = Some g"
      "lm' = lock_queue g" "db' = snd (commit_on net w r db)" "\<And>cap. CapturedReceipt cap \<notin> set evs"
proof -
  obtain acc lm1 db1 evs1 where
    m: "resolve_many D N net tx w rscs (lookups D (t_args t)) [] lm db = (acc, lm1, db1, evs1)"
    by (metis prod_cases4)
  show ?thesis
  proof (cases acc)
    case None
    with m assms have "resolve_many D N net tx w rscs (lookups D (t_args t)) [] lm db = (None, lm', db', evs)"
      by (simp add: run_task_def)
    then show ?thesis by (rule resolve_many_None) (fact queued, fact network)
  next
    case (Some a)
    with m assms resolve_many_Some [of D N net tx w rscs "lookups D (t_args t)" "[]" lm db a lm1 db1 evs1]
    show ?thesis
      by (auto simp: run_task_def intro: diverges split: sum.splits if_splits)
  qed
qed

lemma run_task_effects:
  assumes "run_task D W N H net tx w rscs t lm db = (None, lm', db', evs)"
  shows "db_grows db db' \<and> (db_inv db \<longrightarrow> db_inv db') \<and> lk_value lm' = lk_value lm \<and>
    (lm' = lm \<or> lk_queued lm' \<and> 0 < lk_readers lm') \<and> (\<forall>cap. CapturedReceipt cap \<notin> set evs)"
  using assms
proof (cases rule: run_task_None)
  case (network c p r ty g)
  then show ?thesis
    using db_grows_commit_on [of db net w r] db_inv_commit_on [of db net w r]
    by (auto simp: lock_read_def lock_queue_def split: if_splits)
qed auto

lemma bump_progress_same [simp]:
  "i_cid (bump_progress st i) = i_cid i" "i_progress (bump_progress st i) = i_progress i"
  by (auto simp: bump_progress_def set_progress_count_def split: option.split)

lemma commit_receipt_Ok:
  "commit_receipt w r db = (Ok x, db') \<Longrightarrow>
     x = r \<and> (Pointer w, r_cid r) \<in> set (t_workflows_receipts db') \<and> r_cid r \<in> r_cid ` set (t_receipts db')"
  using db_store.commit_Ok [of w r db x db']
  by (auto simp: commit_receipt_cases Let_def image_iff split: if_splits) metis+

text \<open>Joining a result: the lock is free, the receipt is recorded, linked and published.\<close>

lemma join_task_Ok:
  assumes "join_task E net t x s = Some (Ok s')"
  obtains r where "task_receipt (we_deps E) (we_wasm E) t x = Ok r" "lock_free (ws_linkmap s)"
    "ws_db s' = snd (commit_receipt (i_cid (ws_info s)) r (ws_db s))"
    "(Pointer (i_cid (ws_info s)), r_cid r) \<in> set (t_workflows_receipts (ws_db s'))"
    "r_cid r \<in> r_cid ` set (t_receipts (ws_db s'))"
    "ws_linkmap s' = (ws_linkmap s)\<lparr>lk_value := im_insert (ptr_cid (r_instruction r))
       (output_as_arg (r_out r)) (lk_value (ws_linkmap s))\<rparr>"
    "ws_info s' = bump_progress (we_resume_step E) (ws_info s)"
    "ws_events s' = ws_events s @
       [CapturedReceipt \<lparr>cap_receipt = ptr_cid (r_cid r),
          cap_workflow = bump_progress (we_resume_step E) (ws_info s), cap_metadata = Some (t_add_meta t)\<rparr>]"
    "ws_batches s' = ws_batches s" "ws_spawned s' = ws_spawned s" "ws_finished s' = ws_finished s"
    "ws_waiting s' = ws_waiting s" "ws_phase s' = ws_phase s"
proof -
  from assms obtain r where r: "task_receipt (we_deps E) (we_wasm E) t x = Ok r"
    by (auto simp: join_task_def split: sum.splits)
  obtain c db' where c: "commit_on net (i_cid (ws_info s)) r (ws_db s) = (c, db')" by fastforce
  from assms r c have free: "lock_free (ws_linkmap s)"
    by (auto simp: join_task_def lock_write_def split: if_splits)
  from assms r c free obtain u where conn: "su_conn net = Ok u"
    by (cases "su_conn net") (simp_all add: join_task_def lock_write_def Let_def)
  from assms r c free conn obtain stored where ok: "c = Ok stored"
    by (cases c) (simp_all add: join_task_def lock_write_def Let_def)
  then have c': "commit_receipt (i_cid (ws_info s)) r (ws_db s) = (Ok stored, db')"
    using c by (simp add: commit_on_def split: option.splits)
  note stored = commit_receipt_Ok [OF c']
  with assms r c free conn ok have "s' = s\<lparr>ws_linkmap := (ws_linkmap s)\<lparr>lk_value := im_insert (ptr_cid (r_instruction r))
         (output_as_arg (r_out r)) (lk_value (ws_linkmap s))\<rparr>, ws_db := db',
       ws_info := bump_progress (we_resume_step E) (ws_info s), ws_events := ws_events s @
         [CapturedReceipt \<lparr>cap_receipt = ptr_cid (r_cid r),
            cap_workflow = bump_progress (we_resume_step E) (ws_info s), cap_metadata = Some (t_add_meta t)\<rparr>]\<rparr>"
    by (simp add: join_task_def lock_write_def Let_def)
  then show ?thesis
    by (intro that [of r]) (use r c' free stored in simp_all)
qed

lemma winv_step:
  assumes "wstep E s s'" and inv: "winv (we_deps E) (we_wasm E) w p db0 s"
  shows "winv (we_deps E) (we_wasm E) w p db0 s'"
  using assms(1)
proof cases
  case (run_one i net r lm db evs)
  from run_task_Some [OF run_one(5)] inv run_one(1) show ?thesis
    by (simp add: winv_def captured_recorded_append)
next
  case (run_waits i net lm db evs)
  note R = run_task_effects [OF run_waits(5)]
  have g: "db_grows db0 db" "links_stored (we_deps E) (we_wasm E) db (lk_value (ws_linkmap s))"
    "captured_recorded w db (ws_events s)"
    using R inv by (auto simp: winv_def intro: db_grows_trans links_stored_grows captured_recorded_grows)
  have l: "lock_state (Suc (ws_waiting s)) lm"
    using R inv by (auto simp: winv_def lock_state_def)
  from g l R inv run_waits(1) show ?thesis
    by (simp add: winv_def captured_recorded_append)
next
  case (join_ok i t x net s1)
  from join_ok(6) obtain r where t: "task_receipt (we_deps E) (we_wasm E) t x = Ok r"
    and r: "lock_free (ws_linkmap s)"
    "ws_db s1 = snd (commit_receipt (i_cid (ws_info s)) r (ws_db s))"
    "(Pointer (i_cid (ws_info s)), r_cid r) \<in> set (t_workflows_receipts (ws_db s1))"
    "r_cid r \<in> r_cid ` set (t_receipts (ws_db s1))"
    "ws_linkmap s1 = (ws_linkmap s)\<lparr>lk_value := im_insert (ptr_cid (r_instruction r))
       (output_as_arg (r_out r)) (lk_value (ws_linkmap s))\<rparr>"
    "ws_info s1 = bump_progress (we_resume_step E) (ws_info s)" "ws_waiting s1 = ws_waiting s"
    "ws_events s1 = ws_events s @ [CapturedReceipt \<lparr>cap_receipt = ptr_cid (r_cid r),
       cap_workflow = bump_progress (we_resume_step E) (ws_info s), cap_metadata = Some (t_add_meta t)\<rparr>]"
    by (rule join_task_Ok) blast
  have g: "db_grows (ws_db s) (ws_db s1)" "db_inv (ws_db s1)"
    using r(2) db_grows_commit db_inv_commit_receipt inv by (auto simp: winv_def)
  have "captured_recorded w (ws_db s1) (ws_events s1)"
    using captured_recorded_grows [of w "ws_db s" "ws_events s"] g(1) r(3,8) inv
    by (cases "r_cid r") (auto simp: winv_def captured_recorded_def)
  moreover have "links_stored (we_deps E) (we_wasm E) (ws_db s1) (lk_value (ws_linkmap s1))"
    using links_stored_grows [OF _ g(1)] links_stored_insert [OF _ t r(4)] r(5) inv
    by (simp add: winv_def)
  moreover have "lock_state (ws_waiting s1) (ws_linkmap s1)"
    using r(1,5,7) inv by (auto simp: winv_def lock_state_def lock_free_def split: if_splits)
  ultimately show ?thesis
    using inv g db_grows_trans r(6) join_ok(1) by (auto simp: winv_def)
qed (use inv in \<open>auto simp: winv_def lock_state_def lock_free_def lock_new_def\<close>)

lemma winv_steps:
  "wsteps E s s' \<Longrightarrow> winv (we_deps E) (we_wasm E) w p db0 s \<Longrightarrow> winv (we_deps E) (we_wasm E) w p db0 s'"
  by (induction rule: rtranclp_induct) (auto intro: winv_step)

lemma replay_events_Ok:
  "replay_events D W i nm s = Ok evs \<Longrightarrow> CapturedReceipt cap \<notin> set evs"
  by (auto simp: replay_events_def result_simps split: if_splits)

lemma winv_start:
  assumes "db_inv db" and "scheduler_init D g db f = Ok s"
  shows "winv D' W' (i_cid (wk_info w)) (i_progress (wk_info w)) db (run_queue_start D W w s running h db)"
proof -
  have "links_sound db (sch_linkmap s)"
    using assms(2) by (cases rule: scheduler_init_Ok) (auto simp: links_sound_batch)
  with assms(1) show ?thesis
    by (auto simp: winv_def run_queue_start_def lock_new_def lock_state_def lock_free_def
        captured_recorded_def links_sound_stored dest!: replay_events_Ok [OF sym] split: sum.splits)
qed

section \<open>Termination and progress\<close>

definition wmeasure :: "worker_state \<Rightarrow> nat" where
  "wmeasure s =
     sum_list (map (\<lambda>b. 2 * length b + 1) (ws_batches s)) + 2 * length (ws_spawned s) +
     length (ws_finished s) + (if ws_phase s = Running then 1 else 0)"

lemma prepare_batch_length: "prepare_batch D W G i nm rscs b = Ok ts \<Longrightarrow> length ts \<le> length b"
  by (induction b arbitrary: ts) (auto simp: result_simps split: option.splits)

lemma length_drop_nth [simp]: "i < length xs \<Longrightarrow> length (drop_nth i xs) = length xs - 1"
  by (simp add: drop_nth_def)

lemma set_drop_nth: "i < length xs \<Longrightarrow> set xs = insert (xs ! i) (set (drop_nth i xs))"
  unfolding drop_nth_def by (subst id_take_nth_drop [of i xs]) auto

lemma set_drop_nth_subset: "set (drop_nth i xs) \<subseteq> set xs"
  unfolding drop_nth_def by (auto dest: in_set_takeD in_set_dropD)

lemma join_task_frame:
  "join_task E net t x s = Some (Ok s') \<Longrightarrow>
     ws_batches s' = ws_batches s \<and> ws_spawned s' = ws_spawned s \<and> ws_finished s' = ws_finished s \<and>
     ws_waiting s' = ws_waiting s \<and> ws_phase s' = ws_phase s"
  by (erule join_task_Ok) simp

lemma wstep_decreases: "wstep E s s' \<Longrightarrow> wmeasure s' < wmeasure s"
proof (induction rule: wstep.induct)
  case (next_batch s b bs ts)
  then show ?case using prepare_batch_length [OF next_batch(6)] by (simp add: wmeasure_def)
next
  case (join_ok s i t x net s')
  then show ?case using join_task_frame [OF join_ok(5)] by (simp add: wmeasure_def)
qed (auto simp: wmeasure_def)

lemma wsteps_terminate: "wfP (\<lambda>s' s. wstep E s s')"
  by (rule wfp_if_convertible_to_nat [of _ wmeasure]) (rule wstep_decreases)

text \<open>A run that is not blocked can go on as long as the event channel may have room.\<close>

lemma wstep_progress:
  assumes "winv D W w p db0 s" and "ws_phase s = Running" and "ws_waiting s = 0"
    and net: "net \<in> we_around E" "su_room net"
  shows "\<exists>s'. wstep E s s'"
proof (cases "ws_finished s")
  case (Cons f fs)
  obtain t r where f: "f = (t, r)" by fastforce
  show ?thesis
  proof (cases r)
    case (TaskDone x)
    have "lock_free (ws_linkmap s)" using assms by (simp add: winv_def lock_state_def)
    then have "join_task E net t x s \<noteq> None"
      by (auto simp: join_task_def lock_write_def split: sum.splits)
    then obtain y where "join_task E net t x s = Some y" by blast
    with TaskDone Cons f assms(2) net show ?thesis
      by (cases y) (auto intro!: exI intro: wstep.join_ok [of s 0 t x] wstep.join_error [of s 0 t x])
  next
    case TaskFailed
    with Cons f assms(2) show ?thesis by (auto intro!: exI intro: wstep.join_failed [of s 0 t])
  qed
next
  case fin: Nil
  show ?thesis
  proof (cases "ws_spawned s")
    case (Cons t ts)
    obtain r lm db evs where
      "run_task (we_deps E) (we_wasm E) (we_net E) (we_host E) net (we_sender E)
        (i_cid (ws_info s)) (we_resources E) (ws_spawned s ! 0) (ws_linkmap s) (ws_db s) = (r, lm, db, evs)"
      by (metis prod_cases4)
    then show ?thesis
      using wstep.run_waits [OF assms(2), of 0 net E lm db evs]
        wstep.run_one [OF assms(2), of 0 net E _ lm db evs] Cons net
      by (cases r) auto
  next
    case spawned: Nil
    show ?thesis
    proof (cases "ws_batches s")
      case Nil
      with fin spawned assms show ?thesis by (auto intro: wstep.all_done)
    next
      case (Cons b bs)
      then show ?thesis
        using fin spawned assms
        by (cases "prepare_batch (we_deps E) (we_wasm E) (we_engine E) (ws_info s) (we_name E) (we_resources E) b")
          (auto intro: wstep.next_batch wstep.batch_error)
    qed
  qed
qed

text \<open>
  When the network never answers a query with a receipt and the functions of the fetched modules
  return, every task has a result.
\<close>

definition no_network_receipt :: "('c, 'i) worker_env \<Rightarrow> bool" where
  "no_network_receipt E \<longleftrightarrow>
     (\<forall>net \<in> we_around E. \<forall>c p r ty. su_response net c \<noteq> Ok (Found (Ok (FoundReceipt p r ty))))"

definition modules_return :: "('c, 'i) worker_env \<Rightarrow> bool" where
  "modules_return E \<longleftrightarrow>
     (\<forall>k bytes. im_get (we_resources E) k = Some bytes \<longrightarrow>
        (\<forall>store f args. guest_returns (we_deps E) (we_wasm E) (we_host E) (env_new store) bytes f args))"

definition modules_fetched :: "('c, 'i) worker_env \<Rightarrow> worker_state \<Rightarrow> bool" where
  "modules_fetched E s \<longleftrightarrow> (\<forall>t \<in> set (ws_spawned s). \<exists>k. im_get (we_resources E) k = Some (t_wasm t))"

lemma prepare_task_Some:
  assumes "prepare_task D W G i nm rscs n = Ok (Some t)"
  shows "im_get rscs (RscUrl (rsc (v_instruction (n_vertex n)))) = Some (t_wasm t) \<and>
    instruction_pointer D (arg_into D W) (v_instruction (n_vertex n)) = Ok (t_instruction t) \<and>
    t_add_meta t = additional_meta False i nm \<and> t_store t = store_new False (state_default 0)"
proof -
  from assms obtain f where "parsed_fun (v_parsed (n_vertex n)) = Some f"
    by (auto simp: prepare_task_def Let_def result_simps)
  with assms obtain wasm ptr ctx where
    "im_get rscs (RscUrl (rsc (v_instruction (n_vertex n)))) = Some wasm"
    "instruction_pointer D (arg_into D W) (v_instruction (n_vertex n)) = Ok ptr"
    "(wasm_context_new G (state_default 0) :: wasm_failure + unit env) = Ok ctx"
    "t = \<lparr>t_wasm = wasm, t_fun = f, t_args = parsed_args (v_parsed (n_vertex n)), t_instruction = ptr,
      t_invocation = v_invocation (n_vertex n), t_receipt_meta = IMap (bt_from [(OP_KEY, IString f)]),
      t_add_meta = additional_meta False i nm, t_store = env_store ctx\<rparr>"
    by (auto simp: prepare_task_def Let_def result_simps split: option.splits registered_tasks.splits)
  then show ?thesis
    by (auto simp: wasm_context_new_def world_default_def env_new_def result_simps dest: setup_store_Ok)
qed

lemma prepare_batch_in:
  assumes "prepare_batch D W G i nm rscs b = Ok ts" and "t \<in> set ts"
  shows "\<exists>n \<in> set b. prepare_task D W G i nm rscs n = Ok (Some t)"
  using assms
  by (induction b arbitrary: ts) (auto simp: result_simps split: option.splits)

lemma modules_fetched_step: "wstep E s s' \<Longrightarrow> modules_fetched E s \<Longrightarrow> modules_fetched E s'"
proof (induction rule: wstep.induct)
  case (next_batch s b bs ts)
  then show ?case
    using prepare_batch_in [OF next_batch(6)] prepare_task_Some
    by (fastforce simp: modules_fetched_def)
next
  case (join_ok s i t x net s')
  then show ?case using join_task_frame [OF join_ok(5)] by (simp add: modules_fetched_def)
qed (auto simp: modules_fetched_def dest: set_drop_nth_subset [THEN subsetD])

lemma no_wait_step:
  assumes "wstep E s s'" and "no_network_receipt E" and "modules_return E"
    and "winv D W w p db0 s" and "modules_fetched E s" and "ws_waiting s = 0"
  shows "ws_waiting s' = 0"
  using assms(1)
proof cases
  case (run_waits i net lm db evs)
  from run_waits(5) have False
  proof (cases rule: run_task_None)
    case (diverges resolved)
    with assms(3,5) nth_mem [OF run_waits(3)] show ?thesis
      unfolding modules_fetched_def modules_return_def by blast
  qed (use assms(2,4,6) run_waits(4) in \<open>auto simp: no_network_receipt_def winv_def lock_state_def lock_free_def\<close>)
  then show ?thesis ..
next
  case (join_ok i t x net s1)
  then show ?thesis using assms(6) join_task_frame [OF join_ok(6)] by simp
qed (use assms(6) in auto)

lemma no_wait_steps:
  assumes "wsteps E s s'" and "no_network_receipt E" and "modules_return E"
    and "winv (we_deps E) (we_wasm E) w p db0 s" and "modules_fetched E s" and "ws_waiting s = 0"
  shows "ws_waiting s' = 0 \<and> modules_fetched E s'"
  using assms(1)
proof (induction rule: rtranclp_induct)
  case (step s1 s2)
  then show ?case
    using no_wait_step [OF step(2) assms(2,3) winv_steps [OF step(1) assms(4)]] modules_fetched_step by blast
qed (use assms in simp)

section \<open>Completion\<close>

text \<open>A task is recorded when a receipt of one of its outputs is among those of the workflow.\<close>

definition recorded :: "('c, 'i) worker_env \<Rightarrow> cid \<Rightarrow> database \<Rightarrow> wtask \<Rightarrow> bool" where
  "recorded E w db t \<longleftrightarrow>
     (\<exists>x r. task_receipt (we_deps E) (we_wasm E) t x = Ok r \<and>
        (Pointer w, r_cid r) \<in> set (t_workflows_receipts db))"

lemma task_receipt_instruction: "task_receipt D W t x = Ok r \<Longrightarrow> r_instruction r = t_instruction t"
  by (auto simp: task_receipt_def try_with_def rt_receipt_new_def result_simps)

definition prepared :: "('c, 'i) worker_env \<Rightarrow> info \<Rightarrow> node list \<Rightarrow> anyhow + wtask list" where
  "prepared E i b = prepare_batch (we_deps E) (we_wasm E) (we_engine E) i (we_name E) (we_resources E) b"

lemma prepared_cong:
  assumes "i_cid i = i_cid j"
  shows "prepared E i b = prepared E j b"
proof -
  have m: "additional_meta r i nm = additional_meta r j nm" for r nm
    using assms by (simp add: additional_meta_def)
  have "prepare_task D W G i nm rscs n = prepare_task D W G j nm rscs n" for D W G nm rscs n
    unfolding prepare_task_def m ..
  then show ?thesis unfolding prepared_def by (induction b) simp_all
qed

lemma recorded_grows: "recorded E w db t \<Longrightarrow> db_grows db db' \<Longrightarrow> recorded E w db' t"
  unfolding recorded_def db_grows_def by blast

text \<open>A task is settled when it is recorded and its instruction has an entry in the link map.\<close>

definition settled :: "('c, 'i) worker_env \<Rightarrow> worker_state \<Rightarrow> wtask \<Rightarrow> bool" where
  "settled E s t \<longleftrightarrow>
     recorded E (i_cid (ws_info s)) (ws_db s) t \<and>
     (\<exists>v. im_get (lk_value (ws_linkmap s)) (ptr_cid (t_instruction t)) = Some v)"

text \<open>
  Of the batches that were started, the last one may have tasks that are still to run or to be
  joined; all other tasks are settled.
\<close>

definition accounted :: "('c, 'i) worker_env \<Rightarrow> worker_state \<Rightarrow> worker_state \<Rightarrow> bool" where
  "accounted E s0 s \<longleftrightarrow>
     (\<exists>past current. ws_batches s0 = past @ current @ ws_batches s \<and> length current \<le> 1 \<and>
        (\<forall>b \<in> set past. \<exists>ts. prepared E (ws_info s0) b = Ok ts \<and> (\<forall>t \<in> set ts. settled E s t)) \<and>
        (\<forall>b \<in> set current. \<exists>ts. prepared E (ws_info s0) b = Ok ts \<and>
           (\<forall>t \<in> set ts. t \<in> set (ws_spawned s) \<or> t \<in> fst ` set (ws_finished s) \<or> settled E s t)))"

lemma accountedI:
  assumes "accounted E s0 s" and "ws_batches s' = ws_batches s"
    and "\<And>t. settled E s t \<Longrightarrow> settled E s' t"
    and "\<And>t. t \<in> set (ws_spawned s) \<or> t \<in> fst ` set (ws_finished s) \<Longrightarrow>
             t \<in> set (ws_spawned s') \<or> t \<in> fst ` set (ws_finished s') \<or> settled E s' t"
  shows "accounted E s0 s'"
proof -
  from assms(1) obtain past current where st: "ws_batches s0 = past @ current @ ws_batches s" "length current \<le> 1"
    "\<forall>b \<in> set past. \<exists>ts. prepared E (ws_info s0) b = Ok ts \<and> (\<forall>t \<in> set ts. settled E s t)"
    "\<forall>b \<in> set current. \<exists>ts. prepared E (ws_info s0) b = Ok ts \<and>
       (\<forall>t \<in> set ts. t \<in> set (ws_spawned s) \<or> t \<in> fst ` set (ws_finished s) \<or> settled E s t)"
    unfolding accounted_def by blast
  then show ?thesis
    unfolding accounted_def using assms(2-4)
    by (intro exI [of _ past] exI [of _ current]) metis
qed

lemma accounted_phase [simp]: "accounted E s0 (s\<lparr>ws_phase := ph\<rparr>) = accounted E s0 s"
  by (simp add: accounted_def settled_def)

text \<open>Either this holds or a task waits; and when the run has returned, nothing is left.\<close>

definition completing :: "('c, 'i) worker_env \<Rightarrow> worker_state \<Rightarrow> worker_state \<Rightarrow> bool" where
  "completing E s0 s \<longleftrightarrow>
     (0 < ws_waiting s \<or> accounted E s0 s) \<and> i_cid (ws_info s) = i_cid (ws_info s0) \<and>
     (ws_phase s = Returned (Ok ()) \<longrightarrow>
        ws_batches s = [] \<and> ws_spawned s = [] \<and> ws_finished s = [] \<and> ws_waiting s = 0)"

definition some_failed :: "worker_state \<Rightarrow> bool" where
  "some_failed s \<longleftrightarrow> (\<exists>p \<in> set (ws_finished s). snd p = TaskFailed)"

lemma completing_step:
  assumes step: "wstep E s s'" and c: "completing E s0 s" and ok: "\<not> some_failed s"
  shows "completing E s0 s'"
  using step
proof cases
  case (next_batch b bs ts)
  have p: "prepared E (ws_info s0) b = Ok ts"
    using next_batch(7) c prepared_cong [of "ws_info s" "ws_info s0" E b]
    by (simp add: completing_def prepared_def)
  have "accounted E s0 s" using c next_batch(5) by (simp add: completing_def)
  then obtain past current where st: "ws_batches s0 = past @ current @ ws_batches s"
    "\<forall>b \<in> set past. \<exists>ts. prepared E (ws_info s0) b = Ok ts \<and> (\<forall>t \<in> set ts. settled E s t)"
    "\<forall>b \<in> set current. \<exists>ts. prepared E (ws_info s0) b = Ok ts \<and>
       (\<forall>t \<in> set ts. t \<in> set (ws_spawned s) \<or> t \<in> fst ` set (ws_finished s) \<or> settled E s t)"
    unfolding accounted_def by blast
  have same: "settled E s' t = settled E s t" for t
    using next_batch(1) by (simp add: settled_def)
  have "\<forall>b \<in> set (past @ current). \<exists>ts. prepared E (ws_info s0) b = Ok ts \<and> (\<forall>t \<in> set ts. settled E s' t)"
    using st(2,3) next_batch(3,4) by (simp add: same ball_Un)
  then have "accounted E s0 s'"
    unfolding accounted_def using p next_batch(1,6) st(1)
    by (intro exI [of _ "past @ current"] exI [of _ "[b]"]) simp
  then show ?thesis using c next_batch by (simp add: completing_def)
next
  case (run_one i net r lm db evs)
  note R = run_task_Some [OF run_one(5)]
  have "settled E s' t = settled E s t" for t
    using R run_one(1) by (simp add: settled_def)
  then have "accounted E s0 s'" if "accounted E s0 s"
    by (rule_tac accountedI [OF that]) (use R run_one(1) in \<open>auto simp: set_drop_nth [OF run_one(3)]\<close>)
  then show ?thesis using c run_one(1,2) by (auto simp: completing_def)
next
  case (join_ok i t x net s1)
  from join_ok(6) obtain r where r: "task_receipt (we_deps E) (we_wasm E) t x = Ok r"
    "ws_db s1 = snd (commit_receipt (i_cid (ws_info s)) r (ws_db s))"
    "(Pointer (i_cid (ws_info s)), r_cid r) \<in> set (t_workflows_receipts (ws_db s1))"
    "ws_info s1 = bump_progress (we_resume_step E) (ws_info s)"
    "ws_linkmap s1 = (ws_linkmap s)\<lparr>lk_value := im_insert (ptr_cid (r_instruction r))
       (output_as_arg (r_out r)) (lk_value (ws_linkmap s))\<rparr>"
    by (rule join_task_Ok) blast
  note f = join_task_frame [OF join_ok(6)]
  have "recorded E w (ws_db s) u \<Longrightarrow> recorded E w (ws_db s1) u" for w u
    using recorded_grows db_grows_commit r(2) by metis
  then have g: "settled E s u \<Longrightarrow> settled E s' u" for u
    using join_ok(1) r(4,5) by (auto simp: settled_def map_laws)
  have "settled E s' t"
    using r join_ok(1) task_receipt_instruction [OF r(1)]
    by (auto simp: settled_def recorded_def map_laws)
  then have "accounted E s0 s'" if "accounted E s0 s"
    by (rule_tac accountedI [OF that])
      (use f g join_ok(1,4) in \<open>auto simp: set_drop_nth [OF join_ok(3)]\<close>)
  then show ?thesis using c join_ok(1,2) f r(4) by (auto simp: completing_def)
next
  case (join_failed i t)
  with ok nth_mem [OF join_failed(3)] show ?thesis by (auto simp: some_failed_def)
next
  case all_done
  with c show ?thesis by (auto simp: completing_def)
qed (use c in \<open>auto simp: completing_def\<close>)

text \<open>Steps from states in which no task has failed.\<close>

definition clean_steps :: "('c, 'i) worker_env \<Rightarrow> worker_state \<Rightarrow> worker_state \<Rightarrow> bool" where
  "clean_steps E = (\<lambda>s s'. wstep E s s' \<and> \<not> some_failed s)\<^sup>*\<^sup>*"

lemma clean_steps_wsteps: "clean_steps E s s' \<Longrightarrow> wsteps E s s'"
  unfolding clean_steps_def by (erule rtranclp_mono [THEN predicate2D, rotated]) auto

lemma completing_steps:
  assumes "clean_steps E s0 s" and "ws_phase s0 \<noteq> Returned (Ok ())"
  shows "completing E s0 s"
  using assms(1) unfolding clean_steps_def
proof (induction rule: rtranclp_induct)
  case base
  then show ?case using assms(2) by (auto simp: completing_def accounted_def)
next
  case (step s1 s2)
  then show ?case using completing_step by blast
qed

end
