(* ===== verification/Instances.thy ===== *)
theory Instances
  imports Rt_Workflow
begin

text \<open>
  Concrete instances of the third-party parameters, on which the hypotheses about them hold:
  a text form of CIDs that is read back, deserialisation by the kind of a value, encoders
  given by a table of the values they know, the constructors of component values with their
  type check, and a scheduler that orders a graph or refuses it. The properties with such
  hypotheses are applied to these instances.
\<close>

section \<open>Text of content identifiers\<close>

definition bits_text :: "u64 \<Rightarrow> string" where
  "bits_text w = map (\<lambda>i. if bit w i then CHR ''1'' else CHR ''0'') [0..<64]"

definition text_bits :: "string \<Rightarrow> u64" where
  "text_bits s = horner_sum of_bool 2 (map (\<lambda>c. c = CHR ''1'') s)"

lemma length_bits_text [simp]: "length (bits_text w) = 64"
  by (simp add: bits_text_def)

lemma text_bits_text [simp]: "text_bits (bits_text w) = w"
proof -
  have "map (\<lambda>c. c = CHR ''1'') (bits_text w) = map (bit w) [0..<64]"
    by (simp add: bits_text_def o_def)
  then show ?thesis
    by (simp add: text_bits_def horner_sum_bit_eq_take_bit take_bit_word_eq_self)
qed

definition bytes_text :: "bytes \<Rightarrow> string" where
  "bytes_text b = map (\<lambda>x. char_of (unat x)) b"

lemma as_bytes_text [simp]: "as_bytes (bytes_text b) = b"
  by (induction b) (simp_all add: as_bytes_def bytes_text_def byte_of_char_of)

lemma bytes_text_as [simp]: "bytes_text (as_bytes s) = s"
  by (induction s) (simp_all add: as_bytes_def bytes_text_def char_of_byte_of)

fun cid_text :: "cid \<Rightarrow> string" where
  "cid_text (Cid v codec (Multihash code digest)) =
     replicate v (CHR ''v'') @ ''z'' @ bits_text codec @ bits_text code @ bytes_text digest"

definition text_cid :: "string \<Rightarrow> string + cid" where
  "text_cid s =
     (let v = length (takeWhile (\<lambda>c. c = CHR ''v'') s); r = drop v s in
      if r \<noteq> [] \<and> hd r = CHR ''z'' \<and> 129 \<le> length r
      then Ok (Cid v (text_bits (take 64 (drop 1 r)))
                (Multihash (text_bits (take 64 (drop 65 r))) (as_bytes (drop 129 r))))
      else Err ''invalid cid'')"

lemma takeWhile_replicate: "takeWhile (\<lambda>c. c = x) (replicate n x @ y # ys) =
  replicate n x @ (if y = x then x # takeWhile (\<lambda>c. c = x) ys else [])"
  by (induction n) auto

lemma text_cid_text [simp]: "text_cid (cid_text c) = Ok c"
proof -
  obtain v codec code digest where c: "c = Cid v codec (Multihash code digest)"
    by (metis cid.exhaust multihash.exhaust)
  show ?thesis
    by (simp add: c text_cid_def takeWhile_replicate Let_def)
qed

lemma bits_text_eq [simp]: "bits_text a = bits_text b \<longleftrightarrow> a = b"
  by (metis text_bits_text)

lemma cid_text_eq [simp]: "cid_text a = cid_text b \<longleftrightarrow> a = b"
  by (metis Inr_inject text_cid_text)

section \<open>Deserialisation and encoders\<close>

text \<open>An encoder that knows the values of a table; what it writes is the position of a value.\<close>

definition table_encode :: "ipld list \<Rightarrow> ipld \<Rightarrow> string + bytes" where
  "table_encode xs x =
     (case position (\<lambda>y. y = x) xs of
        Some i \<Rightarrow> Ok (replicate i 0)
      | None \<Rightarrow> Err ''unknown value'')"

definition table_decode :: "ipld list \<Rightarrow> bytes \<Rightarrow> string + ipld" where
  "table_decode xs b = (if length b < length xs then Ok (xs ! length b) else Err ''unknown bytes'')"

lemma table_roundtrip: "table_encode xs x = Ok b \<Longrightarrow> table_decode xs b = Ok x"
  by (auto simp: table_encode_def table_decode_def dest: position_Some split: option.splits)

definition ex_deps :: "ipld list \<Rightarrow> deps" where
  "ex_deps xs =
     \<lparr>from_ipld_map = (\<lambda>x. case x of IMap m \<Rightarrow> Ok m | _ \<Rightarrow> Err ''expected a map''),
      from_ipld_cid = (\<lambda>x. case x of ILink c \<Rightarrow> Ok c | _ \<Rightarrow> Err ''expected a link''),
      from_ipld_string = (\<lambda>x. case x of IString s \<Rightarrow> Ok s | _ \<Rightarrow> Err ''expected a string''),
      from_ipld_u64 = (\<lambda>x. case x of IInteger v \<Rightarrow> ok_or (try_into_unsigned v) ''out of range''
                               | _ \<Rightarrow> Err ''expected an integer''),
      from_ipld_u32 = (\<lambda>x. case x of IInteger v \<Rightarrow> ok_or (try_into_unsigned v) ''out of range''
                               | _ \<Rightarrow> Err ''expected an integer''),
      from_ipld_vec = (\<lambda>x. case x of IList l \<Rightarrow> Ok l | _ \<Rightarrow> Err ''expected a list''),
      from_ipld_cids = (\<lambda>x. case x of
          IList l \<Rightarrow> try_map (\<lambda>y. case y of ILink c \<Rightarrow> Ok c | _ \<Rightarrow> Err ''expected a link'') l
        | _ \<Rightarrow> Err ''expected a list''),
      from_ipld_principal = (\<lambda>x. case x of IString s \<Rightarrow> Ok (Principal (as_bytes s))
                                     | _ \<Rightarrow> Err ''expected a string''),
      cbor_encode = table_encode xs, cbor_decode = table_decode xs,
      json_encode = table_encode xs, json_decode = table_decode xs,
      sha3_256 = Multihash 0x16,
      cid_to_string = cid_text, cid_to_string_of_base = (\<lambda>c. Ok (cid_text c)),
      cid_from_str = text_cid,
      cid_to_bytes = (\<lambda>c. as_bytes (cid_text c)), cid_from_bytes = (\<lambda>b. text_cid (bytes_text b)),
      url_parse = (\<lambda>s. Ok (Url s)), url_to_string = url_serialization,
      principal_from_str = (\<lambda>s. Ok (Principal (as_bytes s))),
      principal_to_string = (\<lambda>p. bytes_text (principal_bytes p)),
      base32hex_lower = bytes_text\<rparr>"

lemma links_list:
  "list_all2 (\<lambda>y c. (case y of ILink c \<Rightarrow> Ok c | _ \<Rightarrow> Err e) = Ok c) l cs \<longleftrightarrow> l = map ILink cs"
proof (induction l arbitrary: cs)
  case (Cons y l)
  then show ?case by (cases cs) (auto split: ipld.splits)
qed simp

lemma ex_serde_ok [simp]: "serde_ok (ex_deps xs)"
  by (auto simp: serde_ok_def ex_deps_def result_simps links_list split: ipld.splits)

lemma ex_cid_text_ok [simp]: "cid_text_ok (ex_deps xs)"
  by (simp add: cid_text_ok_def ex_deps_def)

lemma ex_cid_bytes_ok [simp]: "cid_bytes_ok (ex_deps xs)"
  by (simp add: cid_bytes_ok_def ex_deps_def)

lemma ex_url_text_ok [simp]: "url_text_ok (ex_deps xs)"
  by (simp add: url_text_ok_def ex_deps_def)

lemma ex_principal_text_ok [simp]: "principal_text_ok (ex_deps xs)"
  by (simp add: principal_text_ok_def ex_deps_def)

lemma ex_cbor_ok [simp]: "cbor_ok (ex_deps xs)"
  by (simp add: cbor_ok_def ex_deps_def table_roundtrip)

lemma ex_json_ok [simp]: "json_ok (ex_deps xs) x"
  by (simp add: json_ok_def ex_deps_def table_roundtrip)

lemma ex_issuer_read [simp]: "issuer_read (ex_deps xs) iss = iss"
  by (cases iss) (simp_all add: issuer_read_def issuer_to_string_def ex_deps_def)

text \<open>The hash of the instance has no collision.\<close>

lemma ex_sha_inj [simp]: "sha3_256 (ex_deps xs) a = sha3_256 (ex_deps xs) b \<longleftrightarrow> a = b"
  by (simp add: ex_deps_def)

lemma ex_sha: "sha3_256 (ex_deps xs) b = Multihash 0x16 b"
  by (simp add: ex_deps_def)

lemma ex_encode: "cbor_encode (ex_deps xs) = table_encode xs"
  by (simp add: ex_deps_def)

section \<open>Component values\<close>

definition ex_wasm :: wasm_deps where
  "ex_wasm =
     \<lparr>list_new_val = (\<lambda>t vs. if \<forall>v \<in> set vs. val_type v = t then Ok (VList t vs) else Err ''type mismatch''),
      tuple_new_val = (\<lambda>ts vs. if map val_type vs = ts then Ok (VTuple ts vs) else Err ''type mismatch''),
      f64_as_f32 = ucast, decimal_from_f32 = (\<lambda>w. Some (bits_text (ucast w))),
      decimal_to_f64 = (\<lambda>s. Some (text_bits s)),
      base64_encode = bytes_text, cid_to_base58 = (\<lambda>c. Ok (cid_text c))\<rparr>"

lemma ex_new_val_ok [simp]: "new_val_ok ex_wasm"
  by (auto simp: new_val_ok_def ex_wasm_def)

section \<open>Scheduling\<close>

text \<open>One node per batch, the graph from its end; refused when that is not an order.\<close>

definition in_order :: "dag \<Rightarrow> node list list \<Rightarrow> bool" where
  "in_order d bs \<longleftrightarrow>
     (\<forall>j < length bs. \<forall>n \<in> set (bs ! j). \<forall>r \<in> set (n_reads n).
        \<forall>m \<in> set d. r \<in> set (n_results m) \<longrightarrow> (\<exists>i < j. m \<in> set (bs ! i)))"

definition ex_schedule :: "dag \<Rightarrow> string + node list list" where
  "ex_schedule d =
     (let bs = map (\<lambda>n. [n]) (rev d) in if in_order d bs then Ok bs else Err ''cycle'')"

lemma ex_schedule_ok [simp]: "schedule_ok ex_schedule"
proof -
  have "mset (concat (map (\<lambda>n. [n]) (rev d))) = mset d" for d :: dag
    by simp
  then show ?thesis
    by (auto simp: schedule_ok_def ex_schedule_def in_order_def Let_def split: if_splits)
qed

end
