(* ===== verification/Core_Correct.thy ===== *)
theory Core_Correct
  imports Instances
begin

text \<open>
  The properties of \<open>homestar-core\<close>: round trips of the workflow types, content addressing,
  resolution of promises and links, and the spots where reading is more lenient or less
  precise than writing.
\<close>

section \<open>A workflow of two tasks\<close>

text \<open>The first task adds to a number, the second one waits for the result of the first.\<close>

definition ex_add :: "arg instruction" where
  "ex_add = instruction_new (Url ''ipfs://add.wasm'') (Ability ''wasm/run'')
     (InputIpld (IMap [(''args'', IList [IInteger 1]), (''func'', IString ''add_one'')]))"

definition ex_cid :: cid where
  "ex_cid = Cid 1 DAG_CBOR (Multihash 0x16 [])"

definition ex_next :: "arg instruction" where
  "ex_next = instruction_new_with_nonce (Url ''ipfs://add.wasm'') (Ability ''wasm/run'')
     (InputIpld (IMap [(''args'', IList [IMap [(PTR_BRANCH, ILink ex_cid)]]), (''func'', IString ''add_one'')]))
     (Nonce96 (replicate 12 7))"

definition ex_flow :: "arg workflow" where
  "ex_flow = \<lparr>tasks = [task_new (Expanded ex_add) INull (UcanPrf []),
                     task_new_with_cause (Expanded ex_next) INull (UcanPrf [ex_cid]) (Some (Pointer ex_cid))]\<rparr>"

lemma ex_plain_exact:
  "(\<forall>r. ir_try_from from (IMap m) \<noteq> Ok r)"
  by (simp add: ir_try_from_def)

lemma ex_flow_exact: "workflow_exact (ex_deps xs) into arg_from ex_flow"
  by (auto simp: workflow_exact_def ex_flow_def task_exact_def instruction_exact_def ex_add_def ex_next_def
        task_new_def task_new_with_cause_def instruction_new_def instruction_new_with_nonce_def
        ex_plain_exact branch_defs elim!: branch.elims)

definition ex_flow1 :: "arg workflow" where
  "ex_flow1 = \<lparr>tasks = take 1 (tasks ex_flow)\<rparr>"

lemma ex_flow1_exact: "workflow_exact (ex_deps xs) into arg_from ex_flow1"
  using ex_flow_exact by (auto simp: workflow_exact_def ex_flow1_def dest: in_set_takeD)

section \<open>Round trips and content addressing\<close>

text \<open>
  C19. A workflow written as IPLD, with all its tasks, instructions, inputs, nonces, causes
  and proofs, is read back as the same workflow.
\<close>
theorem workflow_ipld_roundtrip:
  assumes "workflow_exact D into from w"
  shows "workflow_try_from D from (workflow_into D into w) = Ok w"
  using assms by (rule workflow_codec.try_from_into)

theorem workflow_ipld_roundtrip_witness:
  "workflow_try_from (ex_deps []) arg_from (workflow_into (ex_deps []) (arg_into (ex_deps []) ex_wasm) ex_flow)
     = Ok ex_flow \<and> length (tasks ex_flow) = 2"
  using workflow_ipld_roundtrip [OF ex_flow_exact] by (simp add: ex_flow_def)

text \<open>The encodings of two values do not collide under the hash function.\<close>

definition collision_free :: "deps \<Rightarrow> ipld \<Rightarrow> ipld \<Rightarrow> bool" where
  "collision_free D x y \<longleftrightarrow>
     (\<forall>a b. cbor_encode D x = Ok a \<longrightarrow> cbor_encode D y = Ok b \<longrightarrow> sha3_256 D a = sha3_256 D b \<longrightarrow> a = b)"

text \<open>
  C20. Content addressing of workflows: two workflows that round-trip have the same CID exactly
  when they are the same workflow, unless their encodings collide under the hash function.
\<close>
theorem workflow_cid_determines:
  assumes "workflow_exact D into from w" and "workflow_exact D into from v" and "cbor_ok D"
    and "collision_free D (workflow_into D into w) (workflow_into D into v)"
    and "workflow_to_cid D into w = Ok c" and "workflow_to_cid D into v = Ok d"
  shows "c = d \<longleftrightarrow> w = v"
proof
  assume "c = d"
  with assms show "w = v"
    unfolding workflow_to_cid_def collision_free_def by (metis workflow_codec.cid_determines)
next
  assume "w = v"
  with assms show "c = d" by simp
qed

text \<open>The IPLD forms of the two workflows, which do not depend on the encoder.\<close>

definition flow_ipld :: "arg workflow \<Rightarrow> ipld" where
  "flow_ipld w = workflow_into (ex_deps []) (\<lambda>_. INull) w"

lemmas ex_flow_defs = ex_flow_def ex_flow1_def ex_add_def ex_next_def task_new_def task_new_with_cause_def
  instruction_new_def instruction_new_with_nonce_def

lemma ex_url_to_string: "url_to_string (ex_deps xs) = url_serialization"
  by (simp add: ex_deps_def)

lemma ex_url_parse: "url_parse (ex_deps xs) s = Ok (Url s)"
  by (simp add: ex_deps_def)

lemma ex_flow_ipld:
  "workflow_into (ex_deps xs) into ex_flow = flow_ipld ex_flow"
  "workflow_into (ex_deps xs) into ex_flow1 = flow_ipld ex_flow1"
  by (simp_all add: flow_ipld_def workflow_into_def ex_flow_defs task_into_def instruction_into_def ex_url_to_string)

lemma ex_flow_ipld_neq: "flow_ipld ex_flow \<noteq> flow_ipld ex_flow1"
  by (simp add: flow_ipld_def workflow_into_def ex_flow_defs bt_from_def)

definition flow_deps :: deps where
  "flow_deps = ex_deps [flow_ipld ex_flow, flow_ipld ex_flow1]"

lemma flow_cids:
  "workflow_to_cid flow_deps into ex_flow = Ok (new_v1 DAG_CBOR (Multihash 0x16 []))"
  "workflow_to_cid flow_deps into ex_flow1 = Ok (new_v1 DAG_CBOR (Multihash 0x16 [0]))"
  using ex_flow_ipld_neq
  by (simp_all add: workflow_to_cid_def to_cid_def flow_deps_def ex_flow_ipld ex_encode table_encode_def
      ex_sha)

theorem workflow_cid_determines_witness:
  "\<exists>c d. workflow_to_cid flow_deps (arg_into flow_deps ex_wasm) ex_flow = Ok c \<and>
         workflow_to_cid flow_deps (arg_into flow_deps ex_wasm) ex_flow1 = Ok d \<and>
         c \<noteq> d \<and> ex_flow \<noteq> ex_flow1"
  using workflow_cid_determines [of flow_deps "arg_into flow_deps ex_wasm" arg_from ex_flow ex_flow1,
      OF _ _ _ _ flow_cids]
  by (auto simp: flow_deps_def ex_flow_exact ex_flow1_exact collision_free_def new_v1_def flow_cids [unfolded flow_deps_def])

section \<open>Resolution of promises and links\<close>

text \<open>
  The case distinctions of \<open>resolve_links\<close> on maps, lists and single links amount to one
  substitution of the links by what the lookup returns for them, and the result is a
  well-formed value whenever the values of tasks are.
\<close>
lemma resolve_links_is_substitution:
  assumes "wf_ipld x" and "\<And>t. wf_ipld (into t)"
  shows "resolve_links into f x = subst_links (link_value into f) None x \<and> wf_ipld (resolve_links into f x)"
  using resolve_links_subst [OF assms(1)] resolve_links_wf [OF assms] by (rule conjI)

definition ex_lookup :: "cid \<Rightarrow> string + ipld instruction_result" where
  "ex_lookup c = (if c = ex_cid then Ok (IrOk (IInteger 5)) else Err ''unknown'')"

text \<open>The promises arguments wait for: deferred ones, and literals that read as an await.\<close>

definition waits :: "deps \<Rightarrow> 't args \<Rightarrow> cid set" where
  "waits D a =
     {c. \<exists>i \<in> set (args_inner a). \<exists>p. c = instruction_cid p \<and>
           (i = Deferred p \<or> (\<exists>x. i = InputIpld x \<and> await_try_from D x = Ok p))}"

lemma deferreds_set: "set (deferreds a) = {instruction_cid p | p. Deferred p \<in> set (args_inner a)}"
proof -
  have "set (List.map_filter (\<lambda>i. case i of Deferred a \<Rightarrow> Some (instruction_cid a) | _ \<Rightarrow> None) is) =
    {instruction_cid p | p. Deferred p \<in> set is}" for "is" :: "'a input list"
    by (induction "is") (auto simp: List.map_filter_simps split: input.splits)
  then show ?thesis by (simp add: deferreds_def)
qed

lemma input_resolve_eq_Deferred:
  "input_resolve D into f i = Deferred p \<longleftrightarrow>
     (\<exists>e. f (instruction_cid p) = Err e) \<and>
     (i = Deferred p \<or> (\<exists>x. i = InputIpld x \<and> await_try_from D x = Ok p))"
  by (auto simp: input_resolve_def split: input.splits sum.splits)

text \<open>
  C28. Resolving arguments removes exactly the promises the lookup answers: what a resolved
  argument list still waits for is what it waited for before, less those.
\<close>
theorem args_resolve_deferreds:
  assumes "args_resolve D into f a = Ok b"
  shows "set (deferreds b) = {c \<in> waits D a. \<exists>e. f c = Err e}"
proof -
  have b: "args_inner b = map (input_resolve D into f) (args_inner a)"
    using assms by (auto simp: args_resolve_def resolve_args_def)
  have "Deferred p \<in> set (args_inner b) \<longleftrightarrow> (\<exists>i \<in> set (args_inner a). input_resolve D into f i = Deferred p)" for p
    unfolding b by (auto simp: image_iff) metis+
  then show ?thesis
    unfolding deferreds_set waits_def input_resolve_eq_Deferred by blast
qed

theorem args_resolve_deferreds_witness:
  "\<exists>b. args_resolve (ex_deps []) id ex_lookup
         (Args [Deferred \<lparr>aw_instruction = Pointer ex_cid, aw_result = AwaitOk\<rparr>,
                Deferred \<lparr>aw_instruction = Pointer (Cid 0 0 (Multihash 0 [])), aw_result = AwaitOk\<rparr>]) = Ok b \<and>
       set (deferreds b) = {Cid 0 0 (Multihash 0 [])}"
proof -
  obtain b where b: "args_resolve (ex_deps []) id ex_lookup
      (Args [Deferred \<lparr>aw_instruction = Pointer ex_cid, aw_result = AwaitOk\<rparr>,
             Deferred \<lparr>aw_instruction = Pointer (Cid 0 0 (Multihash 0 [])), aw_result = AwaitOk\<rparr>]) = Ok b"
    by (simp add: args_resolve_def)
  with args_resolve_deferreds [OF b] show ?thesis
    by (auto simp: waits_def instruction_cid_def ex_lookup_def ex_cid_def)
qed

text \<open>
  Every map with one key and a link as its value is taken for a promise, whatever the key
  is: in an argument list it is read as a deferred input, and resolving a literal of this
  form replaces the whole map by the result of the instruction.
\<close>
lemma await_any_key:
  assumes "serde_ok D" and "k \<noteq> OK_BRANCH" and "k \<noteq> ERR_BRANCH" and "f c = Ok r"
  shows "args_try_from D from (IList [IMap [(k, ILink c)]]) =
      Ok (Args [Deferred \<lparr>aw_instruction = Pointer c, aw_result = AwaitPtr\<rparr>]) \<and>
    input_resolve D into f (InputIpld (IMap [(k, ILink c)])) = Arg r"
proof -
  have "await_try_from D (IMap [(k, ILink c)]) = Ok \<lparr>aw_instruction = Pointer c, aw_result = AwaitPtr\<rparr>"
    using assms(1-3) by (simp add: await_try_from_eq_Ok instruction_cid_def)
  then show ?thesis
    using assms(4)
    by (simp_all add: args_try_from_eq_Ok args_item_def ir_try_from_def input_resolve_def instruction_cid_def)
qed

section \<open>Abilities and resource limits\<close>

lemma trim_padded:
  assumes "\<forall>c \<in> set l. is_whitespace c" and "\<forall>c \<in> set r. is_whitespace c"
  shows "trim (l @ s @ r) = trim s"
proof -
  have l: "dropWhile is_whitespace (l @ t) = dropWhile is_whitespace t" for t
    using assms(1) by (simp add: dropWhile_append2)
  have "dropWhile is_whitespace (rev (dropWhile is_whitespace (s @ r))) =
    dropWhile is_whitespace (rev (dropWhile is_whitespace s))"
  proof (cases "\<forall>c \<in> set s. is_whitespace c")
    case True
    then have "dropWhile is_whitespace (s @ r) = []" and "dropWhile is_whitespace s = []"
      using assms(2) by (simp_all only: dropWhile_eq_Nil_conv set_append) auto
    then show ?thesis by (simp only:)
  next
    case False
    then have "dropWhile is_whitespace (s @ r) = dropWhile is_whitespace s @ r"
      by (meson dropWhile_append1)
    moreover have "dropWhile is_whitespace (rev r @ t) = dropWhile is_whitespace t" for t
      by (rule dropWhile_append2) (use assms(2) in auto)
    ultimately show ?thesis by simp
  qed
  then show ?thesis by (simp add: trim_def l)
qed

text \<open>
  Abilities are compared up to case and surrounding white space: both are removed when an
  ability is built, building is idempotent, and the ability's IPLD form reads back.
\<close>
lemma ability_normalised:
  assumes "serde_ok D" and "\<forall>c \<in> set l \<union> set r. is_whitespace c"
  shows "ability_from (l @ s @ r) = ability_from s \<and>
    ability_from (to_lowercase s) = ability_from s \<and>
    ability_from (ability_str (ability_from s)) = ability_from s \<and>
    ability_try_from D (ability_into (ability_from s)) = Ok (ability_from s)"
proof (intro conjI)
  show "ability_from (l @ s @ r) = ability_from s"
    using assms(2) by (simp add: ability_from_def trim_padded)
  show "ability_from (to_lowercase s) = ability_from s"
    by (simp add: ability_from_def trim_lower) (simp add: to_lowercase_def lower_char_idem)
  show "ability_from (ability_str (ability_from s)) = ability_from s"
    using ability_from_normal by (simp add: ability_normal_def)
  show "ability_try_from D (ability_into (ability_from s)) = Ok (ability_from s)"
    using assms(1) ability_from_normal ability_codec.try_from_into by blast
qed

end
