(* ===== verification/Run_Example.thy ===== *)
theory Run_Example
  imports Worker Core_Correct
begin

text \<open>
  A run of the workflow of two tasks, the second of which awaits the result of the first: the
  graph that is built for it, the scheduler, and the states the worker goes through. It
  instantiates every parameter, and the properties of the run are applied to it.
\<close>

section \<open>Example data\<close>

text \<open>The CID of the \<open>k\<close>-th value of a table of encodings.\<close>

definition nth_cid :: "nat \<Rightarrow> cid" where
  "nth_cid k = new_v1 DAG_CBOR (Multihash 0x16 (replicate k 0))"

lemma nth_cid_eq [simp]: "nth_cid i = nth_cid j \<longleftrightarrow> i = j"
  by (simp add: nth_cid_def new_v1_def replicate_eq_replicate)

lemma ex_cid_from_str [simp]: "cid_from_str (ex_deps xs) (cid_text c) = Ok c"
  by (simp add: ex_deps_def)

definition ex_vertex :: "arg instruction \<Rightarrow> vertex" where
  "ex_vertex i = \<lparr>v_instruction = i, v_parsed = \<lparr>parsed_args = Args [], parsed_fun = Some ''add_one''\<rparr>,
     v_invocation = Pointer (nth_cid 7)\<rparr>"

definition ex_node :: "nat \<Rightarrow> arg instruction \<Rightarrow> node" where
  "ex_node k i = node_new (ex_vertex i) (cid_text (nth_cid k)) k"

definition ex_rt_receipt :: "nat \<Rightarrow> nat \<Rightarrow> rt_receipt" where
  "ex_rt_receipt c k =
     \<lparr>r_cid = Pointer (nth_cid c), r_ran = Pointer (nth_cid 7), r_instruction = Pointer (nth_cid k),
      r_out = IrOk (IInteger 2), r_meta = INull, r_issuer = None, r_prf = UcanPrf [], r_version = ''0''\<rparr>"

definition ex_db :: "rt_receipt list \<Rightarrow> database" where
  "ex_db rs = \<lparr>t_receipts = rs, t_workflows = [], t_workflows_receipts = []\<rparr>"

lemmas ex_sched_defs = ex_node_def node_new_def ex_db_def find_instruction_pointers_def
  drop_one_def link_receipt_def ex_rt_receipt_def fold_pointers.simps resume_loop.simps

section \<open>A run of two tasks\<close>

text \<open>
  A host whose function adds one, the encoder that knows the two instructions and the two
  receipts, and the states the run of the two tasks goes through.
\<close>

definition ex_host :: "(bytes, bytes) wasm_host" where
  "ex_host =
     \<lparr>parse_is_component = (\<lambda>_. Ok True), component_from_binary = Ok, encode_module = Ok,
      wat_parse_bytes = Ok, instantiate_async = Ok,
      export_func = (\<lambda>_ f. if f = ''add_one''
        then Some \<lparr>func_params = [TS32], func_results = [TS32],
          call_returns = (\<lambda>_. True),
          call_async = (\<lambda>ps rs. case ps of [VS32 v] \<Rightarrow> Ok [VS32 (v + 1)] | _ \<Rightarrow> Err ''trap''),
          post_return_async = Ok ()\<rparr>
        else None),
      to_kebab_case = id, to_snake_case = id\<rparr>"

definition ex_engine :: engine_host where
  "ex_engine =
     \<lparr>engine_new = Ok (), wasi_add_to_linker = Ok (), imports_add_to_linker = Ok (),
      store_set_fuel = (\<lambda>_. Ok ()), fuel_async_yield_interval = (\<lambda>_. Ok ())\<rparr>"

text \<open>The store a task gets: that of \<open>World::default\<close> on the default state.\<close>

definition task_store :: wasm_store where
  "task_store = store_new False (state_default 0)"

lemma ex_context: "wasm_context_new ex_engine (state_default 0) = Ok (env_new task_store)"
  by (simp add: wasm_context_new_def world_default_def setup_store_def ex_engine_def task_store_def)

definition run_receipt :: "nat \<Rightarrow> int \<Rightarrow> invocation_receipt" where
  "run_receipt k v = \<lparr>ran = Pointer (nth_cid (4 + k)), out = IrOk (IInteger v),
     meta = IMap (bt_from [(OP_KEY, IString ''add_one'')]), issuer = None, proof_links = UcanPrf []\<rparr>"

definition add_ipld :: ipld where
  "add_ipld = instruction_into (ex_deps []) (\<lambda>_. INull) ex_add"

definition next_ipld :: ipld where
  "next_ipld = instruction_into (ex_deps []) (\<lambda>_. INull) ex_next"

definition run_receipt_ipld :: "nat \<Rightarrow> int \<Rightarrow> ipld" where
  "run_receipt_ipld k v = receipt_into (ex_deps []) (run_receipt k v)"

definition inv_ipld :: "nat \<Rightarrow> ipld" where
  "inv_ipld k = invocation_into (ex_deps []) (\<lambda>_. INull) \<lparr>inv_task = tasks ex_flow ! k\<rparr>"

lemmas run_ipld_defs = add_ipld_def next_ipld_def run_receipt_ipld_def inv_ipld_def

definition run_table :: "ipld list" where
  "run_table = [add_ipld, next_ipld, run_receipt_ipld 0 2, run_receipt_ipld 1 3, inv_ipld 0, inv_ipld 1]"

definition run_deps :: deps where "run_deps = ex_deps run_table"

definition run_args :: "nat \<Rightarrow> arg args" where
  "run_args k = Args [if k = 0 then InputIpld (IInteger 1)
     else Deferred \<lparr>aw_instruction = Pointer (nth_cid 0), aw_result = AwaitPtr\<rparr>]"

definition run_node :: "nat \<Rightarrow> node" where
  "run_node k = (node_new
     \<lparr>v_instruction = (if k = 0 then ex_add else ex_next),
      v_parsed = \<lparr>parsed_args = run_args k, parsed_fun = Some ''add_one''\<rparr>,
      v_invocation = Pointer (nth_cid (4 + k))\<rparr> (cid_text (nth_cid k)) k)\<lparr>n_reads := [0..<k]\<rparr>"

definition run_sched :: schedule where "run_sched = [[run_node 0], [run_node 1]]"

definition run_url :: resource where "run_url = RscUrl (Url ''ipfs://add.wasm'')"

definition run_info :: info where
  "run_info = \<lparr>i_cid = nth_cid 20, i_name = None, i_num_tasks = 2, i_progress = [], i_progress_count = 0,
     i_resources = [(nth_cid 0, [run_url]), (nth_cid 1, [run_url])]\<rparr>"

definition example_worker :: worker where
  "example_worker = \<lparr>wk_graph = \<lparr>g_schedule = run_sched, g_resources = i_resources run_info\<rparr>,
     wk_name = ''run'', wk_info = run_info, wk_started = 0\<rparr>"

definition run_db :: database where
  "run_db = \<lparr>t_receipts = [],
     t_workflows = [stored_new (Pointer (nth_cid 20)) None 2 (i_resources run_info) 0],
     t_workflows_receipts = []\<rparr>"

definition run_fetch :: "resource set \<Rightarrow> anyhow + fetched" where
  "run_fetch asked = Ok (if run_url \<in> asked then [(run_url, [1])] else [])"

definition run_net :: net_deps where
  "run_net = \<lparr>peer_to_string = (\<lambda>_. ''peer''), show_anyhow = (\<lambda>_. ''error''), show_recv = (\<lambda>_. ''timed out''),
     ipld_get = (\<lambda>x k. case x of IMap m \<Rightarrow> bt_get m k | _ \<Rightarrow> None),
     from_ipld_i64 = (\<lambda>x. case x of IInteger n \<Rightarrow> if - (2 ^ 63) \<le> n \<and> n < 2 ^ 63 then Ok n else Err ''range'' | _ \<Rightarrow> Err ''kind''),
     timestamp_millis = 0\<rparr>"

text \<open>Surroundings in which the database works, and the event channel has room or not.\<close>

definition calm :: "(cid \<Rightarrow> recv_error + response_event) \<Rightarrow> surroundings" where
  "calm net = \<lparr>su_response = net, su_conn = Ok (), su_refused = None, su_room = True\<rparr>"

lemma calm_simps [simp]: "su_response (calm net) = net" "su_conn (calm net) = Ok ()"
  "su_refused (calm net) = None" "su_room (calm net)"
  by (simp_all add: calm_def)

definition run_env :: "(cid \<Rightarrow> recv_error + response_event) \<Rightarrow> (bytes, bytes) worker_env" where
  "run_env net = \<lparr>we_deps = run_deps, we_wasm = ex_wasm, we_net = run_net, we_host = ex_host, we_engine = ex_engine,
     we_around = {calm net, (calm net)\<lparr>su_room := False\<rparr>}, we_sender = 0, we_name = ''run'', we_resources = [(run_url, [1])], we_resume_step = None\<rparr>"

definition run_task_of :: "nat \<Rightarrow> wtask" where
  "run_task_of k = \<lparr>t_wasm = [1], t_fun = ''add_one'', t_args = run_args k, t_instruction = Pointer (nth_cid k),
     t_invocation = Pointer (nth_cid (4 + k)), t_receipt_meta = IMap (bt_from [(OP_KEY, IString ''add_one'')]),
     t_add_meta = additional_meta False run_info ''run'', t_store = task_store\<rparr>"

definition run_stored :: "nat \<Rightarrow> rt_receipt" where
  "run_stored k = rt_receipt_new (nth_cid (2 + k)) (Pointer (nth_cid k)) (run_receipt k (int k + 2))"

text \<open>The state with \<open>n\<close> batches started, of which \<open>k\<close> are joined.\<close>

definition run_state :: "nat \<Rightarrow> nat \<Rightarrow> wtask list \<Rightarrow> (wtask \<times> task_result) list \<Rightarrow> phase \<Rightarrow> worker_state" where
  "run_state n k spawned finished ph =
     \<lparr>ws_batches = drop n run_sched, ws_spawned = spawned, ws_finished = finished,
      ws_waiting = 0,
      ws_linkmap = lock_new (map (\<lambda>i. (nth_cid i, IrOk (ArgIpld (IInteger (int i + 2))))) [0..<k]),
      ws_db = run_db\<lparr>t_receipts := map run_stored [0..<k],
        t_workflows_receipts := map (\<lambda>i. (Pointer (nth_cid 20), Pointer (nth_cid (2 + i)))) [0..<k]\<rparr>,
      ws_info = run_info,
      ws_events = map (\<lambda>i. CapturedReceipt \<lparr>cap_receipt = nth_cid (2 + i), cap_workflow = run_info,
        cap_metadata = Some (additional_meta False run_info ''run'')\<rparr>) [0..<k],
      ws_running = (if n = 0 then [] else [(nth_cid 20, [0..<n])]), ws_handles = n, ws_phase = ph\<rparr>"

lemma ex_into: "instruction_into (ex_deps xs) into ex_add = add_ipld"
  "instruction_into (ex_deps xs) into ex_next = next_ipld"
  "receipt_into (ex_deps xs) (run_receipt k v) = run_receipt_ipld k v"
  "invocation_into (ex_deps xs) into \<lparr>inv_task = tasks ex_flow ! 0\<rparr> = inv_ipld 0"
  "invocation_into (ex_deps xs) into \<lparr>inv_task = tasks ex_flow ! Suc 0\<rparr> = inv_ipld 1"
  by (simp_all add: run_ipld_defs instruction_into_def ex_flow_defs ex_url_to_string receipt_into_def run_receipt_def
      invocation_into_def task_into_def)

definition field_of :: "ipld \<Rightarrow> string \<Rightarrow> ipld option" where
  "field_of x k = (case x of IMap m \<Rightarrow> bt_get m k | _ \<Rightarrow> None)"

lemma run_fields:
  "field_of add_ipld NNC_KEY = Some (IString [])"
  "field_of next_ipld NNC_KEY = Some (nonce_into (Nonce96 (replicate 12 7)))"
  "field_of (run_receipt_ipld k v) NNC_KEY = None"
  "field_of (run_receipt_ipld k v) RAN_KEY = Some (ILink (nth_cid (4 + k)))"
  "field_of (inv_ipld k) NNC_KEY = None" "field_of (inv_ipld k) RAN_KEY = None"
  by (simp_all add: run_ipld_defs invocation_into_def field_of_def instruction_into_def receipt_into_def bt_get_from instruction_keys receipt_keys
      ex_flow_defs run_receipt_def pointer_into_def)

lemma run_ipld_neq:
  "add_ipld \<noteq> next_ipld"
  "add_ipld \<noteq> run_receipt_ipld k v"
  "next_ipld \<noteq> run_receipt_ipld k v"
  using run_fields(1,2) run_fields(3) [of k v] by force+

lemma run_receipt_neq:
  "run_receipt_ipld 0 2 \<noteq> run_receipt_ipld 1 3" "run_receipt_ipld k v \<noteq> inv_ipld l"
  "add_ipld \<noteq> inv_ipld l" "next_ipld \<noteq> inv_ipld l"
proof -
  show "run_receipt_ipld 0 2 \<noteq> run_receipt_ipld 1 3"
  proof
    assume "run_receipt_ipld 0 2 = run_receipt_ipld 1 3"
    then show False using run_fields(4) [of 0 2] run_fields(4) [of 1 3] by simp
  qed
  show "run_receipt_ipld k v \<noteq> inv_ipld l"
    using run_fields(4) [of k v] run_fields(6) [of l] by force
  show "add_ipld \<noteq> inv_ipld l" "next_ipld \<noteq> inv_ipld l"
    using run_fields(1,2) run_fields(5) [of l] by force+
qed

lemma inv_ipld_neq: "inv_ipld 0 \<noteq> inv_ipld 1"
  by (simp add: inv_ipld_def invocation_into_def task_into_def bt_from_def ex_flow_defs task_keys prf_into_def)

lemma run_table_encode:
  "table_encode run_table add_ipld = Ok []"
  "table_encode run_table next_ipld = Ok [0]"
  "table_encode run_table (run_receipt_ipld 0 2) = Ok [0, 0]"
  "table_encode run_table (run_receipt_ipld 1 3) = Ok [0, 0, 0]"
  "table_encode run_table (inv_ipld 0) = Ok [0, 0, 0, 0]"
  "table_encode run_table (inv_ipld 1) = Ok [0, 0, 0, 0, 0]"
  using run_ipld_neq run_receipt_neq inv_ipld_neq
    run_receipt_neq(2) [of 0 2 0] run_receipt_neq(2) [of 1 3 0] run_receipt_neq(2) [of 0 2 1] run_receipt_neq(2) [of 1 3 1]
  by (auto simp: table_encode_def run_table_def)

lemma run_cids:
  "instruction_pointer run_deps into ex_add = Ok (Pointer (nth_cid 0))"
  "instruction_pointer run_deps into ex_next = Ok (Pointer (nth_cid 1))"
  "receipt_to_cid run_deps (run_receipt 0 2) = Ok (nth_cid 2)"
  "receipt_to_cid run_deps (run_receipt 1 3) = Ok (nth_cid 3)"
  "invocation_pointer run_deps into \<lparr>inv_task = tasks ex_flow ! 0\<rparr> = Ok (Pointer (nth_cid 4))"
  "invocation_pointer run_deps into \<lparr>inv_task = tasks ex_flow ! Suc 0\<rparr> = Ok (Pointer (nth_cid 5))"
  using run_table_encode
  by (simp_all add: instruction_pointer_def instruction_to_cid_def receipt_to_cid_def to_cid_def run_deps_def invocation_pointer_def
      ex_encode ex_into ex_sha nth_cid_def numeral_eq_Suc)

lemma ex_select: "rsc ex_add = Url ''ipfs://add.wasm''" "op ex_add = Ability ''wasm/run''"
  "rsc ex_next = Url ''ipfs://add.wasm''" "op ex_next = Ability ''wasm/run''"
  by (simp_all add: ex_flow_defs)

lemma run_prepare:
  "prepare_batch run_deps ex_wasm ex_engine run_info ''run'' [(run_url, [1])] [run_node 0] = Ok [run_task_of 0]"
  "prepare_batch run_deps ex_wasm ex_engine run_info ''run'' [(run_url, [1])] [run_node 1] = Ok [run_task_of 1]"
  by (simp_all add: prepare_task_def run_node_def node_new_def registered_ability_def WASM_OP_def ability_str_def
      run_cids run_task_of_def run_url_def ex_select ex_context env_new_def)

lemma run_parse:
  "arg_parse run_deps (input ex_add) = Ok \<lparr>parsed_args = run_args 0, parsed_fun = Some ''add_one''\<rparr>"
  "arg_parse run_deps (input ex_next) = Ok \<lparr>parsed_args = run_args (Suc 0), parsed_fun = Some ''add_one''\<rparr>"
  by (simp_all add: arg_parse_def ex_flow_defs run_deps_def ex_deps_def args_try_from_def args_item_def
      run_args_def parsed_with_fn_def ir_try_from_def await_try_from_def pointer_try_from_def branch_defs
      ex_cid_def nth_cid_def new_v1_def)

lemma run_tasks: "run (tasks ex_flow ! 0) = Expanded ex_add" "run (tasks ex_flow ! Suc 0) = Expanded ex_next"
  by (simp_all add: ex_flow_def task_new_def task_new_with_cause_def)

lemma run_instruction_cids:
  "rt_instruction_cid run_deps ex_wasm (tasks ex_flow ! 0) = Ok (nth_cid 0)"
  "rt_instruction_cid run_deps ex_wasm (tasks ex_flow ! Suc 0) = Ok (nth_cid 1)"
  using run_cids(1,2) [of "arg_into run_deps ex_wasm"]
  by (simp_all add: rt_instruction_cid_def task_instruction_cid_def run_tasks instruction_pointer_def result_simps)

lemma run_aot_task:
  "aot_task run_deps ex_wasm [(nth_cid 0, 0), (nth_cid 1, 1)] (0, tasks ex_flow ! 0) =
     Ok \<lparr>it_cid = nth_cid 0, it_index = 0, it_vertex = n_vertex (run_node 0), it_reads = []\<rparr>"
  "aot_task run_deps ex_wasm [(nth_cid 0, 0), (nth_cid 1, 1)] (Suc 0, tasks ex_flow ! Suc 0) =
     Ok \<lparr>it_cid = nth_cid 1, it_index = 1, it_vertex = n_vertex (run_node 1), it_reads = [0]\<rparr>"
  by (simp_all add: aot_task_def run_instruction_cids run_cids run_tasks run_parse run_node_def node_new_def
      deferreds_def run_args_def List.map_filter_simps instruction_cid_def)

lemma run_graph:
  "graph run_deps ex_wasm ex_schedule ex_flow = Ok (wk_graph example_worker)"
proof -
  have t: "enumerate 0 (tasks ex_flow) = [(0, tasks ex_flow ! 0), (Suc 0, tasks ex_flow ! Suc 0)]"
    by (simp add: ex_flow_def)
  have table: "lookup_table run_deps ex_wasm ex_flow = Ok [(nth_cid 0, 0), (nth_cid 1, 1)]"
    by (simp add: lookup_table_def t run_instruction_cids)
  have shown: "cid_to_string run_deps c = cid_text c" for c
    by (simp add: run_deps_def ex_deps_def)
  have "aot run_deps ex_wasm ex_flow = Ok \<lparr>aot_dag = [run_node 1, run_node 0], aot_resources = i_resources run_info\<rparr>"
    using run_aot_task
    by (simp add: aot_def table t aot_step_def add_item_def add_resources_def aot_empty_def item_node_def shown
        add_unawait_def run_info_def run_url_def links_def run_args_def List.map_filter_simps im_or_insert_def
        run_node_def node_new_def ex_select)
  then show ?thesis
    by (simp add: graph_def ex_schedule_def in_order_def example_worker_def run_sched_def run_node_def node_new_def
        less_Suc_eq numeral_2_eq_2)
qed

lemma run_start: "worker_run run_deps ex_wasm example_worker (Ok ()) run_fetch [] 0 run_db =
  Ok (\<lparr>sch_linkmap = [], sch_ran = None, sch_run = run_sched, sch_resume_step = None,
       sch_resources = [(run_url, [1])]\<rparr>, run_state 0 0 [] [] Running)"
  by (simp add: worker_run_def example_worker_def scheduler_init_def run_sched_def run_node_def ex_sched_defs run_info_def
      run_deps_def run_db_def run_fetch_def run_queue_start_def run_state_def replay_events_def ran_length_def)

lemma run_env_simps [simp]:
  "we_deps (run_env net) = run_deps" "we_wasm (run_env net) = ex_wasm" "we_net (run_env net) = run_net"
  "we_host (run_env net) = ex_host" "we_engine (run_env net) = ex_engine"
  "we_around (run_env net) = {calm net, (calm net)\<lparr>su_room := False\<rparr>}" "we_sender (run_env net) = 0"
  "we_name (run_env net) = ''run''" "we_resources (run_env net) = [(run_url, [1])]"
  "we_resume_step (run_env net) = None"
  by (simp_all add: run_env_def)

lemma run_info_cid [simp]: "i_cid run_info = nth_cid 20"
  by (simp add: run_info_def)

lemma run_handles:
  "append_or_insert c [n..<Suc n] (if n = 0 then [] else [(c, [0..<n])]) = [(c, [0..<Suc n])]"
  by (simp add: append_or_insert_def im_modify_or_insert_def)

lemma run_batch:
  assumes "n < 2"
  shows "wstep (run_env net) (run_state n n [] [] Running) (run_state (Suc n) n [run_task_of n] [] Running)"
proof -
  have b: "drop n run_sched = [run_node n] # drop (Suc n) run_sched"
    using assms by (cases n) (auto simp: run_sched_def)
  have "prepare_batch run_deps ex_wasm ex_engine run_info ''run'' [(run_url, [1])] [run_node n] = Ok [run_task_of n]"
    using assms run_prepare by (cases n) (auto simp del: prepare_batch.simps)
  then show ?thesis
    using wstep.next_batch [of "run_state n n [] [] Running" "[run_node n]" "drop (Suc n) run_sched"
        "run_env net" "[run_task_of n]"] run_handles [of "nth_cid 20" n]
    by (simp add: run_state_def b del: prepare_batch.simps upt_Suc)
qed

lemma run_call:
  "wasm_run run_deps ex_wasm ex_host (env_new task_store) [1] ''add_one'' (Args [InputIpld (IInteger 1)]) = Ok (OutputValue (VS32 2))"
  "wasm_run run_deps ex_wasm ex_host (env_new task_store) [1] ''add_one'' (Args [Arg (IrOk (ArgIpld (IInteger 2)))]) = Ok (OutputValue (VS32 3))"
  by (simp_all add: wasm_run_def instantiate_with_current_env_def component_from_bytes_def world_new_def ex_host_def
      execute_def call_params_def param_of_def env_new_def interface_type_from_def int_or_def try_into_signed_def rv_new_def)

lemma ex_host_returns: "guest_returns D W ex_host (env_new store) bytes f args"
  by (auto simp: guest_returns_def instantiate_with_current_env_def world_new_def ex_host_def result_simps
      split: sum.splits option.splits)

lemma run_not_await: "\<exists>e. await_try_from run_deps (IInteger 1) = Err e"
  by (simp add: await_try_from_def run_deps_def ex_deps_def)

lemma run_stored_select [simp]: "r_cid (run_stored n) = Pointer (nth_cid (2 + n))"
  "r_instruction (run_stored n) = Pointer (nth_cid n)" "r_out (run_stored n) = IrOk (IInteger (int n + 2))"
  "t_add_meta (run_task_of n) = additional_meta False run_info ''run''"
  by (simp_all add: run_stored_def rt_receipt_new_def run_receipt_def run_task_of_def)

lemma run_one_task:
  assumes "n < 2"
  shows "wstep (run_env net) (run_state (Suc n) n [run_task_of n] [] Running)
    (run_state (Suc n) n [] [(run_task_of n, TaskDone (OutputValue (VS32 (of_nat n + 2))))] Running)"
proof -
  let ?s = "run_state (Suc n) n [run_task_of n] [] Running"
  have "run_task run_deps ex_wasm run_net ex_host (calm net) 0 (nth_cid 20) [(run_url, [1])] (run_task_of n)
      (ws_linkmap ?s) (ws_db ?s) = (Some (TaskDone (OutputValue (VS32 (of_nat n + 2)))), ws_linkmap ?s, ws_db ?s, [])"
    using assms run_call run_not_await
    by (cases n) (auto simp: run_task_def run_task_of_def run_args_def lookups_def input_lookups_def
      instruction_cid_def resolve_cid_def run_state_def lock_new_def lock_read_def drop_guard_def args_resolve_def
      resolve_args_def input_resolve_def answer_def ex_host_returns)
  then show ?thesis
    using wstep.run_one [of ?s 0 "calm net" "run_env net"] by (simp add: run_state_def drop_nth_def)
qed

lemma run_join:
  assumes "n < 2"
  shows "wstep (run_env net) (run_state (Suc n) n [] [(run_task_of n, TaskDone (OutputValue (VS32 (of_nat n + 2))))] Running)
    (run_state (Suc n) (Suc n) [] [] Running)"
proof -
  let ?x = "OutputValue (VS32 (of_nat n + 2))"
  let ?s = "run_state (Suc n) n [] [(run_task_of n, TaskDone ?x)] Running"
  have "task_receipt run_deps ex_wasm (run_task_of n) ?x = Ok (run_stored n)"
    using assms run_cids by (cases n) (auto simp: task_receipt_def try_with_def run_task_of_def run_stored_def run_receipt_def)
  moreover have "commit_receipt (nth_cid 20) (run_stored n) (ws_db ?s) =
      (Ok (run_stored n), ws_db (run_state (Suc n) (Suc n) [] [] Running))"
    using assms by (cases n) (auto simp: commit_receipt_cases run_state_def run_db_def stored_new_def)
  moreover have "i_cid run_info = nth_cid 20" by simp
  ultimately have "join_task (run_env net) (calm net) (run_task_of n) ?x ?s =
      Some (Ok ((run_state (Suc n) (Suc n) [] [] Running)\<lparr>ws_finished := [(run_task_of n, TaskDone ?x)]\<rparr>))"
    using assms by (cases n) (auto simp: join_task_def run_state_def lock_write_def lock_new_def lock_free_def
        bump_progress_def arg_from_def commit_on_def)
  then show ?thesis
    using wstep.join_ok [of ?s 0 "run_task_of n" ?x "calm net" "run_env net"] by (simp add: run_state_def drop_nth_def)
qed

lemma run_seven: "(wstep (run_env net) ^^ 7) (run_state 0 0 [] [] Running) (run_state 2 2 [] [] (Returned (Ok ())))"
proof -
  have task: "(wstep (run_env net) ^^ 3) (run_state n n [] [] Running) (run_state (Suc n) (Suc n) [] [] Running)"
    if "n < 2" for n
    unfolding numeral_3_eq_3
    using run_batch [OF that, of net] run_one_task [OF that, of net] run_join [OF that, of net]
    by (simp add: relcompp_apply) blast
  have last: "(wstep (run_env net) ^^ 1) (run_state (Suc 1) (Suc 1) [] [] Running) (run_state 2 2 [] [] (Returned (Ok ())))"
    using wstep.all_done [of "run_state 2 2 [] [] Running" "run_env net"]
    by (simp add: run_state_def run_sched_def eq_OO numeral_2_eq_2)
  have "(wstep (run_env net) ^^ 3) (run_state 0 0 [] [] Running) (run_state 1 1 [] [] Running)"
    using task [of 0] by simp
  from relpowp_trans [OF relpowp_trans [OF this task [of 1]] last] show ?thesis by simp
qed

lemma run_path: "wsteps (run_env net) (run_state 0 0 [] [] Running) (run_state 2 2 [] [] (Returned (Ok ())))"
  using run_seven relpowp_imp_rtranclp by fast

text \<open>No task fails on the way.\<close>

lemma run_not_failed [simp]:
  "\<not> some_failed (run_state n k sp [] ph)" "\<not> some_failed (run_state n k sp [(t, TaskDone x)] ph)"
  by (simp_all add: some_failed_def run_state_def)

lemma clean_step: "wstep E s s1 \<Longrightarrow> \<not> some_failed s \<Longrightarrow> clean_steps E s1 s2 \<Longrightarrow> clean_steps E s s2"
  unfolding clean_steps_def by (rule converse_rtranclp_into_rtranclp) simp_all

lemma run_clean_task:
  assumes "n < 2" and "clean_steps (run_env net) (run_state (Suc n) (Suc n) [] [] Running) s"
  shows "clean_steps (run_env net) (run_state n n [] [] Running) s"
  by (rule clean_step [OF run_batch [OF assms(1)]], simp, rule clean_step [OF run_one_task [OF assms(1)]], simp,
      rule clean_step [OF run_join [OF assms(1)]], simp, rule assms(2))

lemma run_clean: "clean_steps (run_env net) (run_state 0 0 [] [] Running) (run_state 2 2 [] [] (Returned (Ok ())))"
proof -
  have "wstep (run_env net) (run_state 2 2 [] [] Running) (run_state 2 2 [] [] (Returned (Ok ())))"
    using wstep.all_done [of "run_state 2 2 [] [] Running" "run_env net"]
    by (simp add: run_state_def run_sched_def)
  then have "clean_steps (run_env net) (run_state 2 2 [] [] Running) (run_state 2 2 [] [] (Returned (Ok ())))"
    by (rule clean_step) (simp_all add: clean_steps_def)
  then show ?thesis using run_clean_task [of 0 net] run_clean_task [of 1 net] by (simp add: numeral_2_eq_2)
qed

text \<open>The state in which the second task has been spawned.\<close>

lemma run_second: "clean_steps (run_env net) (run_state 0 0 [] [] Running) (run_state 2 1 [run_task_of 1] [] Running)"
proof -
  have "clean_steps (run_env net) (run_state 1 1 [] [] Running) (run_state 2 1 [run_task_of 1] [] Running)"
    using clean_step [OF run_batch [of 1 net]] by (simp add: clean_steps_def numeral_2_eq_2)
  then show ?thesis using run_clean_task [of 0 net] by simp
qed

lemma run_db_inv: "db_inv run_db"
  by (simp add: db_inv_def run_db_def)

lemma run_net_ok: "net_ok run_net"
  by (auto simp: net_ok_def run_net_def split: ipld.splits)

end
