(* ===== verification/Run_Correct.thy ===== *)
theory Run_Correct
  imports Run_Example
begin

text \<open>
  Properties of the scheduler and the worker: how a schedule is split when a run is resumed
  and what is fetched for it, and the invariant, the termination, the completion and the
  failures of a run.
\<close>

section \<open>The scheduler\<close>

text \<open>
  C7. When the scheduler is initialised, the batches that count as done and those to run are
  together the schedule, in order; the numbers of tasks add up; a step to resume from is a
  proper position of the schedule, at which the batches to run start; no batch to run has as
  many receipts as nodes, while the last one that is skipped has; and the link map only holds
  outputs of receipts in the database.
\<close>

theorem scheduler_partition:
  assumes "scheduler_init D g db fetch = Ok s"
  shows "unwrap_or (sch_ran s) [] @ sch_run s = g_schedule g \<and>
    ran_length s + run_length s = length (concat (g_schedule g)) \<and>
    (\<forall>k. sch_resume_step s = Some k \<longrightarrow>
       0 < k \<and> k < length (g_schedule g) \<and> sch_run s = drop k (g_schedule g)) \<and>
    (\<forall>b \<in> set (sch_run s). \<not> batch_done D (g_resources g) db b) \<and>
    (\<forall>bs. sch_ran s = Some bs \<longrightarrow> bs \<noteq> [] \<and> batch_done D (g_resources g) db (last bs)) \<and>
    links_sound db (sch_linkmap s)"
  using assms
proof (cases rule: scheduler_init_Ok)
  case fresh
  then show ?thesis by (simp add: ran_length_def run_length_def last_done_None)
next
  case (resumed k vec)
  have k: "k < length (g_schedule g)" "g_schedule g ! k = vec" "batch_done D (g_resources g) db vec"
    "\<And>j. j < length (g_schedule g) \<Longrightarrow> k < j \<Longrightarrow> \<not> batch_done D (g_resources g) db (g_schedule g ! j)"
    using resumed(1) by (auto simp: last_done_Some)
  have "length (concat (take (k + 1) (g_schedule g))) + length (concat (drop (k + 1) (g_schedule g)))
      = length (concat (g_schedule g))"
    unfolding length_append [symmetric] concat_append [symmetric] append_take_drop_id ..
  moreover have "\<not> batch_done D (g_resources g) db b" if "b \<in> set (drop (k + 1) (g_schedule g))" for b
    using that k(4) by (auto simp: in_set_conv_nth)
  moreover have "last (take (k + 1) (g_schedule g)) = vec"
    using k(1,2) by (simp add: take_Suc_conv_app_nth)
  ultimately show ?thesis
    using resumed k(1,3) by (auto simp: ran_length_def run_length_def links_sound_batch)
qed

definition ex_graph :: execution_graph where
  "ex_graph = \<lparr>g_schedule = [[ex_node 0 ex_add], [ex_node 1 ex_next]],
     g_resources = [(nth_cid 0, [RscUrl (Url ''ipfs://add.wasm'')]), (nth_cid 1, [RscUrl (Url ''ipfs://add.wasm'')])]\<rparr>"

theorem scheduler_partition_witness:
  "\<exists>s. scheduler_init (ex_deps []) ex_graph (ex_db [ex_rt_receipt 5 0]) (\<lambda>_. Ok []) = Ok s \<and>
     sch_ran s = Some [[ex_node 0 ex_add]] \<and> sch_run s = [[ex_node 1 ex_next]] \<and>
     ran_length s + run_length s = 2"
proof -
  obtain s where s: "scheduler_init (ex_deps []) ex_graph (ex_db [ex_rt_receipt 5 0]) (\<lambda>_. Ok []) = Ok s"
    "sch_ran s = Some [[ex_node 0 ex_add]]"
    by (auto simp: scheduler_init_def ex_graph_def ex_sched_defs swap_remove_def)
  from scheduler_partition [OF s(1)] s show ?thesis by (simp add: ex_graph_def)
qed

text \<open>
  The resources asked for in a run include every resource of every task that is to run and has no
  receipt.
\<close>

lemma resource_asked:
  assumes "nodes_known D g" and "scheduler_init D g db fetch = Ok s"
    and "n \<in> set (concat (sch_run s))" and "node_cid D n c" and "no_receipt db c"
    and "im_get (g_resources g) c = Some l" and "r \<in> set l"
  shows "r \<in> fetch_request D g db"
proof -
  obtain k where k: "sch_run s = drop k (g_schedule g)"
    "\<forall>j < length (g_schedule g). k \<le> j \<longrightarrow> \<not> batch_done D (g_resources g) db (g_schedule g ! j)"
    using assms(2)
  proof (cases rule: scheduler_init_Ok)
    case fresh
    then show thesis by (intro that [of 0]) (simp_all add: last_done_None)
  next
    case (resumed k vec)
    then show thesis by (intro that [of "k + 1"]) (simp_all add: last_done_Some)
  qed
  show ?thesis by (rule fetch_complete [OF assms(1) k assms(3-7)])
qed



section \<open>The worker\<close>

lemma worker_run_start:
  assumes "worker_run D W w conn fetch running h db = Ok (sch, s0)"
  shows "scheduler_init D (wk_graph w) db fetch = Ok sch \<and> s0 = run_queue_start D W w sch running h db"
  using assms by (auto simp: worker_run_def result_simps split: sum.splits)

text \<open>
  C1. However the tasks of a run interleave: the constraints of the database hold, receipts are
  only added, and every receipt that is announced is stored and recorded for the workflow. Every
  entry of the link map is the output of a stored receipt of its instruction, or of a receipt that
  was computed for a task and that the database did not take because it has another one with the
  same CID. The announced workflow information always lists the receipts that were there at the
  start.
\<close>

theorem worker_invariant:
  assumes "db_inv db" and "worker_run D W w conn fetch running h db = Ok (sch, s0)" and "wsteps E s0 s"
  shows "db_inv (ws_db s) \<and> set (t_receipts db) \<subseteq> set (t_receipts (ws_db s)) \<and>
    (\<forall>cap. CapturedReceipt cap \<in> set (ws_events s) \<longrightarrow>
       (\<exists>r \<in> set (t_receipts (ws_db s)). r_cid r = Pointer (cap_receipt cap)) \<and>
       (Pointer (i_cid (wk_info w)), Pointer (cap_receipt cap)) \<in> set (t_workflows_receipts (ws_db s))) \<and>
    (\<forall>c v. im_get (lk_value (ws_linkmap s)) c = Some v \<longrightarrow>
       (\<exists>r \<in> set (t_receipts (ws_db s)). r_instruction r = Pointer c \<and> v = output_as_arg (r_out r)) \<or>
       (\<exists>t x r. task_receipt (we_deps E) (we_wasm E) t x = Ok r \<and> r_instruction r = Pointer c \<and>
          v = output_as_arg (r_out r) \<and> r \<notin> set (t_receipts (ws_db s)) \<and>
          (\<exists>r' \<in> set (t_receipts (ws_db s)). r_cid r' = r_cid r))) \<and>
    i_progress (ws_info s) = i_progress (wk_info w)"
proof -
  have inv: "winv (we_deps E) (we_wasm E) (i_cid (wk_info w)) (i_progress (wk_info w)) db s"
    using worker_run_start [OF assms(2)] winv_start [OF assms(1)] winv_steps [OF assms(3)] by blast
  have links: "(\<exists>r \<in> set (t_receipts (ws_db s)). r_instruction r = Pointer c \<and> v = output_as_arg (r_out r)) \<or>
       (\<exists>t x r. task_receipt (we_deps E) (we_wasm E) t x = Ok r \<and> r_instruction r = Pointer c \<and>
          v = output_as_arg (r_out r) \<and> r \<notin> set (t_receipts (ws_db s)) \<and>
          (\<exists>r' \<in> set (t_receipts (ws_db s)). r_cid r' = r_cid r))"
    if "im_get (lk_value (ws_linkmap s)) c = Some v" for c v
  proof -
    from that inv obtain r where r: "r_instruction r = Pointer c" "v = output_as_arg (r_out r)"
      "r \<in> set (t_receipts (ws_db s)) \<or> displaced (we_deps E) (we_wasm E) (ws_db s) r"
      unfolding winv_def links_stored_def by blast
    then show ?thesis unfolding displaced_def by blast
  qed
  moreover have "\<exists>r \<in> set (t_receipts (ws_db s)). r_cid r = Pointer (cap_receipt cap)"
    "(Pointer (i_cid (wk_info w)), Pointer (cap_receipt cap)) \<in> set (t_workflows_receipts (ws_db s))"
    if "CapturedReceipt cap \<in> set (ws_events s)" for cap
    using inv that by (fastforce simp: winv_def db_inv_def captured_recorded_def)+
  ultimately show ?thesis
    using inv unfolding winv_def db_grows_def by blast
qed

text \<open>
  C13. A run makes at most two steps for every task that is to run, one for every batch, and one
  more to return.
\<close>

theorem worker_bounded:
  assumes "worker_run D W w conn fetch running h db = Ok (sch, s0)" and "(wstep E ^^ n) s0 s"
  shows "n \<le> 2 * run_length sch + length (sch_run sch) + 1"
proof -
  have "n + wmeasure s \<le> wmeasure s0"
    using assms(2)
  proof (induction n arbitrary: s)
    case (Suc n)
    then obtain s1 where "(wstep E ^^ n) s0 s1" "wstep E s1 s" by auto
    then show ?case using Suc.IH wstep_decreases by fastforce
  qed simp
  also have "wmeasure s0 \<le> 2 * run_length sch + length (sch_run sch) + 1"
  proof -
    have "sum_list (map (\<lambda>b. 2 * length b + 1) bs) = 2 * length (concat bs) + length bs" for bs :: schedule
      by (induction bs) auto
    then show ?thesis
      using worker_run_start [OF assms(1)]
      by (auto simp: wmeasure_def run_queue_start_def run_length_def)
  qed
  finally show ?thesis by simp
qed

text \<open>
  C12. A run cannot get stuck as long as the network answers no query with a receipt, the functions of
  the fetched modules return, and the event channel has room now and then: from every state the run
  reaches, it can go on to return, and a state without a next step has returned. Without one of the
  conditions it can: a receipt from the network blocks its task, a function that does not return
  its batch, and a full channel the next send.
\<close>

theorem worker_returns:
  assumes "db_inv db" and "worker_run D W w conn fetch running h db = Ok (sch, s0)" and "wsteps E s0 s"
    and "no_network_receipt E" and "modules_return E" and "net \<in> we_around E" and "su_room net"
  shows "(\<exists>s'. wsteps E s s' \<and> ws_phase s' \<noteq> Running) \<and>
    ((\<forall>s'. \<not> wstep E s s') \<longrightarrow> ws_phase s \<noteq> Running)"
proof -
  let ?inv = "winv (we_deps E) (we_wasm E) (i_cid (wk_info w)) (i_progress (wk_info w)) db"
  have s0: "?inv s0" "modules_fetched E s0" "ws_waiting s0 = 0"
    using worker_run_start [OF assms(2)] winv_start [OF assms(1)] by (auto simp: run_queue_start_def modules_fetched_def)
  have reach: "\<exists>s2. wstep E s1 s2" if "wsteps E s0 s1" "ws_phase s1 = Running" for s1
    using wstep_progress [OF winv_steps [OF that(1) s0(1)] that(2) _ assms(6,7)]
      no_wait_steps [OF that(1) assms(4,5) s0] by simp
  have "wsteps E s0 s1 \<Longrightarrow> \<exists>s'. wsteps E s1 s' \<and> ws_phase s' \<noteq> Running" for s1
  proof (induction "wmeasure s1" arbitrary: s1 rule: less_induct)
    case less
    show ?case
    proof (cases "ws_phase s1 = Running")
      case True
      with reach less(2) obtain s2 where s2: "wstep E s1 s2" by blast
      with less wstep_decreases [OF s2] obtain s' where "wsteps E s2 s'" "ws_phase s' \<noteq> Running"
        by (meson rtranclp.rtrancl_into_rtrancl)
      with s2 show ?thesis by (meson converse_rtranclp_into_rtranclp)
    qed auto
  qed
  with assms(3) reach show ?thesis by blast
qed

text \<open>
  C4. When a run in which no task fails returns without an error, every task it prepared from the
  batches to run has a receipt that is recorded for the workflow.
\<close>

theorem worker_completes:
  assumes "worker_run D W w conn fetch running h db = Ok (sch, s0)" and "ws_phase s0 = Running"
    and "clean_steps E s0 s" and "ws_phase s = Returned (Ok ())"
  shows "\<forall>b \<in> set (sch_run sch). \<exists>ts. prepared E (wk_info w) b = Ok ts \<and>
            (\<forall>t \<in> set ts. recorded E (i_cid (wk_info w)) (ws_db s) t)"
proof -
  have s0: "ws_batches s0 = sch_run sch" "ws_info s0 = wk_info w"
    using worker_run_start [OF assms(1)] by (auto simp: run_queue_start_def)
  have "completing E s0 s" using completing_steps [OF assms(3)] assms(2) by simp
  then obtain past current where st: "sch_run sch = past @ current" "i_cid (ws_info s) = i_cid (wk_info w)"
    "\<forall>b \<in> set past. \<exists>ts. prepared E (wk_info w) b = Ok ts \<and> (\<forall>t \<in> set ts. settled E s t)"
    "\<forall>b \<in> set current. \<exists>ts. prepared E (wk_info w) b = Ok ts \<and> (\<forall>t \<in> set ts. settled E s t)"
    using assms(4) s0 by (auto simp: completing_def accounted_def)
  have "\<exists>ts. prepared E (wk_info w) b = Ok ts \<and> (\<forall>t \<in> set ts. settled E s t)" if "b \<in> set (sch_run sch)" for b
    using that st by auto
  with st(2) show ?thesis unfolding settled_def by metis
qed

text \<open>The receipts that are announced among some events, in order.\<close>

fun announced :: "event list \<Rightarrow> cid list" where
  "announced [] = []"
| "announced (CapturedReceipt cap # evs) = cap_receipt cap # announced evs"
| "announced (_ # evs) = announced evs"

lemma announced_append [simp]: "announced (xs @ ys) = announced xs @ announced ys"
  by (induction xs rule: announced.induct) simp_all

lemma announced_none: "(\<And>cap. CapturedReceipt cap \<notin> set evs) \<Longrightarrow> announced evs = []"
  by (induction evs rule: announced.induct) auto

text \<open>The run is blocked by a task that waits for the lock.\<close>

definition blocked_at :: "schedule \<Rightarrow> cid list \<Rightarrow> worker_state \<Rightarrow> bool" where
  "blocked_at bs as s \<longleftrightarrow>
     0 < ws_waiting s \<and> lk_queued (ws_linkmap s) \<and> ws_batches s = bs \<and> announced (ws_events s) = as \<and>
     ws_phase s \<noteq> Returned (Ok ())"

lemma run_blocked_step:
  assumes "wstep E s s'" and "\<not> some_failed s" and "blocked_at bs as s"
  shows "blocked_at bs as s'"
  using assms(1)
proof cases
  case (run_one i net r lm db evs)
  with run_task_Some [OF run_one(5)] assms(3) show ?thesis by (simp add: blocked_at_def announced_none)
next
  case (run_waits i net lm db evs)
  with run_task_effects [OF run_waits(5)] assms(3) show ?thesis by (auto simp: blocked_at_def announced_none)
next
  case (join_ok i t x net s1)
  then have "lock_free (ws_linkmap s)" by (elim join_task_Ok)
  with assms(3) show ?thesis by (simp add: blocked_at_def lock_free_def)
next
  case (join_failed i t)
  with assms(2) nth_mem [OF join_failed(3)] show ?thesis by (auto simp: some_failed_def)
qed (use assms(3) in \<open>auto simp: blocked_at_def\<close>)

lemma run_blocked_steps: "clean_steps E s s' \<Longrightarrow> blocked_at bs as s \<Longrightarrow> blocked_at bs as s'"
  unfolding clean_steps_def by (induction rule: rtranclp_induct) (auto intro: run_blocked_step)

text \<open>
  C33. A task whose first lookup is answered by a receipt from the network never finishes: the
  receipt is committed, but inserting its output waits for the read guard that the lookup itself
  holds. From then on, as long as no task of the batch fails, the run goes no further: no result
  is joined or announced any more, no other batch is started, and the run does not return unless
  with an error.
\<close>

theorem network_receipt_blocks:
  assumes "ws_phase s = Running" and "i < length (ws_spawned s)" and "t = ws_spawned s ! i"
    and "lock_free (ws_linkmap s)" and "lookups (we_deps E) (t_args t) = c # cs"
    and "im_get (lk_value (ws_linkmap s)) c = None" and "im_get (we_resources E) (RscCid c) = None"
    and "no_receipt (ws_db s) c" and "net \<in> we_around E" and "su_conn net = Ok u" and "su_refused net = None"
    and "su_room net" and "su_response net c = Ok (Found (Ok (FoundReceipt p r ty)))"
  shows "\<exists>s'. wstep E s s' \<and> ws_phase s' = Running \<and> ws_spawned s' = drop_nth i (ws_spawned s) \<and>
    ws_db s' = snd (commit_receipt (i_cid (ws_info s)) r (ws_db s)) \<and>
    (\<forall>s''. clean_steps E s' s'' \<longrightarrow>
       ws_batches s'' = ws_batches s \<and> announced (ws_events s'') = announced (ws_events s) \<and>
       ws_phase s'' \<noteq> Returned (Ok ()))"
proof -
  let ?run = "run_task (we_deps E) (we_wasm E) (we_net E) (we_host E) net (we_sender E)
    (i_cid (ws_info s)) (we_resources E) t (ws_linkmap s) (ws_db s)"
  let ?lm = "lock_queue ((ws_linkmap s)\<lparr>lk_readers := lk_readers (ws_linkmap s) + 1\<rparr>)"
  let ?db = "snd (commit_receipt (i_cid (ws_info s)) r (ws_db s))"
  let ?ev = "[FindRecord \<lparr>q_cid = c, q_capsule = CapsuleReceipt, q_sender = Some (we_sender E)\<rparr>]"
  let ?s = "s\<lparr>ws_spawned := drop_nth i (ws_spawned s), ws_waiting := ws_waiting s + 1, ws_linkmap := ?lm, ws_db := ?db,
    ws_events := ws_events s @ ?ev\<rparr>"
  have "find_instruction_by_cid c (ws_db s) = Err NotFound"
    using assms(8) unfolding find_instruction_by_cid_def first_row_filter_Err no_receipt_def by blast
  then have "resolve_cid (we_deps E) (we_net E) net (we_sender E) (i_cid (ws_info s))
      (we_resources E) c (ws_linkmap s) (ws_db s) = (Waiting, ?lm, ?db, ?ev)"
    using assms(4,6,7,10,11,13) by (simp add: resolve_cid_def lock_read_def lock_free_def insert_into_map_def
        lock_write_def on_db_def commit_on_def split_beta)
  then have "?run = (None, ?lm, ?db, ?ev)" by (simp add: run_task_def assms(5))
  then have step: "wstep E s ?s"
    using wstep.run_waits [OF assms(1,2,9), of ?lm ?db ?ev] assms(3,12) by simp
  have blocked: "blocked_at (ws_batches s) (announced (ws_events s)) ?s"
    using assms(1) by (simp add: blocked_at_def lock_queue_def)
  have "ws_batches s'' = ws_batches s \<and> announced (ws_events s'') = announced (ws_events s) \<and>
      ws_phase s'' \<noteq> Returned (Ok ())" if "clean_steps E ?s s''" for s''
    using run_blocked_steps [OF that blocked] by (simp add: blocked_at_def)
  then show ?thesis
    by (intro exI [of _ ?s] conjI step) (simp_all add: assms(1))
qed

text \<open>
  C34. A failed task ends its batch, with the other tasks of the batch dropped and nothing stored,
  but not the run: the next batch is started, and after the last batch the run returns
  without an error.
\<close>

theorem failed_task_continues:
  assumes "ws_phase s = Running" and "(t, TaskFailed) \<in> set (ws_finished s)"
  shows "(\<forall>b bs ts. ws_batches s = b # bs \<and> prepared E (ws_info s) b = Ok ts \<longrightarrow>
            (\<exists>s'. wsteps E s s' \<and> ws_spawned s' = ts \<and> ws_finished s' = [] \<and> ws_batches s' = bs \<and>
                  ws_db s' = ws_db s)) \<and>
         (ws_batches s = [] \<longrightarrow>
            (\<exists>s'. wsteps E s s' \<and> ws_phase s' = Returned (Ok ()) \<and> ws_db s' = ws_db s))"
proof -
  let ?s = "s\<lparr>ws_spawned := [], ws_finished := [], ws_waiting := 0,
    ws_linkmap := lock_new (lk_value (ws_linkmap s))\<rparr>"
  obtain i where "i < length (ws_finished s)" "ws_finished s ! i = (t, TaskFailed)"
    using assms(2) by (auto simp: in_set_conv_nth)
  then have step: "wstep E s ?s" using assms(1) by (auto intro: wstep.join_failed)
  show ?thesis
  proof (intro conjI allI impI)
    fix b bs ts
    assume "ws_batches s = b # bs \<and> prepared E (ws_info s) b = Ok ts"
    then obtain s' where "wstep E ?s s'" "ws_spawned s' = ts" "ws_finished s' = []" "ws_batches s' = bs"
        "ws_db s' = ws_db s"
      using assms(1) wstep.next_batch [of ?s b bs E ts] by (fastforce simp: prepared_def)
    with step show "\<exists>s'. wsteps E s s' \<and> ws_spawned s' = ts \<and> ws_finished s' = [] \<and> ws_batches s' = bs \<and>
        ws_db s' = ws_db s"
      by (intro exI [of _ s']) (auto intro: converse_rtranclp_into_rtranclp)
  next
    assume "ws_batches s = []"
    then have "\<exists>s'. wstep E ?s s' \<and> ws_phase s' = Returned (Ok ()) \<and> ws_db s' = ws_db s"
      using assms(1) wstep.all_done [of ?s E] by fastforce
    then show "\<exists>s'. wsteps E s s' \<and> ws_phase s' = Returned (Ok ()) \<and> ws_db s' = ws_db s"
      using step by (meson converse_rtranclp_into_rtranclp r_into_rtranclp)
  qed
qed

text \<open>
  What a lookup answers is the entry of the link map, else the fetched bytes, else the output
  of a receipt of the instruction in the database; it leaves the link map and the database as they
  were.
\<close>

lemma resolve_cid_sources:
  assumes "resolve_cid D N net tx w rscs c lm db = (Resolved v, lm', db', evs)"
  shows "lm' = lm \<and> db' = db \<and>
    (case im_get (lk_value lm) c of
       Some v' \<Rightarrow> v = v'
     | None \<Rightarrow>
         (case im_get rscs (RscCid c) of
            Some b \<Rightarrow> v = IrOk (ArgIpld (IBytes b))
          | None \<Rightarrow> \<exists>r \<in> set (t_receipts db). r_instruction r = Pointer c \<and> v = output_as_arg (r_out r)))"
  using assms
proof (cases rule: resolve_cid_cases)
  case (known v')
  then show ?thesis by auto
qed simp_all

section \<open>The properties on the run of two tasks\<close>

theorem worker_invariant_witness:
  "db_inv (ws_db (run_state 2 2 [] [] (Returned (Ok ())))) \<and>
   (\<exists>r \<in> set (t_receipts (ws_db (run_state 2 2 [] [] (Returned (Ok ()))))). r_cid r = Pointer (nth_cid 3))"
  using worker_invariant [OF run_db_inv run_start run_path [of "\<lambda>_. Err RecvTimeout"]]
  by (fastforce simp: run_state_def numeral_2_eq_2 numeral_3_eq_3)

theorem worker_bounded_witness:
  "\<exists>s. (wstep (run_env (\<lambda>_. Err RecvTimeout)) ^^ 7) (run_state 0 0 [] [] Running) s \<and>
     7 \<le> 2 * length (concat run_sched) + length run_sched + 1"
  using worker_bounded [OF run_start run_seven [of "\<lambda>_. Err RecvTimeout"]]
    run_seven [of "\<lambda>_. Err RecvTimeout"] by (auto simp: run_length_def)

theorem worker_returns_witness:
  "\<exists>s'. wsteps (run_env (\<lambda>_. Err RecvTimeout)) (run_state 0 0 [] [] Running) s' \<and> ws_phase s' \<noteq> Running"
  using worker_returns [OF run_db_inv run_start rtranclp.rtrancl_refl, of "run_env (\<lambda>_. Err RecvTimeout)"
      "calm (\<lambda>_. Err RecvTimeout)"]
  by (simp add: no_network_receipt_def modules_return_def ex_host_returns)

theorem worker_completes_witness:
  "recorded (run_env (\<lambda>_. Err RecvTimeout)) (nth_cid 20) (ws_db (run_state 2 2 [] [] (Returned (Ok ())))) (run_task_of 0) \<and>
   recorded (run_env (\<lambda>_. Err RecvTimeout)) (nth_cid 20) (ws_db (run_state 2 2 [] [] (Returned (Ok ())))) (run_task_of 1)"
proof -
  have "prepared (run_env (\<lambda>_. Err RecvTimeout)) run_info [run_node n] = Ok [run_task_of n]" if "n < 2" for n
    using that run_prepare by (cases n) (auto simp: prepared_def simp del: prepare_batch.simps)
  from this [of 0] this [of 1] worker_completes [OF run_start _ run_clean [of "\<lambda>_. Err RecvTimeout"]] show ?thesis
    by (simp add: run_state_def example_worker_def run_sched_def)
qed

text \<open>The second task alone, when the network has the receipt of the first.\<close>

definition found_net :: "cid \<Rightarrow> recv_error + response_event" where
  "found_net c = Ok (Found (Ok (FoundReceipt None (run_stored 0) (SwarmNotification GotReceiptDht))))"

theorem network_receipt_blocks_witness:
  "\<exists>s'. wstep (run_env found_net) (run_state 2 0 [run_task_of 1] [] Running) s' \<and> ws_phase s' = Running \<and>
     ws_spawned s' = []"
proof -
  let ?s = "run_state 2 0 [run_task_of 1] [] Running"
  have "lookups run_deps (t_args (run_task_of 1)) = [nth_cid 0]"
    by (simp add: lookups_def run_task_of_def run_args_def input_lookups_def instruction_cid_def)
  then show ?thesis
    using network_receipt_blocks [of ?s 0 "run_task_of 1" "run_env found_net" "nth_cid 0" "[]" "calm found_net" "()" None
        "run_stored 0" "SwarmNotification GotReceiptDht"]
    by (auto simp: run_state_def lock_new_def lock_free_def run_url_def no_receipt_def found_net_def drop_nth_def)
qed

theorem failed_task_continues_witness:
  "\<exists>s'. wsteps (run_env found_net) (run_state 1 0 [] [(run_task_of 0, TaskFailed)] Running) s' \<and>
     ws_spawned s' = [run_task_of 1] \<and> t_receipts (ws_db s') = []"
  using failed_task_continues [of "run_state 1 0 [] [(run_task_of 0, TaskFailed)] Running" "run_task_of 0" "run_env found_net"]
    run_prepare(2)
  by (auto simp: run_state_def run_sched_def prepared_def simp del: prepare_batch.simps)

section \<open>Promises between the tasks of a workflow\<close>

lemma node_instruction:
  assumes "aot D W flow = Ok ctx" and "m \<in> set (aot_dag ctx)" and "n_results m = [j]"
  shows "run (tasks flow ! j) = Expanded (v_instruction (n_vertex m))"
proof -
  from aot_items [OF assms(1)] obtain table its where its: "length its = length (tasks flow)"
    "\<And>i. i < length (tasks flow) \<Longrightarrow> aot_task D W table (i, tasks flow ! i) = Ok (its ! i)"
    "mset (aot_dag ctx) = mset (map (final_node D (concat (map it_reads its))) its)" by blast
  have "m \<in> set (map (final_node D (concat (map it_reads its))) its)"
    using assms(2) unfolding mset_eq_setD [OF its(3)] .
  then obtain i where i: "i < length its" "m = final_node D (concat (map it_reads its)) (its ! i)"
    by (auto simp: in_set_conv_nth)
  have "aot_task D W table (i, tasks flow ! i) = Ok (its ! i)" using its(1,2) i(1) by simp
  with i(2) assms(3) show ?thesis by (auto simp: final_node_simps aot_task_eq_Ok)
qed

lemma prepared_task:
  assumes "prepared E i b = Ok ts" and "m \<in> set b"
    and "registered_ability (ability_str (op (v_instruction (n_vertex m)))) \<noteq> None"
  shows "\<exists>t \<in> set ts. instruction_pointer (we_deps E) (arg_into (we_deps E) (we_wasm E))
    (v_instruction (n_vertex m)) = Ok (t_instruction t)"
  using assms(1,2) unfolding prepared_def
proof (induction b arbitrary: ts)
  case (Cons n b)
  from Cons.prems(1) obtain t ts' where t: "prepare_task (we_deps E) (we_wasm E) (we_engine E) i (we_name E) (we_resources E) n = Ok t"
    "prepare_batch (we_deps E) (we_wasm E) (we_engine E) i (we_name E) (we_resources E) b = Ok ts'"
    "ts = (case t of Some t' \<Rightarrow> t' # ts' | None \<Rightarrow> ts')" by (auto simp: result_simps)
  show ?case
  proof (cases "m = n")
    case True
    have "registered_ability (ability_str (op (v_instruction (n_vertex n)))) = Some WasmRun"
      using assms(3) True by (metis option.exhaust registered_tasks.exhaust)
    with t(1) obtain t' where "t = Some t'" by (auto simp: prepare_task_def result_simps Let_def)
    with t(1,3) True prepare_task_Some show ?thesis by fastforce
  next
    case False
    with Cons.IH [OF t(2)] Cons.prems(2) t(3) show ?thesis by (auto split: option.splits)
  qed
qed simp

lemma cid_pointer:
  assumes "run t = Expanded instr" and "rt_instruction_cid D W t = Ok c"
  shows "instruction_pointer D (arg_into D W) instr = Ok (Pointer c)"
  using assms by (simp add: rt_instruction_cid_def task_instruction_cid_def instruction_pointer_def result_simps)

text \<open>
  C2. In a run that starts from the first batch and in which no task has failed, the promises
  between the tasks of the workflow are kept: as soon as the batch of a task has started, the
  instruction of every \<open>wasm/run\<close> task it awaits is answered from the link map, without any
  effect, and so without asking the network.
\<close>

theorem promises_kept:
  assumes "db_inv db" and "schedule_ok S" and g: "graph D W S flow = Ok (wk_graph w)"
    and run: "worker_run D W w conn fetch running h db = Ok (sch, s0)" and fresh: "sch_ran sch = None"
    and E: "we_deps E = D" "we_wasm E = W" and path: "clean_steps E s0 s" and "ws_phase s0 = Running"
    and "ws_waiting s = 0"
    and k: "ws_batches s = drop k (g_schedule (wk_graph w))" "k \<le> length (g_schedule (wk_graph w))"
    and n: "b < k" "n \<in> set (g_schedule (wk_graph w) ! b)" "n_results n = [i]"
    and j: "awaits D W flow i j" "rt_instruction_cid D W (tasks flow ! j) = Ok c"
      "run (tasks flow ! j) = Expanded instr" "registered_ability (ability_str (op instr)) \<noteq> None"
  shows "\<exists>v. im_get (lk_value (ws_linkmap s)) c = Some v \<and>
    resolve_cid D N net tx wc rscs c (ws_linkmap s) (ws_db s) = (Resolved v, ws_linkmap s, ws_db s, [])"
proof -
  let ?sched = "g_schedule (wk_graph w)"
  have s0: "ws_batches s0 = ?sched" "ws_info s0 = wk_info w" "scheduler_init D (wk_graph w) db fetch = Ok sch"
    using worker_run_start [OF run] scheduler_init_Ok [of D "wk_graph w" db fetch sch] fresh
    by (auto simp: run_queue_start_def)
  have "completing E s0 s" using completing_steps [OF path] assms(9) by simp
  with assms(10) k(1) s0 obtain past current where acc: "?sched = past @ current @ drop k ?sched" "length current \<le> 1"
    "\<forall>b \<in> set past. \<exists>ts. prepared E (wk_info w) b = Ok ts \<and> (\<forall>t \<in> set ts. settled E s t)"
    by (auto simp: completing_def accounted_def)
  have len: "length past + length current = k"
    using arg_cong [OF acc(1), of length] k(2) by simp
  from graph_order [OF assms(2) g j(1) _ n(2,3)] n(1) k(2) obtain a m
    where m: "a < b" "m \<in> set (?sched ! a)" "n_results m = [j]" by auto
  have a: "a < length past" using m(1) n(1) len acc(2) by linarith
  then have past: "?sched ! a \<in> set past"
    using arg_cong [OF acc(1), of "\<lambda>bs. bs ! a"] by (simp add: nth_append)
  from g obtain ctx where ctx: "aot D W flow = Ok ctx" "S (aot_dag ctx) = Ok ?sched" by (auto simp: graph_eq_Ok)
  have "?sched ! a \<in> set ?sched" using past arg_cong [OF acc(1), of set] by auto
  with m(2) have "m \<in> set (concat ?sched)" by auto
  then have "m \<in> set (aot_dag ctx)" unfolding mset_eq_setD [OF schedule_okD(1) [OF assms(2) ctx(2)]] .
  then have instr: "v_instruction (n_vertex m) = instr"
    using node_instruction [OF ctx(1) _ m(3)] j(3) by simp
  from acc(3) past obtain ts where ts: "prepared E (wk_info w) (?sched ! a) = Ok ts" "\<forall>t \<in> set ts. settled E s t" by blast
  from prepared_task [OF ts(1) m(2)] instr j(4) obtain t where "t \<in> set ts"
    "instruction_pointer D (arg_into D W) instr = Ok (t_instruction t)" using E by auto
  with ts(2) cid_pointer [OF j(3,2)] obtain v where v: "im_get (lk_value (ws_linkmap s)) c = Some v"
    by (auto simp: settled_def)
  have "winv (we_deps E) (we_wasm E) (i_cid (wk_info w)) (i_progress (wk_info w)) db s"
    using winv_steps [OF clean_steps_wsteps [OF path]] winv_start [OF assms(1) s0(3)] worker_run_start [OF run] by blast
  then have "lock_free (ws_linkmap s)" using assms(10) by (simp add: winv_def lock_state_def)
  with v show ?thesis
    by (auto simp: resolve_cid_def lock_read_def lock_free_def drop_guard_def)
qed

theorem promises_kept_witness:
  "\<exists>v. im_get (lk_value (ws_linkmap (run_state 2 1 [run_task_of 1] [] Running))) (nth_cid 0) = Some v \<and>
     resolve_cid run_deps run_net (calm found_net) 0 (nth_cid 20) [] (nth_cid 0)
     (ws_linkmap (run_state 2 1 [run_task_of 1] [] Running)) (ws_db (run_state 2 1 [run_task_of 1] [] Running)) =
     (Resolved v, ws_linkmap (run_state 2 1 [run_task_of 1] [] Running), ws_db (run_state 2 1 [run_task_of 1] [] Running), [])"
proof -
  have j: "awaits run_deps ex_wasm ex_flow 1 0"
    unfolding awaits_def
  proof (intro conjI exI)
    show "run (tasks ex_flow ! 1) = Expanded ex_next"
      "arg_parse run_deps (input ex_next) = Ok \<lparr>parsed_args = run_args (Suc 0), parsed_fun = Some ''add_one''\<rparr>"
      by (simp_all add: run_tasks run_parse)
    show "rt_instruction_cid run_deps ex_wasm (tasks ex_flow ! 0) = Ok (nth_cid 0)"
      by (rule run_instruction_cids)
    show "\<forall>k < length (tasks ex_flow). 0 < k \<longrightarrow> rt_instruction_cid run_deps ex_wasm (tasks ex_flow ! k) \<noteq> Ok (nth_cid 0)"
      using run_instruction_cids by (simp add: ex_flow_def less_Suc_eq numeral_2_eq_2)
  qed (simp_all add: ex_flow_def run_args_def deferreds_def List.map_filter_simps instruction_cid_def)
  show ?thesis
    by (rule promises_kept [where k = 2 and b = 1 and n = "run_node 1",
        OF run_db_inv ex_schedule_ok run_graph run_start _ _ _ run_second [of found_net] _ _ _ _ _ _ _ j
        run_instruction_cids(1) run_tasks(1)])
      (simp_all add: run_state_def example_worker_def run_sched_def run_node_def node_new_def ex_select
        registered_ability_def WASM_OP_def ability_str_def)
qed

section \<open>What a run does, abstractly\<close>

text \<open>
  The run of a workflow without link map, lock, database and channel: the batches that are left, the
  tasks that are active, the results that are not joined yet and the tasks that never finish, as
  bags, with the receipts that are recorded for the workflow, those that are announced, and the
  outcome. Every step is one of a few: a batch is started, or cannot be; a task is computed, or
  does not come to an end; a result is finished, that is, its receipt is recorded and announced at
  once, or it is rejected and ends the run; a failure drops what is left of the batch; and the run
  ends after the last batch.
\<close>

record run_spec =
  sp_batches :: schedule
  sp_active :: "wtask multiset"
  sp_results :: "(wtask \<times> task_result) multiset"
  sp_stuck :: nat
  sp_recorded :: "pointer set"
  sp_announced :: "cid list"
  sp_phase :: phase

text \<open>What a task can compute: with some answers for its promises, the result of its function.\<close>

definition computes :: "('c, 'i) worker_env \<Rightarrow> wtask \<Rightarrow> task_result \<Rightarrow> bool" where
  "computes E t res \<longleftrightarrow>
     (\<exists>answers :: cid \<Rightarrow> resolve_error + arg instruction_result.
        case args_resolve (we_deps E) (arg_into (we_deps E) (we_wasm E)) answers (t_args t) of
          Err _ \<Rightarrow> res = TaskFailed
        | Ok resolved \<Rightarrow>
            (case wasm_run (we_deps E) (we_wasm E) (we_host E) (env_new (t_store t)) (t_wasm t) (t_fun t) resolved of
               Ok outp \<Rightarrow> res = TaskDone outp
             | Err _ \<Rightarrow> res = TaskFailed))"

text \<open>The receipts the network may offer.\<close>

definition offered :: "('c, 'i) worker_env \<Rightarrow> rt_receipt \<Rightarrow> bool" where
  "offered E r \<longleftrightarrow>
     (\<exists>net \<in> we_around E. \<exists>c p ty. su_response net c = Ok (Found (Ok (FoundReceipt p r ty))))"

definition idle :: "run_spec \<Rightarrow> bool" where
  "idle a \<longleftrightarrow> sp_phase a = Running \<and> sp_active a = {#} \<and> sp_results a = {#} \<and> sp_stuck a = 0"

inductive spec_step :: "('c, 'i) worker_env \<Rightarrow> info \<Rightarrow> run_spec \<Rightarrow> run_spec \<Rightarrow> bool" for E i where
  start:
    "idle a \<Longrightarrow> sp_batches a = b # bs \<Longrightarrow> prepared E i b = Ok ts \<Longrightarrow>
     spec_step E i a (a\<lparr>sp_batches := bs, sp_active := mset ts\<rparr>)"
| unprepared:
    "idle a \<Longrightarrow> sp_batches a = b # bs \<Longrightarrow> prepared E i b = Err e \<Longrightarrow>
     spec_step E i a (a\<lparr>sp_phase := Returned (Err e)\<rparr>)"
| compute:
    "sp_phase a = Running \<Longrightarrow> t \<in># sp_active a \<Longrightarrow> computes E t res \<Longrightarrow>
     spec_step E i a (a\<lparr>sp_active := sp_active a - {#t#}, sp_results := add_mset (t, res) (sp_results a)\<rparr>)"
| hang:
    "sp_phase a = Running \<Longrightarrow> t \<in># sp_active a \<Longrightarrow>
     rec = sp_recorded a \<or> (\<exists>r. offered E r \<and> rec = insert (r_cid r) (sp_recorded a)) \<Longrightarrow>
     spec_step E i a (a\<lparr>sp_active := sp_active a - {#t#}, sp_stuck := sp_stuck a + 1, sp_recorded := rec\<rparr>)"
| finish:
    "sp_phase a = Running \<Longrightarrow> (t, TaskDone x) \<in># sp_results a \<Longrightarrow>
     task_receipt (we_deps E) (we_wasm E) t x = Ok r \<Longrightarrow>
     spec_step E i a (a\<lparr>sp_results := sp_results a - {#(t, TaskDone x)#},
       sp_recorded := insert (r_cid r) (sp_recorded a), sp_announced := sp_announced a @ [ptr_cid (r_cid r)]\<rparr>)"
| reject:
    "sp_phase a = Running \<Longrightarrow> (t, TaskDone x) \<in># sp_results a \<Longrightarrow>
     spec_step E i a (a\<lparr>sp_phase := Returned (Err e)\<rparr>)"
| fail:
    "sp_phase a = Running \<Longrightarrow> (t, TaskFailed) \<in># sp_results a \<Longrightarrow>
     spec_step E i a (a\<lparr>sp_active := {#}, sp_results := {#}, sp_stuck := 0\<rparr>)"
| complete:
    "idle a \<Longrightarrow> sp_batches a = [] \<Longrightarrow> spec_step E i a (a\<lparr>sp_phase := Returned (Ok ())\<rparr>)"

definition run_abs :: "worker_state \<Rightarrow> run_spec" where
  "run_abs s =
     \<lparr>sp_batches = ws_batches s, sp_active = mset (ws_spawned s), sp_results = mset (ws_finished s),
      sp_stuck = ws_waiting s,
      sp_recorded = {p. (Pointer (i_cid (ws_info s)), p) \<in> set (t_workflows_receipts (ws_db s))},
      sp_announced = announced (ws_events s), sp_phase = ws_phase s\<rparr>"

lemma run_abs_sel [simp]:
  "sp_batches (run_abs s) = ws_batches s" "sp_active (run_abs s) = mset (ws_spawned s)"
  "sp_results (run_abs s) = mset (ws_finished s)" "sp_phase (run_abs s) = ws_phase s"
  "sp_stuck (run_abs s) = ws_waiting s" "sp_announced (run_abs s) = announced (ws_events s)"
  "sp_recorded (run_abs s) = {p. (Pointer (i_cid (ws_info s)), p) \<in> set (t_workflows_receipts (ws_db s))}"
  by (simp_all add: run_abs_def)

lemma commit_recorded:
  "{p. (Pointer w, p) \<in> set (t_workflows_receipts (snd (commit_receipt w r db)))} =
     (if is_ok (fst (commit_receipt w r db)) then insert (r_cid r) {p. (Pointer w, p) \<in> set (t_workflows_receipts db)}
      else {p. (Pointer w, p) \<in> set (t_workflows_receipts db)})"
  by (auto simp: commit_receipt_cases Let_def)

lemma mset_drop_nth: "i < length xs \<Longrightarrow> mset (drop_nth i xs) = mset xs - {#xs ! i#}"
  by (subst (2) id_take_nth_drop [of i xs]) (simp_all add: drop_nth_def)

lemma run_task_computes:
  assumes "run_task (we_deps E) (we_wasm E) N (we_host E) net tx w rscs t lm db = (Some res, lm', db', evs)"
  shows "computes E t res"
proof -
  obtain acc lm1 db1 evs1 where
    m: "resolve_many (we_deps E) N net tx w rscs (lookups (we_deps E) (t_args t)) [] lm db = (acc, lm1, db1, evs1)"
    by (metis prod_cases4)
  with assms obtain a where "acc = Some a" by (cases acc) (auto simp: run_task_def)
  with assms m show ?thesis
    unfolding computes_def
    by (intro exI [of _ "answer a"]) (auto simp: run_task_def split: sum.splits if_splits)
qed

lemma stuck_recorded:
  assumes "run_task D W N H net tx w rscs t lm db = (None, lm', db', evs)" and "net \<in> we_around E"
  shows "{p. (Pointer w, p) \<in> set (t_workflows_receipts db')} = {p. (Pointer w, p) \<in> set (t_workflows_receipts db)} \<or>
    (\<exists>r. offered E r \<and> {p. (Pointer w, p) \<in> set (t_workflows_receipts db')} =
       insert (r_cid r) {p. (Pointer w, p) \<in> set (t_workflows_receipts db)})"
  using assms(1)
proof (cases rule: run_task_None)
  case (network c p r ty g)
  have "offered E r" using network(2) assms(2) by (auto simp: offered_def)
  with network(5) commit_on_cases [of net w r db] commit_recorded [of w r db] show ?thesis
    by (auto split: if_splits)
qed simp_all

lemma join_simulated:
  assumes "join_task E net t x s = Some (Ok s1)" and "i < length (ws_finished s)"
    and "ws_finished s ! i = (t, TaskDone x)" and "ws_phase s = Running"
  shows "spec_step E j (run_abs s) (run_abs (s1\<lparr>ws_finished := drop_nth i (ws_finished s)\<rparr>))"
proof -
  from assms(1) obtain r where r: "task_receipt (we_deps E) (we_wasm E) t x = Ok r"
    "ws_db s1 = snd (commit_receipt (i_cid (ws_info s)) r (ws_db s))"
    "(Pointer (i_cid (ws_info s)), r_cid r) \<in> set (t_workflows_receipts (ws_db s1))"
    "ws_info s1 = bump_progress (we_resume_step E) (ws_info s)"
    "ws_events s1 = ws_events s @ [CapturedReceipt \<lparr>cap_receipt = ptr_cid (r_cid r),
       cap_workflow = bump_progress (we_resume_step E) (ws_info s), cap_metadata = Some (t_add_meta t)\<rparr>]"
    by (rule join_task_Ok) blast
  have rec: "{p. (Pointer (i_cid (ws_info s)), p) \<in> set (t_workflows_receipts (ws_db s1))} =
      insert (r_cid r) {p. (Pointer (i_cid (ws_info s)), p) \<in> set (t_workflows_receipts (ws_db s))}"
    using r(2,3) commit_recorded [of "i_cid (ws_info s)" r "ws_db s"] by (simp split: if_splits) blast
  have "run_abs (s1\<lparr>ws_finished := drop_nth i (ws_finished s)\<rparr>) =
      (run_abs s)\<lparr>sp_results := mset (ws_finished s) - {#(t, TaskDone x)#},
        sp_recorded := insert (r_cid r) (sp_recorded (run_abs s)),
        sp_announced := announced (ws_events s) @ [ptr_cid (r_cid r)]\<rparr>"
    using join_task_frame [OF assms(1)] r(4,5) rec mset_drop_nth [OF assms(2)] assms(3) by (simp add: run_abs_def)
  moreover have "(t, TaskDone x) \<in># mset (ws_finished s)" using assms(2,3) nth_mem by fastforce
  ultimately show ?thesis
    using spec_step.finish [of "run_abs s" t x E r j] assms(4) r(1) by simp
qed

lemma step_simulated:
  assumes "wstep E s s'" and "i_cid (ws_info s) = i_cid j"
  shows "spec_step E j (run_abs s) (run_abs s')"
  using assms(1)
proof cases
  case (next_batch b bs ts)
  then show ?thesis
    using spec_step.start [of "run_abs s" b bs E j ts] prepared_cong [OF assms(2), of E b]
    by (simp add: idle_def prepared_def run_abs_def)
next
  case (batch_error b bs e)
  then show ?thesis
    using spec_step.unprepared [of "run_abs s" b bs E j e] prepared_cong [OF assms(2), of E b]
    by (simp add: idle_def prepared_def run_abs_def)
next
  case (run_one i net r lm db evs)
  then have "run_abs s' = (run_abs s)\<lparr>sp_active := mset (ws_spawned s) - {#ws_spawned s ! i#},
      sp_results := add_mset (ws_spawned s ! i, r) (mset (ws_finished s))\<rparr>"
    using run_task_Some [OF run_one(5)] by (simp add: run_abs_def announced_none mset_drop_nth)
  then show ?thesis
    using spec_step.compute [of "run_abs s" "ws_spawned s ! i" E r j] run_task_computes [OF run_one(5)] run_one(2,3) by simp
next
  case (run_waits i net lm db evs)
  then have "run_abs s' = (run_abs s)\<lparr>sp_active := mset (ws_spawned s) - {#ws_spawned s ! i#}, sp_stuck := ws_waiting s + 1,
      sp_recorded := sp_recorded (run_abs s')\<rparr>"
    using run_task_effects [OF run_waits(5)] by (simp add: run_abs_def announced_none mset_drop_nth)
  moreover have "sp_recorded (run_abs s') = sp_recorded (run_abs s) \<or>
      (\<exists>r. offered E r \<and> sp_recorded (run_abs s') = insert (r_cid r) (sp_recorded (run_abs s)))"
    using stuck_recorded [OF run_waits(5,4)] run_waits(1) by simp
  ultimately show ?thesis
    using spec_step.hang [of "run_abs s" "ws_spawned s ! i" "sp_recorded (run_abs s')" E j] run_waits(2,3) by simp
next
  case (join_ok i t x net s1)
  then show ?thesis using join_simulated by blast
next
  case (join_error i t x net e)
  then have "(t, TaskDone x) \<in># mset (ws_finished s)" using nth_mem by fastforce
  with join_error show ?thesis
    using spec_step.reject [of "run_abs s" t x E j e] by (simp add: run_abs_def)
next
  case (join_failed i t)
  then have "(t, TaskFailed) \<in># mset (ws_finished s)" using nth_mem by fastforce
  with join_failed show ?thesis
    using spec_step.fail [of "run_abs s" t E j] by (simp add: run_abs_def)
next
  case all_done
  then show ?thesis
    using spec_step.complete [of "run_abs s" E j] by (simp add: idle_def run_abs_def)
qed

lemma wstep_cid: "wstep E s s' \<Longrightarrow> i_cid (ws_info s') = i_cid (ws_info s)"
proof (induction rule: wstep.induct)
  case (join_ok s i t x net s')
  then show ?case by (elim join_task_Ok) simp
qed simp_all

text \<open>
  C3. A run of a worker is a run of the abstract workflow, step by step: it starts with the batches
  that are to run, no task, and nothing announced, and every step of the worker is one step of the
  abstract run. In particular every result that is joined has its receipt recorded and announced in
  that same step, nothing else is announced, and nothing else is recorded but what the network offers
  to a task that then never finishes.
\<close>

theorem worker_refines:
  assumes "worker_run D W w conn fetch running h db = Ok (sch, s0)" and "wsteps E s0 s"
  shows "sp_batches (run_abs s0) = sch_run sch \<and> sp_active (run_abs s0) = {#} \<and> sp_results (run_abs s0) = {#} \<and>
    sp_announced (run_abs s0) = [] \<and>
    (spec_step E (wk_info w))\<^sup>*\<^sup>* (run_abs s0) (run_abs s) \<and>
    (\<forall>s'. wstep E s s' \<longrightarrow> spec_step E (wk_info w) (run_abs s) (run_abs s'))"
proof -
  have s0: "s0 = run_queue_start D W w sch running h db" using worker_run_start [OF assms(1)] by simp
  have "announced (ws_events s0) = []"
    unfolding s0 run_queue_start_def
    by (auto intro!: announced_none dest: replay_events_Ok split: sum.splits)
  moreover have "(spec_step E (wk_info w))\<^sup>*\<^sup>* (run_abs s0) (run_abs s) \<and> i_cid (ws_info s) = i_cid (wk_info w)"
    using assms(2)
  proof (induction rule: rtranclp_induct)
    case base
    then show ?case by (simp add: s0 run_queue_start_def)
  next
    case (step s1 s2)
    then show ?case using step_simulated [OF step(2), of "wk_info w"] wstep_cid [OF step(2)]
      by (auto intro: rtranclp.rtrancl_into_rtrancl)
  qed
  ultimately show ?thesis
    using step_simulated by (auto simp: s0 run_queue_start_def)
qed

theorem worker_refines_witness:
  "(spec_step (run_env (\<lambda>_. Err RecvTimeout)) run_info)\<^sup>*\<^sup>* (run_abs (run_state 0 0 [] [] Running))
     (run_abs (run_state 2 2 [] [] (Returned (Ok ())))) \<and>
   sp_announced (run_abs (run_state 0 0 [] [] Running)) = []"
  using worker_refines [OF run_start run_path [of "\<lambda>_. Err RecvTimeout"]] by (simp add: example_worker_def)

section \<open>A batch that is not resumed\<close>



end
