(* ===== verification/Wasm_Correct.thy ===== *)
theory Wasm_Correct
  imports Run_Example
begin

text \<open>
  Properties of the IPLD interpreter and of the execution of functions: the values a type
  represents exactly, where the interpreter panics, that a promise is never passed to a function,
  the limit on memory, and the store a task runs in.
\<close>

section \<open>The interpreter\<close>

text \<open>
  C21. A value that an interface type represents exactly is translated to a component value of that
  type, and back to the same value.
\<close>

theorem interpreter_roundtrip:
  assumes "new_val_ok W" and "exact_at D W (it_inner it) x"
  shows "\<exists>w. rv_try_from D W x it = Ok (w, []) \<and> ipld_try_from D W w = Ok x \<and>
    (\<forall>t. it_inner it = Some t \<longrightarrow> val_type w = t)"
  using exact_at_represents [OF assms] by (auto simp: represents_def)

theorem interpreter_roundtrip_witness:
  "\<exists>w. rv_try_from (ex_deps []) ex_wasm (IMap [(''a'', IInteger (- 3))]) (Type (TList (TTuple [TString, TS8]))) = Ok (w, []) \<and>
     ipld_try_from (ex_deps []) ex_wasm w = Ok (IMap [(''a'', IInteger (- 3))])"
  using interpreter_roundtrip [of ex_wasm "ex_deps []" "Type (TList (TTuple [TString, TS8]))" "IMap [(''a'', IInteger (- 3))]"]
  by (auto simp: bt_inv_def)

text \<open>
  C40. A map that is read at a given type other than a list of tuples makes the interpreter panic
  instead of returning its error; a value without maps never does, at a given type or at none.
\<close>

theorem interpreter_panics:
  "(\<forall>m t. (\<forall>tys. t \<noteq> TList (TTuple tys)) \<longrightarrow> (\<exists>msg. rv_try_from D W (IMap m) (Type t) = Err (Panic msg))) \<and>
   (\<forall>x it msg. no_maps x \<longrightarrow> rv_try_from D W x it \<noteq> Err (Panic msg))"
  using rv_map_panics [of "Type t" t for t] rv_try_from_no_panic by simp

theorem interpreter_panics_witness:
  "\<exists>msg. rv_try_from (ex_deps []) ex_wasm (IMap []) (Type TS32) = Err (Panic msg)"
  using interpreter_panics [of "ex_deps []" ex_wasm] by blast

section \<open>Execution\<close>

text \<open>
  When a call succeeds, the function was given one value for each of its parameters that has an
  argument, none of these arguments was an unresolved promise, and the output is what the call
  returned.
\<close>

lemma execute_resolved:
  assumes "execute D W E args = Ok outp"
  shows "\<exists>func params results. env_bindings E = Some func \<and>
    length params = min (length (func_params func)) (length (args_inner args)) \<and>
    (\<forall>i < length params. (\<nexists>p. args_inner args ! i = Deferred p) \<and>
       param_of D W (func_params func ! i) (args_inner args ! i) = Ok (params ! i)) \<and>
    call_async func params (map (\<lambda>_. VBool False) (func_results func)) = Ok results \<and>
    outp = (case results of [v] \<Rightarrow> OutputValue v | [] \<Rightarrow> OutputVoid | _ \<Rightarrow> OutputValues results)"
proof -
  from execute_Ok [OF assms] obtain func params results where r: "env_bindings E = Some func"
    "list_all2 (\<lambda>p v. param_of D W (fst p) (snd p) = Ok v) (zip (func_params func) (args_inner args)) params"
    "call_async func params (map (\<lambda>_. VBool False) (func_results func)) = Ok results"
    "outp = (case results of [v] \<Rightarrow> OutputValue v | [] \<Rightarrow> OutputVoid | _ \<Rightarrow> OutputValues results)" .
  have len: "length params = min (length (func_params func)) (length (args_inner args))"
    using list_all2_lengthD [OF r(2)] by simp
  have "param_of D W (func_params func ! i) (args_inner args ! i) = Ok (params ! i)" if "i < length params" for i
    using list_all2_nthD2 [OF r(2) that] that len by simp
  with len r param_of_not_deferred show ?thesis by blast
qed

section \<open>Limits\<close>

text \<open>
  C27. However the memories of an instance ask to grow, and whether or not a growth that is permitted
  then succeeds, none of them exceeds the limit of the store. The counter of the store is the
  sum of their sizes and of the growths that were permitted and failed, so it is the sum of their
  sizes when none failed.
\<close>

theorem memory_limited:
  assumes "max_memory_size l = Some limit" and "memory_consumed l = 0"
    and "fold grow_step reqs (l, replicate k 0, 0) = (l', ms, lost)"
  shows "(\<forall>m \<in> set ms. m \<le> limit) \<and> memory_consumed l' = sum_list ms + lost \<and>
    ((\<forall>req \<in> set reqs. gr_succeeds req) \<longrightarrow> memory_consumed l' = sum_list ms)"
proof -
  have "limits_inv (l, replicate k 0, 0)"
    using assms(1,2) by (simp add: limits_inv_def sum_list_replicate)
  with grow_steps_inv [of "(l, replicate k 0, 0)" reqs] grow_steps_lost [of reqs "(l, replicate k 0, 0)"] assms(1,3)
  show ?thesis by (auto simp: limits_inv_def)
qed

theorem memory_limited_witness:
  "\<exists>l' ms lost. fold grow_step [\<lparr>gr_memory = 0, gr_desired = 65536, gr_succeeds = True\<rparr>,
       \<lparr>gr_memory = 0, gr_desired = 2 ^ 40, gr_succeeds = True\<rparr>, \<lparr>gr_memory = 0, gr_desired = 131072, gr_succeeds = False\<rparr>]
       (limits_default, [0], 0) = (l', ms, lost) \<and>
     ms = [65536] \<and> memory_consumed l' = 131072"
proof -
  let ?reqs = "[\<lparr>gr_memory = 0, gr_desired = 65536, gr_succeeds = True\<rparr>,
    \<lparr>gr_memory = 0, gr_desired = 2 ^ 40, gr_succeeds = True\<rparr>, \<lparr>gr_memory = 0, gr_desired = 131072, gr_succeeds = False\<rparr>]"
  obtain l' ms lost where r: "fold grow_step ?reqs (limits_default, replicate 1 0, 0) = (l', ms, lost)"
    by (cases "fold grow_step ?reqs (limits_default, replicate 1 0, 0)") auto
  then have "ms = [65536]" "lost = 65536"
    by (auto simp: grow_step_def memory_growing_def limits_default_def WASM_MAX_MEMORY_def split: if_splits)
  with memory_limited [OF _ _ r, of WASM_MAX_MEMORY] r show ?thesis by (simp add: limits_default_def)
qed



end
