(* ===== verification/Store_Correct.thy ===== *)
theory Store_Correct
  imports Run_Example
begin

text \<open>
  Properties of the database and of what is shared with other nodes: the constraints of the
  tables under all operations, the receipts as a map, the progress of a workflow, and the
  capsules, messages and notifications that are sent and read back.
\<close>

section \<open>The database\<close>

text \<open>The operations of the database, as calls in any order.\<close>

datatype db_call =
    CallCommitReceipt cid rt_receipt
  | CallStoreReceipt rt_receipt
  | CallStoreReceipts "rt_receipt list"
  | CallStoreWorkflow stored
  | CallStoreWorkflowReceipt cid cid
  | CallStoreWorkflowReceipts cid "cid list"
  | CallUpdateLocalName string timestamp

fun db_call_run :: "db_call \<Rightarrow> database \<Rightarrow> database" where
  "db_call_run (CallCommitReceipt w r) db = snd (commit_receipt w r db)"
| "db_call_run (CallStoreReceipt r) db = snd (store_receipt r db)"
| "db_call_run (CallStoreReceipts rs) db = snd (store_receipts rs db)"
| "db_call_run (CallStoreWorkflow s) db = snd (store_workflow s db)"
| "db_call_run (CallStoreWorkflowReceipt w r) db = snd (store_workflow_receipt w r db)"
| "db_call_run (CallStoreWorkflowReceipts w rs) db = snd (store_workflow_receipts w rs db)"
| "db_call_run (CallUpdateLocalName nm t) db = snd (update_local_name nm t db)"

lemma db_inv_call: "db_inv db \<Longrightarrow> db_inv (db_call_run c db)"
  by (cases c) (simp_all add: db_invs)

text \<open>
  Whatever operations are run on an empty database, each receipt, each workflow and each pair of
  them is stored once, and a pair only refers to a workflow and a receipt that are stored.
\<close>

lemma database_constraints:
  fixes calls :: "db_call list"
  defines "db \<equiv> fold db_call_run calls db_empty"
  shows "distinct (map r_cid (t_receipts db)) \<and> distinct (map s_cid (t_workflows db)) \<and>
    distinct (t_workflows_receipts db) \<and>
    fst ` set (t_workflows_receipts db) \<subseteq> s_cid ` set (t_workflows db) \<and>
    snd ` set (t_workflows_receipts db) \<subseteq> r_cid ` set (t_receipts db)"
proof -
  have "db_inv (fold db_call_run calls s)" if "db_inv s" for s
    using that by (induction calls arbitrary: s) (auto intro: db_inv_call)
  then have "db_inv db" unfolding db_def by simp
  then show ?thesis by (auto simp: db_inv_def)
qed

text \<open>The receipts as a map from their CIDs.\<close>

definition receipt_map :: "database \<Rightarrow> cid \<Rightarrow> rt_receipt option" where
  "receipt_map db c = ok (find_receipt_by_cid c db)"

lemma receipt_map_eq: "db_inv db \<Longrightarrow> receipt_map db c = Some r \<longleftrightarrow> r \<in> set (t_receipts db) \<and> r_cid r = Pointer c"
  using find_receipt_by_cid_iff [of db c r]
  by (cases "find_receipt_by_cid c db") (auto simp: receipt_map_def)

text \<open>
  C6. The table of receipts implements a map from CIDs to receipts: committing a receipt adds it at
  its CID when there is none yet, keeps the first one otherwise, and a failed commit changes
  nothing.
\<close>

theorem receipts_refine_map:
  assumes "db_inv db" and "commit_receipt w r db = (res, db')"
  shows "receipt_map db' =
    (if is_ok res \<and> receipt_map db (ptr_cid (r_cid r)) = None
     then (receipt_map db)(ptr_cid (r_cid r) \<mapsto> r)
     else receipt_map db)"
proof -
  obtain c where c: "r_cid r = Pointer c" by (cases "r_cid r") auto
  have inv: "db_inv db'" using db_inv_commit_receipt [OF assms(1), of w r] assms(2) by simp
  have known: "(\<exists>x \<in> set (t_receipts db). r_cid x = r_cid r) \<longleftrightarrow> receipt_map db c \<noteq> None"
    using receipt_map_eq [OF assms(1), of c] c by auto
  have rows: "set (t_receipts db') =
      (if is_ok res \<and> receipt_map db c = None then insert r (set (t_receipts db)) else set (t_receipts db))"
    using assms(2) known by (auto simp: commit_receipt_cases Let_def split: if_splits)
  have "receipt_map db' d = Some y \<longleftrightarrow> y \<in> set (t_receipts db') \<and> r_cid y = Pointer d" for d y
    by (rule receipt_map_eq [OF inv])
  then have "receipt_map db' d = Some y \<longleftrightarrow>
      (if is_ok res \<and> receipt_map db c = None then (receipt_map db)(c \<mapsto> r) else receipt_map db) d = Some y" for d y
    using rows c receipt_map_eq [OF assms(1), of d y] receipt_map_eq [OF assms(1), of c] by auto
  then have "receipt_map db' d =
      (if is_ok res \<and> receipt_map db c = None then (receipt_map db)(c \<mapsto> r) else receipt_map db) d" for d
    by (metis option.exhaust)
  with c show ?thesis by auto
qed

theorem receipts_refine_map_witness:
  "receipt_map (snd (commit_receipt (nth_cid 20) (run_stored 0) run_db)) = [nth_cid 2 \<mapsto> run_stored 0]"
proof -
  have "fst (commit_receipt (nth_cid 20) (run_stored 0) run_db) = Ok (run_stored 0)"
    by (simp add: commit_receipt_cases run_db_def stored_new_def)
  moreover have "receipt_map run_db = Map.empty"
    by (simp add: receipt_map_def find_receipt_by_cid_def run_db_def first_row_def fun_eq_iff)
  ultimately show ?thesis
    using receipts_refine_map [OF run_db_inv prod.collapse [symmetric], of "nth_cid 20" "run_stored 0"]
    by simp
qed

text \<open>
  C14. After a receipt has been committed for a workflow, the information of the workflow counts it
  once: its progress is what it was together with the receipt, without repetition, and its
  progress count is the length of the progress.
\<close>

theorem commit_progress:
  assumes "db_inv db" and "commit_receipt w r db = (Ok x, db')"
  shows "\<exists>nm i. get_workflow_info w db' = Ok (nm, i) \<and> i_cid i = w \<and> distinct (i_progress i) \<and>
    set (i_progress i) = insert (ptr_cid (r_cid r)) {c. (Pointer w, Pointer c) \<in> set (t_workflows_receipts db)} \<and>
    i_progress_count i = word_of_nat (length (i_progress i))"
proof -
  have inv: "db_inv db'" using db_inv_commit_receipt [OF assms(1), of w r] assms(2) by simp
  have row: "(Pointer w, r_cid r) \<in> set (t_workflows_receipts db')" using commit_receipt_Ok [OF assms(2)] by simp
  have "set (t_workflows_receipts db') = insert (Pointer w, r_cid r) (set (t_workflows_receipts db))"
    using assms(2) by (auto simp: commit_receipt_cases Let_def split: if_splits)
  then have new: "{c. (Pointer w, Pointer c) \<in> set (t_workflows_receipts db')} =
      insert (ptr_cid (r_cid r)) {c. (Pointer w, Pointer c) \<in> set (t_workflows_receipts db)}"
    by (cases "r_cid r") auto
  from row inv have "Pointer w \<in> s_cid ` set (t_workflows db')" by (auto simp: db_inv_def)
  then obtain s where "select_workflow w db' = Ok s"
    unfolding select_workflow_def
    using first_row_filter_Err [of "\<lambda>x. s_cid x = Pointer w" "t_workflows db'" NotFound]
    by (cases "filter (\<lambda>x. s_cid x = Pointer w) (t_workflows db')") (auto simp: first_row_def)
  then obtain nm i where i: "get_workflow_info w db' = Ok (nm, i)"
    by (simp add: get_workflow_info_def Let_def)
  note p = get_workflow_info_progress [OF inv i]
  have "i_progress_count i = word_of_nat (length (i_progress i))"
    using p(2,3,4) distinct_card [of "i_progress i"] by simp
  with i p(1,2,3) new show ?thesis by auto
qed

theorem commit_progress_witness:
  "\<exists>nm i. get_workflow_info (nth_cid 20) (snd (commit_receipt (nth_cid 20) (run_stored 0) run_db)) = Ok (nm, i) \<and>
     set (i_progress i) = {nth_cid 2} \<and> i_progress_count i = word_of_nat (length (i_progress i))"
proof -
  have "commit_receipt (nth_cid 20) (run_stored 0) run_db =
      (Ok (run_stored 0), snd (commit_receipt (nth_cid 20) (run_stored 0) run_db))"
    by (simp add: commit_receipt_cases run_db_def stored_new_def)
  moreover have "{c. (Pointer (nth_cid 20), Pointer c) \<in> set (t_workflows_receipts run_db)} = {}" by (simp add: run_db_def)
  ultimately show ?thesis using commit_progress [OF run_db_inv] by fastforce
qed

section \<open>Capsules, messages and notifications\<close>

text \<open>
  Starting a workflow that is stored under another name gives the new name to every workflow
  that was created before, not only to the one that is started.
\<close>

lemma start_renames_all:
  assumes "get_workflow_info w db = Ok (Some old, i)" and "old \<noteq> nm"
    and "s \<in> set (t_workflows db)" and "s_created_at s < now"
  shows "\<exists>db'. info_init w n nm rs now db = (Ok (i, now), db') \<and> s\<lparr>s_name := Some nm\<rparr> \<in> set (t_workflows db')"
  using assms by (auto simp: info_init_def update_local_name_def image_iff intro!: bexI [of _ s])

definition named_db :: database where
  "named_db = \<lparr>t_receipts = [],
     t_workflows = [stored_new (Pointer (nth_cid 20)) (Some ''a'') 2 [] 0, stored_new (Pointer (nth_cid 21)) (Some ''b'') 2 [] 0],
     t_workflows_receipts = []\<rparr>"

text \<open>
  After a receipt is added to the progress of a workflow in memory, the progress count is one
  more than the number of receipts in the progress, while the information that is read from the
  database counts them exactly.
\<close>

lemma progress_count_off:
  assumes "length (i_progress i) + 2 < 2 ^ 32"
  shows "unat (i_progress_count (increment_progress c i)) = length (i_progress (increment_progress c i)) + 1 \<and>
    unat (i_progress_count (info_new s (i_progress i))) = length (i_progress (info_new s (i_progress i)))"
proof -
  have "i_progress_count (increment_progress c i) = word_of_nat (length (i_progress i) + 2)"
    by (simp add: increment_progress_def)
  then have "unat (i_progress_count (increment_progress c i)) = length (i_progress i) + 2"
    using assms by (simp only: unat_of_nat) simp
  moreover have "unat (word_of_nat (length (i_progress i)) :: u32) = length (i_progress i)"
    using assms by (simp add: unat_of_nat)
  ultimately show ?thesis by (simp add: increment_progress_def info_new_def)
qed

text \<open>
  C22. A notification that is written as IPLD is read back as the same notification exactly when its
  type is not the one for a receipt put in the DHT, whose name is misspelt where it is read.
\<close>

theorem notification_roundtrip:
  assumes "serde_ok D" and "net_ok N" and "- (2 ^ 63) \<le> en_timestamp n" and "en_timestamp n < 2 ^ 63"
  shows "event_notification_try_from D N (event_notification_into n) = Ok n \<longleftrightarrow>
    en_typ n \<noteq> SwarmNotification PutReceiptDht"
proof
  assume r: "event_notification_try_from D N (event_notification_into n) = Ok n"
  show "en_typ n \<noteq> SwarmNotification PutReceiptDht"
  proof
    assume t: "en_typ n = SwarmNotification PutReceiptDht"
    have "swarm_notification_from_str (swarm_notification_fmt PutReceiptDht) \<noteq> Ok PutReceiptDht"
      unfolding swarm_notification_roundtrip by simp
    then have "typ_try_from D (typ_into (SwarmNotification PutReceiptDht)) \<noteq> Ok (SwarmNotification PutReceiptDht)"
      using serde_ok_simps [OF assms(1)] split_once_network [of "swarm_notification_fmt PutReceiptDht"]
      by (auto simp: typ_try_from_def result_simps simp del: swarm_notification_fmt.simps)
    with r t show False
      by (cases n) (auto simp: event_notification_try_from_def event_notification_into_map get_or_missing_def
          serde_ok_simps [OF assms(1)] result_simps)
  qed
qed (use event_notification_codec.try_from_into assms in blast)

theorem notification_roundtrip_witness:
  "event_notification_try_from (ex_deps []) run_net
     (event_notification_into \<lparr>en_typ = SwarmNotification PutReceiptDht, en_data = IMap [], en_timestamp = 0\<rparr>) \<noteq>
     Ok \<lparr>en_typ = SwarmNotification PutReceiptDht, en_data = IMap [], en_timestamp = 0\<rparr> \<and>
   event_notification_try_from (ex_deps []) run_net
     (event_notification_into \<lparr>en_typ = SwarmNotification GotReceiptDht, en_data = IMap [], en_timestamp = 0\<rparr>) =
     Ok \<lparr>en_typ = SwarmNotification GotReceiptDht, en_data = IMap [], en_timestamp = 0\<rparr>"
  using notification_roundtrip [OF _ run_net_ok, of "ex_deps []" "\<lparr>en_typ = SwarmNotification PutReceiptDht, en_data = IMap [], en_timestamp = 0\<rparr>"]
    notification_roundtrip [OF _ run_net_ok, of "ex_deps []" "\<lparr>en_typ = SwarmNotification GotReceiptDht, en_data = IMap [], en_timestamp = 0\<rparr>"]
  by simp

end
