(* ===== verification/Settings.thy ===== *)
theory Settings
  imports Events
begin

text \<open>
  The settings of a node and their defaults (\<open>settings.rs\<close>, \<open>settings/libp2p_config.rs\<close>), the
  choice of its key pair (\<open>settings/pubkey_config.rs\<close>), the settings of a workflow
  (\<open>workflow/settings.rs\<close>) and the peer of an address (\<open>libp2p/multiaddr.rs\<close>). Key
  generation, file access and key formats are third-party code, fields of the record \<open>key_deps\<close>.
\<close>

section \<open>Addresses\<close>

text \<open>The components of an address; the sources only look at two kinds of them.\<close>

datatype protocol = Ip4 u8 u8 u8 u8 | P2p peer_id | OtherProtocol string

type_synonym multiaddr = "protocol list"

definition multiaddr_peer_id :: "multiaddr \<Rightarrow> peer_id option" where
  "multiaddr_peer_id addr =
     (if addr = [] then None
      else case last addr of P2p peer_id \<Rightarrow> Some peer_id | _ \<Rightarrow> None)"

text \<open>\<open>Ipv4Addr::is_private\<close>.\<close>

definition is_private :: "u8 \<Rightarrow> u8 \<Rightarrow> bool" where
  "is_private a b \<longleftrightarrow> a = 10 \<or> (a = 172 \<and> 16 \<le> b \<and> b \<le> 31) \<or> (a = 192 \<and> b = 168)"

section \<open>Settings of libp2p\<close>

record dht_settings =
  dht_receipt_timeout :: duration
  dht_workflow_info_timeout :: duration
  dht_provider_timeout :: duration
  dht_receipt_quorum :: usize
  dht_workflow_quorum :: usize

record mdns_settings =
  mdns_enable :: bool
  mdns_enable_ipv6 :: bool
  mdns_query_interval :: duration
  mdns_ttl :: duration

record pubsub_settings =
  ps_enable :: bool
  ps_duplication_cache_time :: duration
  ps_heartbeat :: duration
  ps_idle_timeout :: duration
  ps_max_transmit_size :: usize
  ps_mesh_n_low :: usize
  ps_mesh_n_high :: usize
  ps_mesh_n :: usize
  ps_mesh_outbound_min :: usize

record rendezvous_settings =
  rv_enable_client :: bool
  rv_enable_server :: bool
  rv_registration_ttl :: duration
  rv_discovery_interval :: duration

record libp2p_settings =
  lp_announce_addresses :: "multiaddr list"
  lp_dht :: dht_settings
  lp_idle_connection_timeout :: duration
  lp_listen_address :: string
  lp_max_connected_peers :: u32
  lp_max_announce_addresses :: u32
  lp_node_addresses :: "multiaddr list"
  lp_mdns :: mdns_settings
  lp_pubsub :: pubsub_settings
  lp_rendezvous :: rendezvous_settings
  lp_transport_connection_timeout :: duration

definition dht_default :: dht_settings where
  "dht_default =
     \<lparr>dht_receipt_timeout = from_millis 500, dht_workflow_info_timeout = from_millis 500,
      dht_provider_timeout = from_millis 10000, dht_receipt_quorum = 2, dht_workflow_quorum = 3\<rparr>"

definition mdns_default :: mdns_settings where
  "mdns_default =
     \<lparr>mdns_enable = True, mdns_enable_ipv6 = False, mdns_query_interval = from_secs (5 * 60),
      mdns_ttl = from_secs (60 * 9)\<rparr>"

definition pubsub_default :: pubsub_settings where
  "pubsub_default =
     \<lparr>ps_enable = True, ps_duplication_cache_time = from_secs 1, ps_heartbeat = from_secs 60,
      ps_idle_timeout = from_secs (60 * 60 * 24), ps_max_transmit_size = 10 * 1024 * 1024,
      ps_mesh_n_low = 1, ps_mesh_n_high = 10, ps_mesh_n = 2, ps_mesh_outbound_min = 1\<rparr>"

definition rendezvous_default :: rendezvous_settings where
  "rendezvous_default =
     \<lparr>rv_enable_client = True, rv_enable_server = False,
      rv_registration_ttl = from_secs (2 * 60 * 60), rv_discovery_interval = from_secs (10 * 60)\<rparr>"

definition libp2p_default :: libp2p_settings where
  "libp2p_default =
     \<lparr>lp_announce_addresses = [], lp_dht = dht_default, lp_idle_connection_timeout = from_secs 10,
      lp_listen_address = ''/ip4/0.0.0.0/tcp/0'', lp_max_connected_peers = 32,
      lp_max_announce_addresses = 10, lp_node_addresses = [], lp_mdns = mdns_default,
      lp_pubsub = pubsub_default, lp_rendezvous = rendezvous_default,
      lp_transport_connection_timeout = from_secs 60\<rparr>"

section \<open>The key pair\<close>

datatype keypair = KeypairEd25519 bytes | KeypairSecp256k1 bytes

datatype key_type = Ed25519 | Secp256k1

datatype pubkey_config =
    RandomKey
  | GenerateFromSeed key_type bytes
  | ExistingKey key_type string

record key_deps =
  generate_ed25519 :: keypair
  rng_from_seed :: "bytes \<Rightarrow> bytes"
  ed25519_from_bytes :: "bytes \<Rightarrow> string + keypair"
  secp256k1_from_bytes :: "bytes \<Rightarrow> string + keypair"
  read_key_file :: "string \<Rightarrow> string + bytes"
  pem_decode :: "bytes \<Rightarrow> string + (string \<times> bytes)"
  ec_from_der :: "bytes \<Rightarrow> string + bytes"
  path_extension :: "string \<Rightarrow> string option"

definition keypair_of :: "key_deps \<Rightarrow> pubkey_config \<Rightarrow> anyhow + keypair" where
  "keypair_of K cfg =
     (case cfg of
        RandomKey \<Rightarrow> Ok (generate_ed25519 K)
      | GenerateFromSeed key_type seed \<Rightarrow>
          (let new_key = rng_from_seed K seed in
           case key_type of
             Ed25519 \<Rightarrow>
               map_err (\<lambda>e. Msg (''failed to generate ed25519 key from random: '' @ e))
                 (ed25519_from_bytes K new_key)
           | Secp256k1 \<Rightarrow>
               map_err (\<lambda>e. Msg (''failed to generate secp256k1 key from random: '' @ e))
                 (secp256k1_from_bytes K new_key))
      | ExistingKey key_type path \<Rightarrow>
          and_then (map_err (\<lambda>_. Msg ''unable to read key file'') (read_key_file K path)) (\<lambda>buf.
          case key_type of
            Ed25519 \<Rightarrow>
              and_then (map_err (\<lambda>e. Msg (''key file must be PEM formatted: '' @ e)) (pem_decode K buf))
                (\<lambda>(tag, key).
                 if tag \<noteq> ''PRIVATE KEY''
                 then Err (Msg (''imported key file had a header of '' @ tag))
                 else map_err (\<lambda>_. Msg ''imported key material was invalid for ed25519'')
                        (ed25519_from_bytes K key))
          | Secp256k1 \<Rightarrow>
              and_then
                (case path_extension K path of
                   Some ext \<Rightarrow>
                     if ext = ''der''
                     then map_err (\<lambda>e. Msg (''failed to parse DER encoded secp256k1 key: '' @ e))
                            (ec_from_der K buf)
                     else if ext = ''pem''
                     then Err (Msg ''PEM encoded secp256k1 keys are unsupported at the moment. Please file an issue if you require this.'')
                     else Err (Msg ''please disambiguate file from either PEM or DER with a file extension.'')
                 | None \<Rightarrow> Err (Msg ''please disambiguate file from either PEM or DER with a file extension.''))
                (\<lambda>sk. map_err (\<lambda>e. Msg (''failed to import secp256k1 key: '' @ e))
                        (secp256k1_from_bytes K sk))))"

section \<open>Settings of a node\<close>

record ipfs_settings =
  ipfs_host :: string
  ipfs_port :: u16

record rpc_settings =
  rpc_host :: string
  rpc_max_connections :: usize
  rpc_port :: u16
  rpc_server_timeout :: duration

record webserver_settings =
  web_host :: string
  web_port :: u16
  web_timeout :: duration
  web_websocket_capacity :: usize
  web_websocket_receiver_timeout :: duration

record network_settings =
  nw_libp2p :: libp2p_settings
  nw_metrics_port :: u16
  nw_events_buffer_len :: usize
  nw_rpc :: rpc_settings
  nw_keypair_config :: pubkey_config
  nw_poll_cache_interval :: duration
  nw_ipfs :: ipfs_settings
  nw_webserver :: webserver_settings

record monitoring_settings =
  mon_console_subscriber_port :: u16
  mon_process_collector_interval :: duration

record database_settings =
  dbs_url :: "string option"
  dbs_max_pool_size :: u32

record node_settings =
  nd_monitoring :: monitoring_settings
  nd_network :: network_settings
  nd_db :: database_settings
  nd_gc_interval :: duration
  nd_shutdown_timeout :: duration

definition ipfs_default :: ipfs_settings where
  "ipfs_default = \<lparr>ipfs_host = ''127.0.0.1'', ipfs_port = 5001\<rparr>"

definition rpc_default :: rpc_settings where
  "rpc_default =
     \<lparr>rpc_host = ''::1'', rpc_max_connections = 10, rpc_port = 3030, rpc_server_timeout = from_secs 120\<rparr>"

definition webserver_default :: webserver_settings where
  "webserver_default =
     \<lparr>web_host = ''127.0.0.1'', web_port = 1337, web_timeout = from_secs 120,
      web_websocket_capacity = 2048, web_websocket_receiver_timeout = from_millis 30000\<rparr>"

definition network_default :: network_settings where
  "network_default =
     \<lparr>nw_libp2p = libp2p_default, nw_metrics_port = 4000, nw_events_buffer_len = 1024,
      nw_rpc = rpc_default, nw_keypair_config = RandomKey, nw_poll_cache_interval = from_millis 1000,
      nw_ipfs = ipfs_default, nw_webserver = webserver_default\<rparr>"

definition monitoring_default :: monitoring_settings where
  "monitoring_default =
     \<lparr>mon_console_subscriber_port = 6669, mon_process_collector_interval = from_millis 5000\<rparr>"

definition database_default :: database_settings where
  "database_default = \<lparr>dbs_url = None, dbs_max_pool_size = 100\<rparr>"

definition node_default :: node_settings where
  "node_default =
     \<lparr>nd_monitoring = monitoring_default, nd_network = network_default, nd_db = database_default,
      nd_gc_interval = from_secs 1800, nd_shutdown_timeout = from_secs 20\<rparr>"

record workflow_settings =
  wfs_retries :: u32
  wfs_retry_max_delay :: duration
  wfs_retry_initial_delay :: duration
  wfs_timeout :: duration

definition workflow_settings_default :: workflow_settings where
  "workflow_settings_default =
     \<lparr>wfs_retries = 3, wfs_retry_max_delay = from_secs 60, wfs_retry_initial_delay = from_millis 500,
      wfs_timeout = from_secs 3600\<rparr>"

section \<open>The database of a node at start\<close>

text \<open>
  The variable \<open>DATABASE_URL\<close> of the process, and the file \<open>.env\<close>: missing, or its value for the
  variable. \<open>dotenv()\<close> fails without the file, and sets only variables that are not set.
\<close>

record environment =
  env_database_url :: "string option"
  env_dotenv :: "string option option"

definition set_url :: "string option \<Rightarrow> environment \<Rightarrow> string option \<times> environment" where
  "set_url database_url env =
     (case database_url of
        Some url \<Rightarrow> (Some url, env\<lparr>env_database_url := Some url\<rparr>)
      | None \<Rightarrow>
          (case env_dotenv env of
             None \<Rightarrow> (None, env)
           | Some line \<Rightarrow>
               (let v = (case env_database_url env of Some u \<Rightarrow> Some u | None \<Rightarrow> line) in
                (v, env\<lparr>env_database_url := v\<rparr>))))"

definition database_url_var :: "environment \<Rightarrow> anyhow + string" where
  "database_url_var env = ok_or (env_database_url env) (Msg ''environment variable not found'')"

text \<open>The URL the connection pool is built for.\<close>

definition pool_url :: "node_settings \<Rightarrow> string option \<Rightarrow> environment \<Rightarrow> string \<times> environment" where
  "pool_url settings database_url env =
     (case set_url database_url env of
        (found, env') \<Rightarrow>
          (unwrap_or found (case dbs_url (nd_db settings) of None \<Rightarrow> ''homestar.db'' | Some url \<Rightarrow> url), env'))"

section \<open>Lemmas\<close>

lemma multiaddr_peer_id_iff: "multiaddr_peer_id addr = Some p \<longleftrightarrow> (\<exists>as. addr = as @ [P2p p])"
  by (cases addr rule: rev_cases) (auto simp: multiaddr_peer_id_def split: protocol.splits)

lemma keypair_secp_pem:
  assumes "path_extension K path = Some ''pem''"
  shows "keypair_of K (ExistingKey Secp256k1 path) \<noteq> Ok k"
  using assms by (auto simp: keypair_of_def result_simps)

end
