(* ===== verification/Swarm.thy ===== *)
theory Swarm
  imports Settings
begin

text \<open>
  The swarm of a node (\<open>network/swarm.rs\<close>, \<open>network/pubsub.rs\<close>, \<open>network/error.rs\<close>). libp2p is
  third-party code: the swarm is the list of the calls made to it together with the behaviours
  that are switched on, and the result of a call is a function of the calls so far, a field of
  the record \<open>swarm_host\<close>. The network is therefore free to answer in any way.
\<close>

section \<open>Calls to libp2p\<close>

type_synonym query_id = nat
type_synonym request_id = nat
type_synonym response_channel = nat

text \<open>\<open>kad::Quorum\<close>; the number of \<open>Quorum::N\<close> is a \<open>NonZeroUsize\<close>.\<close>

datatype quorum = QuorumOne | QuorumN usize

datatype cookie = Cookie "string option" bytes

fun cookie_namespace :: "cookie \<Rightarrow> string option" where
  "cookie_namespace (Cookie ns _) = ns"

datatype peer_condition = PeerDisconnected

datatype swarm_call =
    ListenOn multiaddr
  | SetServerMode
  | AddExternalAddress multiaddr
  | DialAddress multiaddr
  | DialPeer peer_id "multiaddr list" "peer_condition option"
  | AddAddress peer_id multiaddr
  | RemoveAddress peer_id multiaddr
  | RemovePeer peer_id
  | PutRecord bytes bytes quorum
  | GetRecord bytes
  | GetRecordProviders bytes
  | StartProviding bytes
  | RemoveRecordOf bytes
  | StopProviding bytes
  | FinishQuery query_id
  | Subscribe string
  | Publish string bytes
  | SendRequest peer_id request_response_key
  | SendResponse response_channel bytes
  | RegisterWith string peer_id nat
  | DiscoverFrom string "cookie option" peer_id

record swarm =
  sw_calls :: "swarm_call list"
  sw_gossipsub :: bool
  sw_mdns :: bool
  sw_rendezvous_client :: bool
  sw_rendezvous_server :: bool

text \<open>What libp2p and the connection pool of the database return, after the calls so far.\<close>

record swarm_host =
  local_peer_id :: peer_id
  kad_protocol_name :: string
  parse_multiaddr :: "string \<Rightarrow> string + multiaddr"
  multiaddr_to_string :: "multiaddr \<Rightarrow> string"
  show_response :: "response_event \<Rightarrow> string"
  noise_new :: "keypair \<Rightarrow> string + unit"
  gossipsub_new :: "pubsub_settings \<Rightarrow> string + unit"
  mdns_new :: "mdns_settings \<Rightarrow> string + unit"
  listen_result :: "swarm_call list \<Rightarrow> string + unit"
  dial_result :: "swarm_call list \<Rightarrow> string + unit"
  put_result :: "swarm_call list \<Rightarrow> string + query_id"
  query_result_id :: "swarm_call list \<Rightarrow> query_id"
  provide_result :: "swarm_call list \<Rightarrow> string + query_id"
  subscribe_result :: "swarm_call list \<Rightarrow> string + bool"
  has_mesh_peers :: "swarm_call list \<Rightarrow> string \<Rightarrow> bool"
  publish_result :: "swarm_call list \<Rightarrow> string + string"
  request_result_id :: "swarm_call list \<Rightarrow> request_id"
  register_result :: "swarm_call list \<Rightarrow> string + unit"
  mdns_has_node :: "swarm_call list \<Rightarrow> peer_id \<Rightarrow> bool"
  swarm_listeners :: "swarm_call list \<Rightarrow> multiaddr list"
  external_addresses :: "swarm_call list \<Rightarrow> multiaddr list"
  generate_nonce :: "swarm_call list \<Rightarrow> nonce"
  new_channel :: "swarm_call list \<Rightarrow> sender"
  pool_get :: "swarm_call list \<Rightarrow> string + unit"
  evicted_keys :: "swarm_call list \<Rightarrow> string list"

definition sw_call :: "swarm_call \<Rightarrow> swarm \<Rightarrow> swarm" where
  "sw_call c sw = sw\<lparr>sw_calls := sw_calls sw @ [c]\<rparr>"

section \<open>Gossip\<close>

definition RECEIPTS_TOPIC :: string where "RECEIPTS_TOPIC = ''receipts''"

datatype pubsub_error =
    InsufficientPeers string
  | NotEnabled
  | PublishFailed string
  | SubscriptionFailed string
  | Conversion anyhow

datatype topic_message = CapturedReceiptMessage "rt_receipt message"

definition gossip_subscribe :: "swarm_host \<Rightarrow> string \<Rightarrow> swarm \<Rightarrow> (pubsub_error + bool) \<times> swarm" where
  "gossip_subscribe X topic sw =
     (if sw_gossipsub sw
      then (let sw' = sw_call (Subscribe topic) sw in
            (map_err SubscriptionFailed (subscribe_result X (sw_calls sw')), sw'))
      else (Err NotEnabled, sw))"

definition gossip_publish ::
  "deps \<Rightarrow> swarm_host \<Rightarrow> string \<Rightarrow> topic_message \<Rightarrow> swarm \<Rightarrow> (pubsub_error + string) \<times> swarm" where
  "gossip_publish D X topic msg sw =
     (if sw_gossipsub sw
      then (case msg of CapturedReceiptMessage message \<Rightarrow>
              (case message_to_bytes D (rt_receipt_into D) message of
                 Err e \<Rightarrow> (Err (Conversion e), sw)
               | Ok msg_bytes \<Rightarrow>
                   if has_mesh_peers X (sw_calls sw) topic
                   then (let sw' = sw_call (Publish topic msg_bytes) sw in
                         (map_err PublishFailed (publish_result X (sw_calls sw')), sw'))
                   else (Err (InsufficientPeers topic), sw)))
      else (Err NotEnabled, sw))"

section \<open>Building and initialising the swarm\<close>

text \<open>Dialing the configured nodes: a failure is logged, and the first P2P component of an
  address is the peer that is added to the routing table.\<close>

fun address_peer :: "multiaddr \<Rightarrow> peer_id option" where
  "address_peer [] = None"
| "address_peer (P2p p # _) = Some p"
| "address_peer (_ # ps) = address_peer ps"

definition dial_node :: "u32 \<Rightarrow> nat \<times> multiaddr \<Rightarrow> swarm \<Rightarrow> swarm" where
  "dial_node max_peers ia sw =
     (case ia of (index, addr) \<Rightarrow>
        if index < unat max_peers
        then (let sw' = sw_call (DialAddress addr) sw in
              case address_peer addr of
                Some peer_id \<Rightarrow> sw_call (AddAddress peer_id addr) sw'
              | None \<Rightarrow> sw')
        else sw)"

definition swarm_init :: "swarm_host \<Rightarrow> network_settings \<Rightarrow> swarm \<Rightarrow> (anyhow + unit) \<times> swarm" where
  "swarm_init X settings sw =
     (let lp = nw_libp2p settings in
      case parse_multiaddr X (lp_listen_address lp) of
        Err e \<Rightarrow> (Err (Msg e), sw)
      | Ok addr \<Rightarrow>
          (let sw1 = sw_call (ListenOn addr) sw in
           case listen_result X (sw_calls sw1) of
             Err e \<Rightarrow> (Err (Msg e), sw1)
           | Ok _ \<Rightarrow>
               (let sw2 = sw_call SetServerMode sw1;
                    sw3 = fold (\<lambda>a. sw_call (AddExternalAddress a)) (lp_announce_addresses lp) sw2;
                    sw4 = fold (dial_node (lp_max_connected_peers lp)) (enumerate 0 (lp_node_addresses lp)) sw3 in
                if ps_enable (lp_pubsub lp)
                then (case gossip_subscribe X RECEIPTS_TOPIC sw4 of
                        (Err _, sw5) \<Rightarrow> (Err (Msg ''subscription error''), sw5)
                      | (Ok _, sw5) \<Rightarrow> (Ok (), sw5))
                else (Ok (), sw4))))"

definition swarm_new :: "key_deps \<Rightarrow> swarm_host \<Rightarrow> network_settings \<Rightarrow> anyhow + swarm" where
  "swarm_new K X settings =
     (let lp = nw_libp2p settings in
      and_then (map_err (\<lambda>_. Msg ''failed to generate/import keypair for libp2p'')
                  (keypair_of K (nw_keypair_config settings))) (\<lambda>keypair.
      and_then (map_err Msg (noise_new X keypair)) (\<lambda>_.
      and_then (if ps_enable (lp_pubsub lp) then map_err Msg (gossipsub_new X (lp_pubsub lp)) else Ok ()) (\<lambda>_.
      and_then (if mdns_enable (lp_mdns lp) then map_err Msg (mdns_new X (lp_mdns lp)) else Ok ()) (\<lambda>_.
      case swarm_init X settings
             \<lparr>sw_calls = [], sw_gossipsub = ps_enable (lp_pubsub lp), sw_mdns = mdns_enable (lp_mdns lp),
              sw_rendezvous_client = rv_enable_client (lp_rendezvous lp),
              sw_rendezvous_server = rv_enable_server (lp_rendezvous lp)\<rparr> of
        (Err e, _) \<Rightarrow> Err e
      | (Ok _, sw) \<Rightarrow> Ok sw)))))"

text \<open>The protocol version of this release, which peers must share.\<close>

definition HOMESTAR_PROTOCOL_VER :: string where "HOMESTAR_PROTOCOL_VER = ''homestar/0.1.0''"

section \<open>Lemmas\<close>

lemma sw_calls_call [simp]: "sw_calls (sw_call c sw) = sw_calls sw @ [c]"
  by (simp add: sw_call_def)

lemma sw_call_toggles [simp]:
  "sw_gossipsub (sw_call c sw) = sw_gossipsub sw"
  "sw_mdns (sw_call c sw) = sw_mdns sw"
  "sw_rendezvous_client (sw_call c sw) = sw_rendezvous_client sw"
  "sw_rendezvous_server (sw_call c sw) = sw_rendezvous_server sw"
  by (simp_all add: sw_call_def)

lemma sw_calls_fold [simp]: "sw_calls (fold (\<lambda>a. sw_call (f a)) as sw) = sw_calls sw @ map f as"
  by (induction as arbitrary: sw) simp_all

text \<open>The calls that dial a peer or an address.\<close>

fun is_dial :: "swarm_call \<Rightarrow> bool" where
  "is_dial (DialAddress _) = True"
| "is_dial (DialPeer _ _ _) = True"
| "is_dial _ = False"

definition dials :: "swarm \<Rightarrow> swarm_call list" where
  "dials sw = filter is_dial (sw_calls sw)"

lemma dials_call [simp]: "dials (sw_call c sw) = dials sw @ (if is_dial c then [c] else [])"
  by (simp add: dials_def)

lemma dials_dial_node: "dials (dial_node m ia sw) = dials sw @ (if fst ia < unat m then [DialAddress (snd ia)] else [])"
  by (cases ia) (simp add: dial_node_def Let_def split: option.split)

text \<open>At the start, the first nodes of the settings are dialed, as many as may be connected.\<close>

lemma dials_dial_nodes:
  "dials (fold (dial_node m) (enumerate k as) sw) = dials sw @ map DialAddress (take (unat m - k) as)"
proof (induction as arbitrary: k sw)
  case (Cons a as)
  show ?case
  proof (cases "k < unat m")
    case True
    then have "unat m - k = Suc (unat m - Suc k)" by simp
    with True Cons show ?thesis by (simp add: dials_dial_node)
  qed (simp add: Cons dials_dial_node)
qed simp

lemma gossip_publish_Ok:
  assumes "gossip_publish D X topic (CapturedReceiptMessage m) sw = (Ok i, sw')"
  obtains b where "message_to_bytes D (rt_receipt_into D) m = Ok b" and "sw' = sw_call (Publish topic b) sw"
  using assms by (auto simp: gossip_publish_def Let_def map_err_eq_Ok split: if_splits sum.splits)

lemma gossip_publish_dials [simp]: "dials (snd (gossip_publish D X topic m sw)) = dials sw"
  by (auto simp: gossip_publish_def Let_def split: topic_message.split sum.split)

lemma gossip_subscribe_dials [simp]: "dials (snd (gossip_subscribe X topic sw)) = dials sw"
  by (simp add: gossip_subscribe_def Let_def)

end
