(* ===== verification/Handler.thy ===== *)
theory Handler
  imports Worker Swarm "HOL-Library.Option_ord"
begin

text \<open>
  The event handler (\<open>event_handler.rs\<close>, \<open>event_handler/event.rs\<close>, \<open>event_handler/cache.rs\<close>): its
  state, and what it does for each event of the runtime. The channel of events is bounded: the
  handler is its only reader, so a send of its own to a full channel never returns; \<open>h_blocked\<close>
  says that this happened, and nothing follows it. What is sent on the other channels is
  recorded in the order of the sends (\<open>h_sent\<close>, \<open>h_ws_evt\<close>, \<open>h_ws_workflow\<close>, \<open>h_ipfs\<close>).
\<close>

section \<open>The cache of timers\<close>

datatype dispatch_event = DispatchRegisterPeer | DispatchDiscoverPeers

datatype cache_data = CachePeer peer_id | CacheOnExpiration dispatch_event

record cache_value =
  cv_expiration :: duration
  cv_data :: "(string, cache_data) index_map"

datatype removal_cause = CauseExpired | CauseReplaced | CauseExplicit | CauseSize

text \<open>The eviction listener: the event it sends for an entry that is removed, if any.\<close>

definition eviction_listener :: "cache_value \<Rightarrow> removal_cause \<Rightarrow> event option" where
  "eviction_listener val why =
     (case im_get (cv_data val) ''on_expiration'' of
        Some (CacheOnExpiration ev) \<Rightarrow>
          if why \<noteq> CauseExpired then None
          else (case ev of
                  DispatchRegisterPeer \<Rightarrow>
                    (case im_get (cv_data val) ''rendezvous_node'' of
                       Some (CachePeer rendezvous_node) \<Rightarrow> Some (RegisterPeer rendezvous_node)
                     | _ \<Rightarrow> None)
                | DispatchDiscoverPeers \<Rightarrow>
                    (case im_get (cv_data val) ''rendezvous_node'' of
                       Some (CachePeer rendezvous_node) \<Rightarrow> Some (DiscoverPeers rendezvous_node)
                     | _ \<Rightarrow> None))
      | _ \<Rightarrow> None)"

section \<open>State\<close>

record dynamic_node_info =
  ni_listeners :: "multiaddr list"
  ni_connections :: "(peer_id, multiaddr) index_map"

datatype outgoing =
    ToWaiter sender response_event
  | ToShutdown sender
  | ToNodeInfo sender dynamic_node_info

text \<open>A connected point is kept by its remote address, the only part that is used.\<close>

record handler =
  h_receipt_quorum :: usize
  h_workflow_quorum :: usize
  h_workflow_info_timeout :: duration
  h_provider_timeout :: duration
  h_db :: database
  h_swarm :: swarm
  h_cache :: "(string, cache_value) index_map"
  h_queue :: "event list"
  h_queue_len :: nat
  h_blocked :: bool
  h_query_senders :: "(query_id, request_response_key \<times> sender option) index_map"
  h_peers :: "(peer_id, multiaddr) index_map"
  h_max_peers :: u32
  h_request_senders :: "(request_id, request_response_key \<times> sender) index_map"
  h_registration_ttl :: duration
  h_discovery_interval :: duration
  h_discovered :: "(peer_id, peer_id) index_map"
  h_cookies :: "(peer_id, cookie) index_map"
  h_pubsub_enabled :: bool
  h_node_addresses :: "multiaddr list"
  h_announce_addresses :: "multiaddr list"
  h_external_limit :: u32
  h_poll_cache_interval :: duration
  h_sent :: "outgoing list"
  h_ws_evt :: "ws_message list"
  h_ws_workflow :: "ws_message list"
  h_ipfs :: "bytes list"

definition handler_new :: "swarm \<Rightarrow> database \<Rightarrow> network_settings \<Rightarrow> handler" where
  "handler_new sw db settings =
     (let lp = nw_libp2p settings in
      \<lparr>h_receipt_quorum = dht_receipt_quorum (lp_dht lp),
       h_workflow_quorum = dht_workflow_quorum (lp_dht lp),
       h_workflow_info_timeout = dht_workflow_info_timeout (lp_dht lp),
       h_provider_timeout = dht_provider_timeout (lp_dht lp),
       h_db = db, h_swarm = sw, h_cache = [], h_queue = [],
       h_queue_len = unat (nw_events_buffer_len settings), h_blocked = False,
       h_query_senders = [], h_peers = [], h_max_peers = lp_max_connected_peers lp,
       h_request_senders = [],
       h_registration_ttl = rv_registration_ttl (lp_rendezvous lp),
       h_discovery_interval = rv_discovery_interval (lp_rendezvous lp),
       h_discovered = [], h_cookies = [], h_pubsub_enabled = ps_enable (lp_pubsub lp),
       h_node_addresses = lp_node_addresses lp, h_announce_addresses = lp_announce_addresses lp,
       h_external_limit = lp_max_announce_addresses lp,
       h_poll_cache_interval = nw_poll_cache_interval settings,
       h_sent = [], h_ws_evt = [], h_ws_workflow = [], h_ipfs = []\<rparr>)"

text \<open>\<open>HashMap::remove\<close>.\<close>

definition hm_remove :: "'k \<Rightarrow> ('k, 'v) index_map \<Rightarrow> ('k, 'v) index_map" where
  "hm_remove k m = filter (\<lambda>p. fst p \<noteq> k) m"

section \<open>Effects\<close>

definition h_call :: "swarm_call \<Rightarrow> handler \<Rightarrow> handler" where
  "h_call c h = h\<lparr>h_swarm := sw_call c (h_swarm h)\<rparr>"

definition h_calls :: "handler \<Rightarrow> swarm_call list" where
  "h_calls h = sw_calls (h_swarm h)"

definition h_send :: "outgoing \<Rightarrow> handler \<Rightarrow> handler" where
  "h_send m h = h\<lparr>h_sent := h_sent h @ [m]\<rparr>"

definition reply :: "sender option \<Rightarrow> response_event \<Rightarrow> handler \<Rightarrow> handler" where
  "reply tx response h = (case tx of Some s \<Rightarrow> h_send (ToWaiter s response) h | None \<Rightarrow> h)"

text \<open>A send of the handler to its own channel.\<close>

definition send_self :: "event \<Rightarrow> handler \<Rightarrow> handler" where
  "send_self e h =
     (if h_blocked h then h
      else if length (h_queue h) < h_queue_len h then h\<lparr>h_queue := h_queue h @ [e]\<rparr>
      else h\<lparr>h_blocked := True\<rparr>)"

definition notify ::
  "deps \<Rightarrow> net_deps \<Rightarrow> swarm_notification \<Rightarrow> (string, ipld) btree_map \<Rightarrow> handler \<Rightarrow> handler" where
  "notify D N ty data h = h\<lparr>h_ws_evt := h_ws_evt h @ emit_event D N (SwarmNotification ty) data\<rparr>"

definition db_conn :: "swarm_host \<Rightarrow> handler \<Rightarrow> anyhow + database" where
  "db_conn X h = and_then (map_err Msg (pool_get X (h_calls h))) (\<lambda>_. Ok (h_db h))"

text \<open>The fields of the notifications about receipts and about workflow information.\<close>

definition receipt_fields :: "deps \<Rightarrow> rt_receipt \<Rightarrow> (string, ipld) btree_map" where
  "receipt_fields D r =
     [(''cid'', IString (cid_to_string D (ptr_cid (r_cid r)))),
      (''ran'', IString (cid_to_string D (ptr_cid (r_ran r))))]"

definition info_fields :: "deps \<Rightarrow> info \<Rightarrow> (string, ipld) btree_map" where
  "info_fields D i =
     [(''cid'', IString (cid_to_string D (i_cid i))),
      (''name'', case i_name i of None \<Rightarrow> INull | Some n \<Rightarrow> IString n),
      (''numTasks'', IInteger (uint (i_num_tasks i))),
      (''progress'', IList (map (\<lambda>c. IString (cid_to_string D c)) (i_progress i))),
      (''progressCount'', IInteger (uint (i_progress_count i)))]"

definition peer_field :: "net_deps \<Rightarrow> peer_id option \<Rightarrow> ipld" where
  "peer_field N p = (case p of None \<Rightarrow> INull | Some peer \<Rightarrow> IString (peer_to_string N peer))"

section \<open>Publishing receipts\<close>

text \<open>Publishing one receipt by gossip, with the notification that follows a success.\<close>

definition publish_receipt ::
  "deps \<Rightarrow> net_deps \<Rightarrow> swarm_host \<Rightarrow> rt_receipt \<Rightarrow> handler \<Rightarrow> handler" where
  "publish_receipt D N X r h =
     (let msg = CapturedReceiptMessage \<lparr>m_nonce = generate_nonce X (h_calls h), m_payload = r\<rparr> in
      case gossip_publish D X RECEIPTS_TOPIC msg (h_swarm h) of
        (Ok _, sw) \<Rightarrow> notify D N PublishedReceiptPubsub (receipt_fields D r) (h\<lparr>h_swarm := sw\<rparr>)
      | (Err _, sw) \<Rightarrow> h\<lparr>h_swarm := sw\<rparr>)"

definition receipt_quorum :: "handler \<Rightarrow> quorum" where
  "receipt_quorum h =
     (if 0 < h_receipt_quorum h then QuorumN (h_receipt_quorum h) else QuorumOne)"

definition workflow_quorum :: "handler \<Rightarrow> quorum" where
  "workflow_quorum h =
     (if 0 < h_workflow_quorum h then QuorumN (h_receipt_quorum h) else QuorumOne)"

text \<open>Putting a record in the DHT; a success is registered and notified.\<close>

definition put_record ::
  "deps \<Rightarrow> net_deps \<Rightarrow> swarm_host \<Rightarrow> bytes \<Rightarrow> bytes \<Rightarrow> quorum \<Rightarrow> request_response_key \<Rightarrow>
   swarm_notification \<Rightarrow> (string, ipld) btree_map \<Rightarrow> handler \<Rightarrow> handler" where
  "put_record D N X key value q rr_key ty data h =
     (let h1 = h_call (PutRecord key value q) h in
      case put_result X (h_calls h1) of
        Err _ \<Rightarrow> h1
      | Ok query_id \<Rightarrow>
          notify D N ty data
            (h1\<lparr>h_query_senders := im_insert query_id (rr_key, None) (h_query_senders h1)\<rparr>))"

definition publish_and_notify ::
  "deps \<Rightarrow> net_deps \<Rightarrow> swarm_host \<Rightarrow> captured \<Rightarrow> handler \<Rightarrow>
   (anyhow + cid \<times> invocation_receipt) \<times> handler" where
  "publish_and_notify D N X cap h =
     (case and_then (db_conn X h) (\<lambda>db.
             map_err (\<lambda>_. Msg ''database error'') (find_receipt_by_cid (cap_receipt cap) db)) of
        Err e \<Rightarrow> (Err e, h)
      | Ok receipt \<Rightarrow>
          (let invocation_receipt = to_invocation_receipt receipt;
               h1 = h\<lparr>h_ws_workflow := h_ws_workflow h @ emit_receipt D N receipt (cap_metadata cap)\<rparr>
           in
           if h_peers h1 = [] then (Ok (cap_receipt cap, invocation_receipt), h1)
           else
             (let h2 = (if h_pubsub_enabled h1 then publish_receipt D N X receipt h1 else h1) in
              case invocation_capsule D invocation_receipt of
                Err _ \<Rightarrow> (Ok (cap_receipt cap, invocation_receipt), h2)
              | Ok receipt_bytes \<Rightarrow>
                  (let h3 = put_record D N X (cid_to_bytes D (ptr_cid (r_instruction receipt)))
                         receipt_bytes (receipt_quorum h2)
                         \<lparr>k_cid = cid_to_string D (ptr_cid (r_cid receipt)), k_tag = CapsuleReceipt\<rparr>
                         PutReceiptDht (receipt_fields D receipt) h2;
                       workflow = increment_progress (ptr_cid (r_cid receipt)) (cap_workflow cap)
                   in
                   case info_capsule D workflow of
                     Err _ \<Rightarrow> (Ok (cap_receipt cap, invocation_receipt), h3)
                   | Ok workflow_bytes \<Rightarrow>
                       (Ok (cap_receipt cap, invocation_receipt),
                        put_record D N X (cid_to_bytes D (i_cid workflow)) workflow_bytes
                          (workflow_quorum h3)
                          \<lparr>k_cid = cid_to_string D (i_cid workflow), k_tag = CapsuleWorkflow\<rparr>
                          PutWorkflowInfoDht (info_fields D workflow) h3)))))"

text \<open>Replaying receipts, in the order of the pointers.\<close>

definition replay_order :: "pointer list \<Rightarrow> rt_receipt list \<Rightarrow> rt_receipt list" where
  "replay_order pointers rs = sort_key (\<lambda>r. position (\<lambda>p. p = r_instruction r) pointers) rs"

definition replay_notify ::
  "deps \<Rightarrow> net_deps \<Rightarrow> swarm_host \<Rightarrow> replay \<Rightarrow> handler \<Rightarrow> (anyhow + unit) \<times> handler" where
  "replay_notify D N X rep h =
     (case and_then (db_conn X h) (\<lambda>db.
             map_err (\<lambda>_. Msg ''database error'') (find_instruction_pointers (rep_pointers rep) db)) of
        Err e \<Rightarrow> (Err e, h)
      | Ok found \<Rightarrow>
          (let receipts = replay_order (rep_pointers rep) found;
               h1 = h\<lparr>h_ws_workflow := h_ws_workflow h @
                   concat (map (\<lambda>r. emit_receipt D N r (rep_metadata rep)) receipts)\<rparr>
           in (Ok (), if h_pubsub_enabled h1 then fold (publish_receipt D N X) receipts h1 else h1)))"

section \<open>Queries\<close>

definition cid_key :: "deps \<Rightarrow> cid \<Rightarrow> capsule_tag \<Rightarrow> request_response_key" where
  "cid_key D c tag = \<lparr>k_cid = cid_to_string D c, k_tag = tag\<rparr>"

definition record_find :: "deps \<Rightarrow> swarm_host \<Rightarrow> query_record \<Rightarrow> handler \<Rightarrow> handler" where
  "record_find D X q h =
     (let h1 = h_call (GetRecord (cid_to_bytes D (q_cid q))) h;
          query_id = query_result_id X (h_calls h1)
      in h1\<lparr>h_query_senders :=
           im_insert query_id (cid_key D (q_cid q) (q_capsule q), q_sender q) (h_query_senders h1)\<rparr>)"

definition record_remove :: "deps \<Rightarrow> query_record \<Rightarrow> handler \<Rightarrow> handler" where
  "record_remove D q h =
     h_call (StopProviding (cid_to_bytes D (q_cid q)))
       (h_call (RemoveRecordOf (cid_to_bytes D (q_cid q))) h)"

definition record_get_providers :: "deps \<Rightarrow> swarm_host \<Rightarrow> query_record \<Rightarrow> handler \<Rightarrow> handler" where
  "record_get_providers D X q h =
     (let h1 = h_call (GetRecordProviders (cid_to_bytes D (q_cid q))) h;
          query_id = query_result_id X (h_calls h1)
      in h1\<lparr>h_query_senders :=
           im_insert query_id (cid_key D (q_cid q) (q_capsule q), q_sender q) (h_query_senders h1)\<rparr>)"

definition outbound_request :: "swarm_host \<Rightarrow> peer_request \<Rightarrow> handler \<Rightarrow> handler" where
  "outbound_request X req h =
     (let h1 = h_call (SendRequest (pr_peer req) (pr_request req)) h;
          request_id = request_result_id X (h_calls h1)
      in h1\<lparr>h_request_senders :=
           im_insert request_id (pr_request req, pr_sender req) (h_request_senders h1)\<rparr>)"

definition provide_record ::
  "deps \<Rightarrow> swarm_host \<Rightarrow> cid \<Rightarrow> sender option \<Rightarrow> capsule_tag \<Rightarrow> handler \<Rightarrow> (anyhow + unit) \<times> handler" where
  "provide_record D X c tx tag h =
     (let h1 = h_call (StartProviding (cid_to_bytes D c)) h in
      case provide_result X (h_calls h1) of
        Err e \<Rightarrow> (Err (Msg e), h1)
      | Ok query_id \<Rightarrow>
          (Ok (), h1\<lparr>h_query_senders := im_insert query_id (cid_key D c tag, tx) (h_query_senders h1)\<rparr>))"

definition stored_record :: "deps \<Rightarrow> net_deps \<Rightarrow> found_event \<Rightarrow> handler \<Rightarrow> handler" where
  "stored_record D N found h =
     (case found of
        FoundReceipt peer receipt ty \<Rightarrow>
          h\<lparr>h_ws_evt := h_ws_evt h @
              emit_event D N ty ((''publisher'', peer_field N peer) # receipt_fields D receipt)\<rparr>
      | FoundWorkflow peer i ty \<Rightarrow>
          (case workflow_info_source_label ty of
             Some peer_label \<Rightarrow>
               h\<lparr>h_ws_evt := h_ws_evt h @
                   emit_event D N ty ((peer_label, peer_field N peer) # info_fields D i)\<rparr>
           | None \<Rightarrow> h))"

section \<open>Rendezvous\<close>

definition RENDEZVOUS_NAMESPACE :: string where "RENDEZVOUS_NAMESPACE = ''homestar''"

text \<open>A registration that is refused is only logged.\<close>

definition register_peer :: "peer_id \<Rightarrow> handler \<Rightarrow> handler" where
  "register_peer peer h =
     (if sw_rendezvous_client (h_swarm h)
      then h_call (RegisterWith RENDEZVOUS_NAMESPACE peer (as_secs (h_registration_ttl h))) h
      else h)"

definition discover_peers :: "peer_id \<Rightarrow> handler \<Rightarrow> handler" where
  "discover_peers peer h =
     (if sw_rendezvous_client (h_swarm h)
      then h_call (DiscoverFrom RENDEZVOUS_NAMESPACE (im_get (h_cookies h) peer) peer) h
      else h)"

section \<open>Handling an event\<close>

definition handle_info ::
  "deps \<Rightarrow> net_deps \<Rightarrow> swarm_host \<Rightarrow> event \<Rightarrow> handler \<Rightarrow> (anyhow + unit) \<times> handler" where
  "handle_info D N X e h =
     (case e of
        CapturedReceipt cap \<Rightarrow> (Ok (), snd (publish_and_notify D N X cap h))
      | Shutdown tx \<Rightarrow> (Ok (), h_send (ToShutdown tx) h)
      | GetNodeInfo tx \<Rightarrow>
          (Ok (), h_send (ToNodeInfo tx
             \<lparr>ni_listeners = swarm_listeners X (h_calls h), ni_connections = h_peers h\<rparr>) h)
      | FindRecord q \<Rightarrow> (Ok (), record_find D X q h)
      | RemoveRecord q \<Rightarrow> (Ok (), record_remove D q h)
      | StoredRecord found \<Rightarrow> (Ok (), stored_record D N found h)
      | OutboundRequest req \<Rightarrow> (Ok (), outbound_request X req h)
      | GetProviders q \<Rightarrow> (Ok (), record_get_providers D X q h)
      | ProvideRecord c tx tag \<Rightarrow> provide_record D X c tx tag h
      | Providers (Ok (providers, key, tx)) \<Rightarrow>
          (Ok (), fold (\<lambda>peer. send_self (OutboundRequest
             \<lparr>pr_peer = peer, pr_request = key, pr_sender = tx\<rparr>)) providers h)
      | Providers (Err _) \<Rightarrow> (Ok (), h)
      | RegisterPeer peer \<Rightarrow> (Ok (), register_peer peer h)
      | DiscoverPeers peer \<Rightarrow> (Ok (), discover_peers peer h)
      | ReplayReceipts _ \<Rightarrow> (Ok (), h))"

text \<open>
  \<open>Event::handle_event\<close> without and with the \<open>ipfs\<close> feature, the default. With it, the bytes of
  a published receipt are put to IPFS in the background.
\<close>

definition handle_event_plain ::
  "deps \<Rightarrow> net_deps \<Rightarrow> swarm_host \<Rightarrow> event \<Rightarrow> handler \<Rightarrow> handler" where
  "handle_event_plain D N X e h = snd (handle_info D N X e h)"

definition handle_event :: "deps \<Rightarrow> net_deps \<Rightarrow> swarm_host \<Rightarrow> event \<Rightarrow> handler \<Rightarrow> handler" where
  "handle_event D N X e h =
     (case e of
        CapturedReceipt cap \<Rightarrow>
          (case publish_and_notify D N X cap h of
             (Ok (_, receipt), h') \<Rightarrow>
               (case receipt_to_bytes D receipt of
                  Ok bytes \<Rightarrow> h'\<lparr>h_ipfs := h_ipfs h' @ [bytes]\<rparr>
                | Err _ \<Rightarrow> h')
           | (Err _, h') \<Rightarrow> h')
      | ReplayReceipts rep \<Rightarrow> snd (replay_notify D N X rep h)
      | _ \<Rightarrow> snd (handle_info D N X e h))"

end
