(* ===== verification/Swarm_Events.thy ===== *)
theory Swarm_Events
  imports Handler
begin

text \<open>
  What the event handler does for the events of the swarm
  (\<open>event_handler/swarm_event.rs\<close>), one definition per protocol, and the loop of the handler
  (\<open>EventHandler::start\<close>, \<open>poll_cache\<close>) as a step relation: each step handles one event of the
  channel or of the swarm, expires one timer, or lets another task send an event.
\<close>

section \<open>Events of the swarm\<close>

record identify_info =
  ii_protocol_version :: string
  ii_listen_addrs :: "multiaddr list"
  ii_protocols :: "string list"
  ii_observed_addr :: multiaddr

datatype identify_event =
    IdentifyError peer_id string
  | IdentifySent peer_id
  | IdentifyReceived peer_id identify_info
  | IdentifyPushed peer_id

record registration =
  reg_peer :: peer_id
  reg_addresses :: "multiaddr list"

datatype rendezvous_client_event =
    Discovered peer_id "registration list" cookie
  | DiscoverFailed peer_id string
  | Registered peer_id nat
  | RegisterFailed peer_id string
  | RendezvousExpired peer_id

datatype rendezvous_server_event =
    DiscoverServed peer_id
  | DiscoverNotServed peer_id string
  | PeerRegistered peer_id
  | PeerNotRegistered peer_id string string
  | RegistrationExpired registration
  | PeerUnregistered peer_id

datatype gossip_event =
    GossipMessage bytes peer_id string
  | GossipSubscribed peer_id string
  | GossipUnsubscribed peer_id string

datatype put_record_error = QuorumFailed "peer_id list" | PutTimeout

datatype query_result =
    BootstrapOk peer_id
  | BootstrapErr string
  | FoundProviders "peer_id list"
  | ProvidersFinished
  | ProvidersErr string
  | FoundRecord dht_record
  | RecordFinished
  | RecordErr string
  | PutRecordOk
  | PutRecordErr put_record_error
  | StartProvidingOk
  | StartProvidingErr
  | OtherQueryResult

datatype kad_event =
    OutboundQueryProgressed query_id query_result
  | KadInboundRequest
  | RoutingUpdated peer_id
  | OtherKadEvent

datatype request_response_event =
    RequestMessage peer_id request_response_key response_channel
  | ResponseMessage peer_id request_id bytes
  | ResponseSent peer_id
  | OutboundFailure peer_id request_id
  | InboundFailure peer_id

datatype mdns_event =
    MdnsDiscovered "(peer_id \<times> multiaddr) list"
  | MdnsExpired "(peer_id \<times> multiaddr) list"

datatype swarm_event =
    Identify identify_event
  | RendezvousClient rendezvous_client_event
  | RendezvousServer rendezvous_server_event
  | Gossipsub gossip_event
  | Kademlia kad_event
  | RequestResponse request_response_event
  | Mdns mdns_event
  | NewListenAddr multiaddr
  | IncomingConnection
  | ConnectionEstablished peer_id multiaddr
  | ConnectionClosed peer_id multiaddr
  | OutgoingConnectionErr "peer_id option" string
  | IncomingConnectionErr string
  | ListenerError string
  | Dialing "peer_id option"
  | OtherSwarmEvent

section \<open>Identify\<close>

definition RENDEZVOUS_PROTOCOL_NAME :: string where "RENDEZVOUS_PROTOCOL_NAME = ''/rendezvous/1.0.0''"

fun no_private_ip :: "multiaddr \<Rightarrow> bool" where
  "no_private_ip [] = True"
| "no_private_ip (Ip4 a b _ _ # ps) = (\<not> is_private a b \<and> no_private_ip ps)"
| "no_private_ip (_ # ps) = no_private_ip ps"

definition handle_identify :: "swarm_host \<Rightarrow> identify_event \<Rightarrow> handler \<Rightarrow> handler" where
  "handle_identify X ev h =
     (case ev of
        IdentifyReceived peer info \<Rightarrow>
          if ii_protocol_version info \<noteq> HOMESTAR_PROTOCOL_VER then h
          else
            (let num_addresses = length (external_addresses X (h_calls h));
                 h1 = (if peer = local_peer_id X \<and> num_addresses < unat (h_external_limit h) \<and>
                          no_private_ip (ii_observed_addr info)
                       then h_call (AddExternalAddress (ii_observed_addr info)) h else h);
                 h2 = (if kad_protocol_name X \<in> set (ii_protocols info)
                       then fold (\<lambda>addr. h_call (AddAddress peer addr)) (ii_listen_addrs info) h1 else h1)
             in
             if RENDEZVOUS_PROTOCOL_NAME \<in> set (ii_protocols info) \<and> sw_rendezvous_client (h_swarm h2)
             then h_call (DiscoverFrom RENDEZVOUS_NAMESPACE None peer)
                    (h_call (RegisterWith RENDEZVOUS_NAMESPACE peer (as_secs (h_registration_ttl h2))) h2)
             else h2)
      | _ \<Rightarrow> h)"

section \<open>Rendezvous\<close>

text \<open>
  Inserting into the cache may also do its pending work: entries that have expired by then are
  removed, and their listener sends its events to the channel of the handler, from within the
  handler. Which entries these are is up to \<open>moka\<close>.
\<close>

definition evict :: "string \<Rightarrow> handler \<Rightarrow> handler" where
  "evict k h =
     (case im_get (h_cache h) k of
        Some v \<Rightarrow>
          if h_blocked h then h
          else
            (let h1 = h\<lparr>h_cache := hm_remove k (h_cache h)\<rparr> in
             case eviction_listener v CauseExpired of Some e \<Rightarrow> send_self e h1 | None \<Rightarrow> h1)
      | None \<Rightarrow> h)"

definition cache_insert :: "swarm_host \<Rightarrow> string \<Rightarrow> cache_value \<Rightarrow> handler \<Rightarrow> handler" where
  "cache_insert X k v h =
     fold evict (evicted_keys X (h_calls h)) (h\<lparr>h_cache := im_insert k v (h_cache h)\<rparr>)"

definition timer :: "duration \<Rightarrow> dispatch_event \<Rightarrow> peer_id \<Rightarrow> cache_value" where
  "timer d ev node =
     \<lparr>cv_expiration = d,
      cv_data = [(''on_expiration'', CacheOnExpiration ev), (''rendezvous_node'', CachePeer node)]\<rparr>"

text \<open>Dialing one of the peers that were discovered and are not connected.\<close>

definition dial_registration ::
  "swarm_host \<Rightarrow> peer_id \<Rightarrow> nat \<Rightarrow> nat \<times> registration \<Rightarrow> handler \<Rightarrow> handler" where
  "dial_registration X node connected ir h =
     (case ir of (index, registration) \<Rightarrow>
        (let self_registration = (reg_peer registration = local_peer_id X) in
         if \<not> self_registration \<and> connected + index < unat (h_max_peers h)
         then (let h1 = h_call (DialPeer (reg_peer registration) (reg_addresses registration) (Some PeerDisconnected)) h in
               case dial_result X (h_calls h1) of
                 Ok _ \<Rightarrow> h1\<lparr>h_discovered := im_insert (reg_peer registration) node (h_discovered h1)\<rparr>
               | Err _ \<Rightarrow> h1)
         else h))"

definition handle_discovered ::
  "net_deps \<Rightarrow> swarm_host \<Rightarrow> peer_id \<Rightarrow> registration list \<Rightarrow> cookie \<Rightarrow> handler \<Rightarrow> handler" where
  "handle_discovered N X node registrations cookie h =
     (if cookie_namespace cookie = Some RENDEZVOUS_NAMESPACE
      then
        (let h1 = h\<lparr>h_cookies := im_insert node cookie (h_cookies h)\<rparr>;
             connected = length (h_peers h1)
         in
         if unat (h_max_peers h1) \<le> connected then h1
         else
           (let new_registrations = filter (\<lambda>r. reg_peer r \<notin> fst ` set (h_peers h1)) registrations;
                h2 = fold (dial_registration X node connected) (enumerate 0 new_registrations) h1
            in cache_insert X (peer_to_string N node @ ''-discover'')
                 (timer (h_discovery_interval h2) DispatchDiscoverPeers node) h2))
      else h)"

definition handle_rendezvous_client ::
  "net_deps \<Rightarrow> swarm_host \<Rightarrow> rendezvous_client_event \<Rightarrow> handler \<Rightarrow> handler" where
  "handle_rendezvous_client N X ev h =
     (case ev of
        Discovered node registrations cookie \<Rightarrow> handle_discovered N X node registrations cookie h
      | Registered node ttl \<Rightarrow>
          cache_insert X (peer_to_string N node @ ''-register'')
            (timer (h_registration_ttl h) DispatchRegisterPeer node) h
      | RendezvousExpired peer \<Rightarrow>
          if sw_rendezvous_client (h_swarm h)
          then (case im_get (h_discovered h) peer of
                  Some rendezvous_point \<Rightarrow>
                    h_call (DiscoverFrom RENDEZVOUS_NAMESPACE (im_get (h_cookies h) peer) rendezvous_point)
                      (h\<lparr>h_discovered := hm_remove peer (h_discovered h)\<rparr>)
                | None \<Rightarrow> h)
          else h
      | DiscoverFailed _ _ \<Rightarrow> h
      | RegisterFailed _ _ \<Rightarrow> h)"

section \<open>Gossip\<close>

definition handle_gossip :: "deps \<Rightarrow> net_deps \<Rightarrow> swarm_host \<Rightarrow> gossip_event \<Rightarrow> handler \<Rightarrow> handler" where
  "handle_gossip D N X ev h =
     (case ev of
        GossipMessage bytes source message_id \<Rightarrow>
          (case message_from_bytes D (rt_receipt_try_from D) bytes of
             Ok msg \<Rightarrow>
               (let receipt = m_payload msg;
                    h1 = (case db_conn X h of
                            Ok db \<Rightarrow> h\<lparr>h_db := snd (store_receipt receipt db)\<rparr>
                          | Err _ \<Rightarrow> h)
                in notify D N ReceivedReceiptPubsub
                     ((''publisher'', IString (peer_to_string N source)) # receipt_fields D receipt) h1)
           | Err _ \<Rightarrow> h)
      | _ \<Rightarrow> h)"

section \<open>Kademlia\<close>

definition take_query ::
  "query_id \<Rightarrow> handler \<Rightarrow> (request_response_key \<times> sender option) option \<times> handler" where
  "take_query i h =
     (im_get (h_query_senders h) i, h\<lparr>h_query_senders := hm_remove i (h_query_senders h)\<rparr>)"

definition found_providers :: "swarm_host \<Rightarrow> query_id \<Rightarrow> peer_id list \<Rightarrow> handler \<Rightarrow> handler" where
  "found_providers X i all h =
     (let providers = filter (\<lambda>p. p \<noteq> local_peer_id X) all in
      if providers = [] then h
      else
        (case take_query i h of
           (None, h1) \<Rightarrow> h1
         | (Some (key, tx), h1) \<Rightarrow>
             (let h2 = (case tx of Some s \<Rightarrow> send_self (Providers (Ok (providers, key, s))) h1 | None \<Rightarrow> h1) in
              if h_blocked h2 then h2 else h_call (FinishQuery i) h2)))"

definition found_in_dht :: "decoded_record \<Rightarrow> response_event" where
  "found_in_dht decoded =
     (case decoded of
        DecodedReceipt peer receipt \<Rightarrow> Found (Ok (FoundReceipt peer receipt (SwarmNotification GotReceiptDht)))
      | DecodedWorkflow peer i \<Rightarrow> Found (Ok (FoundWorkflow peer i (SwarmNotification GotWorkflowInfoDht))))"

definition answer_query :: "query_id \<Rightarrow> (request_response_key \<Rightarrow> response_event) \<Rightarrow> handler \<Rightarrow> handler" where
  "answer_query i response h =
     (case take_query i h of
        (None, h1) \<Rightarrow> h1
      | (Some (key, tx), h1) \<Rightarrow> reply tx (response key) h1)"

definition record_error :: "string \<Rightarrow> request_response_key \<Rightarrow> response_event" where
  "record_error err key =
     (case k_tag key of
        CapsuleWorkflow \<Rightarrow> Found (Err (Msg err))
      | tag \<Rightarrow> Found (Err (Msg (''not a valid provider record tag: '' @ capsule_tag_str tag))))"

definition put_success :: "deps \<Rightarrow> net_deps \<Rightarrow> query_id \<Rightarrow> handler \<Rightarrow> handler" where
  "put_success D N i h =
     (case take_query i h of
        (None, h1) \<Rightarrow> h1
      | (Some (key, _), h1) \<Rightarrow>
          (case k_tag key of
             CapsuleReceipt \<Rightarrow>
               notify D N ReceiptQuorumSuccess
                 [(''cid'', IString (k_cid key)), (''quorum'', IInteger (uint (h_receipt_quorum h1)))] h1
           | CapsuleWorkflow \<Rightarrow>
               notify D N WorkflowInfoQuorumSuccess
                 [(''cid'', IString (k_cid key)), (''quorum'', IInteger (uint (h_workflow_quorum h1)))] h1))"

definition put_failure :: "deps \<Rightarrow> net_deps \<Rightarrow> query_id \<Rightarrow> put_record_error \<Rightarrow> handler \<Rightarrow> handler" where
  "put_failure D N i err h =
     (case take_query i h of
        (None, h1) \<Rightarrow> h1
      | (Some (key, _), h1) \<Rightarrow>
          (case err of
             QuorumFailed success \<Rightarrow>
               (let peers = [(''connectedPeers'', IInteger (int (length (h_peers h1)))),
                             (''storedToPeers'', IList (map (\<lambda>p. IString (peer_to_string N p)) success))] in
                case k_tag key of
                  CapsuleReceipt \<Rightarrow>
                    notify D N ReceiptQuorumFailure
                      ([(''cid'', IString (k_cid key)), (''quorum'', IInteger (uint (h_receipt_quorum h1)))] @ peers) h1
                | CapsuleWorkflow \<Rightarrow>
                    notify D N WorkflowInfoQuorumFailure
                      ([(''cid'', IString (k_cid key)), (''quorum'', IInteger (uint (h_workflow_quorum h1)))] @ peers) h1)
           | PutTimeout \<Rightarrow> h1))"

definition handle_query ::
  "deps \<Rightarrow> net_deps \<Rightarrow> swarm_host \<Rightarrow> query_id \<Rightarrow> query_result \<Rightarrow> handler \<Rightarrow> handler" where
  "handle_query D N X i res h =
     (case res of
        FoundProviders providers \<Rightarrow> found_providers X i providers h
      | ProvidersErr err \<Rightarrow> answer_query i (\<lambda>_. RespProviders (Err (Msg err))) h
      | FoundRecord rec \<Rightarrow>
          (case found_record D rec of
             Ok decoded \<Rightarrow> answer_query i (\<lambda>_. found_in_dht decoded) h
           | Err err \<Rightarrow> answer_query i (\<lambda>_. Found (Err err)) h)
      | RecordErr err \<Rightarrow> answer_query i (record_error err) h
      | PutRecordOk \<Rightarrow> put_success D N i h
      | PutRecordErr err \<Rightarrow> put_failure D N i err h
      | StartProvidingOk \<Rightarrow> snd (take_query i h)
      | StartProvidingErr \<Rightarrow> snd (take_query i h)
      | _ \<Rightarrow> h)"

definition handle_kademlia ::
  "deps \<Rightarrow> net_deps \<Rightarrow> swarm_host \<Rightarrow> kad_event \<Rightarrow> handler \<Rightarrow> handler" where
  "handle_kademlia D N X ev h =
     (case ev of OutboundQueryProgressed i res \<Rightarrow> handle_query D N X i res h | _ \<Rightarrow> h)"

section \<open>Requests and responses\<close>

definition respond :: "response_channel \<Rightarrow> bytes \<Rightarrow> handler \<Rightarrow> handler" where
  "respond channel b h = h_call (SendResponse channel b) h"

definition respond_error ::
  "deps \<Rightarrow> response_channel \<Rightarrow> request_response_error \<Rightarrow> handler \<Rightarrow> handler" where
  "respond_error D channel err h = respond channel (unwrap_or (ok (rr_error_encode D err)) []) h"

text \<open>
  A request of a peer for workflow information. When it is not in the database,
  \<open>Info::retrieve\<close> asks the handler itself for providers and waits; the handler is busy here, so
  nothing can arrive before the deadline.
\<close>

definition serve_request ::
  "deps \<Rightarrow> net_deps \<Rightarrow> swarm_host \<Rightarrow> peer_id \<Rightarrow> request_response_key \<Rightarrow> response_channel \<Rightarrow> handler \<Rightarrow> handler" where
  "serve_request D N X peer request channel h =
     (case cid_from_str D (k_cid request) of
        Err _ \<Rightarrow> respond_error D channel (RrUnsupported request) h
      | Ok c \<Rightarrow>
          if capsule_tag_str (k_tag request) = WORKFLOW_TAG
          then
            (case info_retrieve D N (show_response X) (new_channel X (h_calls h)) c (ok (db_conn X h))
                    (Err RecvTimeout) of
               (res, evs) \<Rightarrow>
                 (let h1 = fold send_self evs h in
                  if h_blocked h1 then h1
                  else
                    (case res of
                       Ok i \<Rightarrow>
                         (case info_capsule D i of
                            Ok bytes \<Rightarrow>
                              notify D N SentWorkflowInfo
                                ((''requestor'', IString (peer_to_string N peer)) # info_fields D i)
                                (respond channel bytes h1)
                          | Err _ \<Rightarrow> respond_error D channel (RrInvalidCapsule request) h1)
                     | Err _ \<Rightarrow> respond_error D channel (RrTimeout request) h1)))
          else respond_error D channel (RrUnsupported request) h)"

definition handle_response ::
  "deps \<Rightarrow> peer_id \<Rightarrow> request_id \<Rightarrow> bytes \<Rightarrow> handler \<Rightarrow> handler" where
  "handle_response D peer i response h =
     (case im_get (h_request_senders h) i of
        None \<Rightarrow> h
      | Some (key, tx) \<Rightarrow>
          (let h1 = h\<lparr>h_request_senders := hm_remove i (h_request_senders h)\<rparr> in
           case cid_from_str D (k_cid key) of
             Err _ \<Rightarrow> h1
           | Ok c \<Rightarrow>
               (case decode_capsule D c (Some peer) response of
                  Ok (DecodedWorkflow p i) \<Rightarrow>
                    h_send (ToWaiter tx (Found (Ok (FoundWorkflow p i (SwarmNotification ReceivedWorkflowInfo))))) h1
                | Ok (DecodedReceipt _ _) \<Rightarrow>
                    h_send (ToWaiter tx (Found (Err (Msg ''Found receipt record when workflow info was expected'')))) h1
                | Err err \<Rightarrow> h_send (ToWaiter tx (Found (Err err))) h1)))"

definition handle_request_response ::
  "deps \<Rightarrow> net_deps \<Rightarrow> swarm_host \<Rightarrow> request_response_event \<Rightarrow> handler \<Rightarrow> handler" where
  "handle_request_response D N X ev h =
     (case ev of
        RequestMessage peer request channel \<Rightarrow> serve_request D N X peer request channel h
      | ResponseMessage peer i response \<Rightarrow> handle_response D peer i response h
      | _ \<Rightarrow> h)"

section \<open>mDNS\<close>

definition dial_discovered :: "peer_id \<times> multiaddr \<Rightarrow> handler \<Rightarrow> handler" where
  "dial_discovered pa h =
     (if length (h_peers h) < unat (h_max_peers h)
      then h_call (DialPeer (fst pa) [snd pa] None) h else h)"

definition handle_mdns :: "swarm_host \<Rightarrow> mdns_event \<Rightarrow> handler \<Rightarrow> handler" where
  "handle_mdns X ev h =
     (case ev of
        MdnsDiscovered list \<Rightarrow> fold dial_discovered list h
      | MdnsExpired list \<Rightarrow>
          if sw_mdns (h_swarm h)
          then fold (\<lambda>(peer, addr) h.
                 if mdns_has_node X (h_calls h) peer then h_call (RemoveAddress peer addr) h else h) list h
          else h)"

section \<open>Connections\<close>

definition connection_fields :: "net_deps \<Rightarrow> swarm_host \<Rightarrow> peer_id \<Rightarrow> multiaddr \<Rightarrow> (string, ipld) btree_map" where
  "connection_fields N X peer addr =
     [(''peerId'', IString (peer_to_string N peer)), (''address'', IString (multiaddr_to_string X addr))]"

definition connection_established ::
  "deps \<Rightarrow> net_deps \<Rightarrow> swarm_host \<Rightarrow> peer_id \<Rightarrow> multiaddr \<Rightarrow> handler \<Rightarrow> handler" where
  "connection_established D N X peer addr h =
     notify D N ConnnectionEstablished (connection_fields N X peer addr)
       (h\<lparr>h_peers := im_insert peer addr (h_peers h)\<rparr>)"

text \<open>A peer is removed from the routing table unless it is one of the configured nodes.\<close>

definition connection_closed ::
  "deps \<Rightarrow> net_deps \<Rightarrow> swarm_host \<Rightarrow> peer_id \<Rightarrow> multiaddr \<Rightarrow> handler \<Rightarrow> handler" where
  "connection_closed D N X peer addr h =
     (let h1 = h\<lparr>h_peers := hm_remove peer (h_peers h)\<rparr>;
          h2 = (if list_all (\<lambda>a. case multiaddr_peer_id a of Some p \<Rightarrow> p \<noteq> peer | None \<Rightarrow> True)
                     (h_node_addresses h1)
                then h_call (RemovePeer peer) h1 else h1)
      in notify D N ConnnectionClosed (connection_fields N X peer addr) h2)"

section \<open>All events\<close>

definition handle_swarm_event ::
  "deps \<Rightarrow> net_deps \<Rightarrow> swarm_host \<Rightarrow> swarm_event \<Rightarrow> handler \<Rightarrow> handler" where
  "handle_swarm_event D N X ev h =
     (case ev of
        Identify e \<Rightarrow> handle_identify X e h
      | RendezvousClient e \<Rightarrow> handle_rendezvous_client N X e h
      | Gossipsub e \<Rightarrow> handle_gossip D N X e h
      | Kademlia e \<Rightarrow> handle_kademlia D N X e h
      | RequestResponse e \<Rightarrow> handle_request_response D N X e h
      | Mdns e \<Rightarrow> handle_mdns X e h
      | NewListenAddr addr \<Rightarrow> notify D N ListeningOn (connection_fields N X (local_peer_id X) addr) h
      | ConnectionEstablished peer addr \<Rightarrow> connection_established D N X peer addr h
      | ConnectionClosed peer addr \<Rightarrow> connection_closed D N X peer addr h
      | OutgoingConnectionErr peer err \<Rightarrow>
          notify D N OutgoingConnectionError [(''peerId'', peer_field N peer), (''error'', IString err)] h
      | IncomingConnectionErr err \<Rightarrow> notify D N IncomingConnectionError [(''error'', IString err)] h
      | _ \<Rightarrow> h)"

section \<open>The loop of the handler\<close>

text \<open>
  The inputs of the loop. \<open>Handle\<close> takes the first event of the channel; \<open>FromSwarm\<close> is an event
  of the swarm, whose choice and order are up to the network; \<open>TimerExpires\<close> removes an entry of
  the cache, whose listener waits for a place in the channel; \<open>Arrives\<close> is an event another task
  sends, which waits for a place as well.
\<close>

datatype handler_input =
    Handle event
  | FromSwarm swarm_event
  | TimerExpires string
  | Arrives event

inductive hstep :: "deps \<Rightarrow> net_deps \<Rightarrow> swarm_host \<Rightarrow> handler_input \<Rightarrow> handler \<Rightarrow> handler \<Rightarrow> bool"
  for D :: deps and N :: net_deps and X :: swarm_host where
  hs_handle:
    "\<not> h_blocked h \<Longrightarrow> h_queue h = e # es \<Longrightarrow>
     hstep D N X (Handle e) h (handle_event D N X e (h\<lparr>h_queue := es\<rparr>))"
| hs_swarm:
    "\<not> h_blocked h \<Longrightarrow> hstep D N X (FromSwarm ev) h (handle_swarm_event D N X ev h)"
| hs_timer_event:
    "im_get (h_cache h) k = Some v \<Longrightarrow> eviction_listener v CauseExpired = Some e \<Longrightarrow>
     length (h_queue h) < h_queue_len h \<Longrightarrow>
     hstep D N X (TimerExpires k) h
       (h\<lparr>h_cache := hm_remove k (h_cache h), h_queue := h_queue h @ [e]\<rparr>)"
| hs_timer:
    "im_get (h_cache h) k = Some v \<Longrightarrow> eviction_listener v CauseExpired = None \<Longrightarrow>
     hstep D N X (TimerExpires k) h (h\<lparr>h_cache := hm_remove k (h_cache h)\<rparr>)"
| hs_arrives:
    "length (h_queue h) < h_queue_len h \<Longrightarrow>
     hstep D N X (Arrives e) h (h\<lparr>h_queue := h_queue h @ [e]\<rparr>)"

inductive hsteps :: "deps \<Rightarrow> net_deps \<Rightarrow> swarm_host \<Rightarrow> handler_input list \<Rightarrow> handler \<Rightarrow> handler \<Rightarrow> bool"
  for D :: deps and N :: net_deps and X :: swarm_host where
  hs_none: "hsteps D N X [] h h"
| hs_more: "hsteps D N X is h h' \<Longrightarrow> hstep D N X i h' h'' \<Longrightarrow> hsteps D N X (is @ [i]) h h''"

inductive_cases hstep_cases: "hstep D N X i h h'"

end
