(* ===== verification/Handler_Laws.thy ===== *)
theory Handler_Laws
  imports Swarm_Events "HOL-Library.Sublist"
begin

text \<open>
  What the parts of the event handler leave unchanged, the invariant of its state, and the
  answers it owes: the lemmas on which its properties rest.
\<close>

named_theorems frames \<open>the parts of the state an operation of the handler leaves unchanged\<close>
named_theorems loads \<open>answers given and owed after an operation of the handler\<close>

section \<open>Maps\<close>

lemma im_get_remove [map_laws]: "im_get (hm_remove k m) = (im_get m)(k := None)"
  by (induction m) (auto simp: hm_remove_def le_SucI)

lemma im_inv_remove [map_invs]: "im_inv m \<Longrightarrow> im_inv (hm_remove k m)"
  by (simp add: hm_remove_def im_inv_def distinct_map_filter)

lemma length_filter_insert:
  "length (filter P (im_insert k v m)) \<le> length (filter P m) + (if P (k, v) then 1 else 0)"
  by (induction m) (auto simp: le_SucI)

lemma length_filter_remove: "length (filter P (hm_remove k m)) \<le> length (filter P m)"
  by (induction m) (auto simp: hm_remove_def le_SucI)

lemma length_filter_taken:
  assumes "im_get m k = Some v" and "P (k, v)"
  shows "length (filter P (hm_remove k m)) + 1 \<le> length (filter P m)"
  using assms
proof (induction m)
  case (Cons a m)
  then show ?case using length_filter_remove [of P k m] by (cases a) (auto simp: hm_remove_def)
qed simp

section \<open>Frames\<close>

text \<open>The part of the state that answers to waiting tasks depend on.\<close>

definition ledger ::
  "handler \<Rightarrow> outgoing list \<times> (query_id, request_response_key \<times> sender option) index_map \<times>
     (request_id, request_response_key \<times> sender) index_map" where
  "ledger h = (h_sent h, h_query_senders h, h_request_senders h)"

lemma ledger_effects [frames]:
  "ledger (h_call c h) = ledger h" "ledger (notify D N ty data h) = ledger h"
  "ledger (send_self e h) = ledger h"
  by (simp_all add: ledger_def h_call_def notify_def send_self_def)

lemma ledger_updates [frames]:
  "ledger (h\<lparr>h_db := db\<rparr>) = ledger h" "ledger (h\<lparr>h_swarm := sw\<rparr>) = ledger h"
  "ledger (h\<lparr>h_cookies := cs\<rparr>) = ledger h" "ledger (h\<lparr>h_discovered := ds\<rparr>) = ledger h"
  "ledger (h\<lparr>h_peers := ps\<rparr>) = ledger h" "ledger (h\<lparr>h_cache := ch\<rparr>) = ledger h"
  "ledger (h\<lparr>h_queue := q\<rparr>) = ledger h" "ledger (h\<lparr>h_ws_evt := w\<rparr>) = ledger h"
  "ledger (h\<lparr>h_ws_workflow := w\<rparr>) = ledger h" "ledger (h\<lparr>h_ipfs := b\<rparr>) = ledger h"
  by (simp_all add: ledger_def)

lemma ledger_fold [frames]:
  "(\<And>x h. ledger (f x h) = ledger h) \<Longrightarrow> ledger (fold f xs h) = ledger h"
  by (induction xs arbitrary: h) simp_all

lemma ledger_cache_insert [frames]: "ledger (cache_insert X k v h) = ledger h"
proof -
  have "ledger (evict k h) = ledger h" for k h
    by (simp add: evict_def Let_def frames split: option.split)
  then show ?thesis by (simp add: cache_insert_def frames)
qed

lemma ledger_publish_receipt [frames]: "ledger (publish_receipt D N X r h) = ledger h"
  by (simp add: publish_receipt_def Let_def frames split: prod.split sum.split)

lemma ledger_replay_notify [frames]: "ledger (snd (replay_notify D N X rep h)) = ledger h"
  by (simp add: replay_notify_def Let_def frames split: sum.split)

lemma ledger_dial [frames]:
  "ledger (dial_registration X node k ir h) = ledger h" "ledger (dial_discovered pa h) = ledger h"
  by (simp_all add: dial_registration_def dial_discovered_def Let_def frames split: prod.split sum.split)

lemma ledger_rendezvous [frames]:
  "ledger (register_peer p h) = ledger h" "ledger (discover_peers p h) = ledger h"
  "ledger (handle_rendezvous_client N X re h) = ledger h"
  by (simp_all add: register_peer_def discover_peers_def handle_rendezvous_client_def handle_discovered_def
      Let_def frames split: rendezvous_client_event.split option.split)

lemma ledger_identify [frames]: "ledger (handle_identify X ie h) = ledger h"
  by (simp add: handle_identify_def Let_def frames split: identify_event.split)

lemma ledger_gossip [frames]: "ledger (handle_gossip D N X ge h) = ledger h"
  by (simp add: handle_gossip_def Let_def frames split: gossip_event.split sum.split)

lemma ledger_mdns [frames]: "ledger (handle_mdns X me h) = ledger h"
  by (auto simp add: handle_mdns_def frames split: mdns_event.split intro!: ledger_fold)

lemma ledger_serve [frames]:
  "ledger (respond_error D ch err h) = ledger h" "ledger (serve_request D N X peer req ch h) = ledger h"
  by (simp_all add: serve_request_def respond_error_def respond_def Let_def frames split: sum.split prod.split)

lemma ledger_connections [frames]:
  "ledger (connection_established D N X p a h) = ledger h" "ledger (connection_closed D N X p a h) = ledger h"
  by (simp_all add: connection_established_def connection_closed_def Let_def frames)

lemma ledger_stored_record [frames]: "ledger (stored_record D N found h) = ledger h"
  by (simp add: stored_record_def frames split: found_event.split option.split)

section \<open>Answers\<close>

text \<open>The answers a channel has been given, and those that are registered for it.\<close>

definition answered :: "sender \<Rightarrow> outgoing list \<Rightarrow> nat" where
  "answered s ms = length (filter (\<lambda>m. \<exists>r. m = ToWaiter s r) ms)"

definition owed :: "sender \<Rightarrow> handler \<Rightarrow> nat" where
  "owed s h =
     length (filter (\<lambda>p. snd (snd p) = Some s) (h_query_senders h)) +
     length (filter (\<lambda>p. snd (snd p) = s) (h_request_senders h))"

definition load :: "sender \<Rightarrow> handler \<Rightarrow> nat" where
  "load s h = answered s (h_sent h) + owed s h"

lemma load_cong: "ledger h = ledger h' \<Longrightarrow> load s h = load s h'"
  by (simp add: load_def owed_def ledger_def)

lemma answered_snoc [simp]: "answered s (ms @ [m]) = answered s ms + (if \<exists>r. m = ToWaiter s r then 1 else 0)"
  by (simp add: answered_def)

lemma load_put_record [loads]: "load s (put_record D N X k v q key ty data h) \<le> load s h"
  using length_filter_insert [of "\<lambda>p. snd (snd p) = Some s" _ "(key, None)" "h_query_senders h"]
  by (simp add: put_record_def Let_def load_def owed_def notify_def h_call_def split: sum.split)

lemma load_query [loads]:
  "load s (record_find D X q h) \<le> load s h + (if q_sender q = Some s then 1 else 0)"
  "load s (record_get_providers D X q h) \<le> load s h + (if q_sender q = Some s then 1 else 0)"
  using length_filter_insert [of "\<lambda>p. snd (snd p) = Some s" _ "(cid_key D (q_cid q) (q_capsule q), q_sender q)" "h_query_senders h"]
  by (simp_all add: record_find_def record_get_providers_def Let_def load_def owed_def h_call_def)

lemma load_outbound [loads]:
  "load s (outbound_request X req h) \<le> load s h + (if pr_sender req = s then 1 else 0)"
  using length_filter_insert [of "\<lambda>p. snd (snd p) = s" _ "(pr_request req, pr_sender req)" "h_request_senders h"]
  by (simp add: outbound_request_def Let_def load_def owed_def h_call_def)

lemma load_provide [loads]:
  "load s (snd (provide_record D X c tx tag h)) \<le> load s h + (if tx = Some s then 1 else 0)"
  using length_filter_insert [of "\<lambda>p. snd (snd p) = Some s" _ "(cid_key D c tag, tx)" "h_query_senders h"]
  by (cases "tx = Some s") (auto simp: provide_record_def Let_def load_def owed_def h_call_def split: sum.split)

lemma load_publish [loads]: "load s (snd (publish_and_notify D N X cap h)) \<le> load s h"
proof -
  have r: "load s (publish_receipt D N X r h) = load s h" for r h
    by (rule load_cong) (simp add: frames)
  have w: "load s (h\<lparr>h_ws_workflow := m\<rparr>) = load s h" for m
    by (rule load_cong) (simp add: frames)
  have p: "load s h1 \<le> load s h \<Longrightarrow> load s (put_record D N X k v q key ty data h1) \<le> load s h" for h1 k v q key ty data
    by (rule order_trans [OF load_put_record])
  show ?thesis
    by (auto simp: publish_and_notify_def Let_def r w split: sum.split intro!: p)
qed

text \<open>Taking an entry out and answering it leaves the load as it is.\<close>

lemma load_take_query [loads]: "load s (snd (take_query i h)) \<le> load s h"
  using length_filter_remove [of "\<lambda>p. snd (snd p) = Some s" i "h_query_senders h"]
  by (simp add: take_query_def load_def owed_def)

lemma load_answer_query [loads]: "load s (answer_query i f h) \<le> load s h"
proof (cases "im_get (h_query_senders h) i")
  case None
  then show ?thesis using load_take_query [of s i h] by (simp add: answer_query_def take_query_def)
next
  case (Some v)
  then show ?thesis
    using length_filter_taken [OF Some, of "\<lambda>p. snd (snd p) = Some s"]
      length_filter_remove [of "\<lambda>p. snd (snd p) = Some s" i "h_query_senders h"]
    by (cases v) (auto simp: answer_query_def take_query_def reply_def h_send_def load_def owed_def split: option.split)
qed

lemma load_found_providers [loads]: "load s (found_providers X i ps h) \<le> load s h"
proof -
  have "ledger (send_self e h') = ledger h'" and "ledger (h_call c h') = ledger h'" for e c h' by (simp_all add: frames)
  note cong = this [THEN load_cong]
  show ?thesis using load_take_query [of s i h]
    by (simp add: found_providers_def Let_def cong take_query_def split: option.split)
qed

lemma load_puts [loads]:
  "load s (put_success D N i h) \<le> load s h" "load s (put_failure D N i e h) \<le> load s h"
proof -
  have cong: "load s (notify D N ty data h') = load s h'" for ty data h'
    by (rule load_cong) (simp add: frames)
  show "load s (put_success D N i h) \<le> load s h" "load s (put_failure D N i e h) \<le> load s h"
    using load_take_query [of s i h]
    by (simp_all add: put_success_def put_failure_def Let_def cong take_query_def
        split: option.split capsule_tag.split put_record_error.split)
qed

lemma load_response [loads]: "load s (handle_response D peer i b h) \<le> load s h"
proof (cases "im_get (h_request_senders h) i")
  case (Some v)
  then show ?thesis
    using length_filter_taken [OF Some, of "\<lambda>p. snd (snd p) = s"]
      length_filter_remove [of "\<lambda>p. snd (snd p) = s" i "h_request_senders h"]
    by (cases v) (auto simp: handle_response_def Let_def h_send_def load_def owed_def
        split: sum.split decoded_record.split)
qed (simp add: handle_response_def)

lemma load_query_result [loads]: "load s (handle_query D N X i res h) \<le> load s h"
  by (simp add: handle_query_def loads split: query_result.split sum.split)

lemma load_frame: "ledger h' = ledger h \<Longrightarrow> load s h' \<le> load s h"
  using load_cong [of h' h s] by simp

lemma load_swarm_event [loads]: "load s (handle_swarm_event D N X ev h) \<le> load s h"
proof (cases ev)
  case (Kademlia e)
  then show ?thesis by (simp add: handle_swarm_event_def handle_kademlia_def loads split: kad_event.split)
next
  case (RequestResponse e)
  then show ?thesis
    by (cases e) (simp_all add: handle_swarm_event_def handle_request_response_def loads load_frame frames)
qed (simp_all add: handle_swarm_event_def load_frame frames)

text \<open>The events that register a channel for an answer.\<close>

fun registers :: "sender \<Rightarrow> handler_input \<Rightarrow> bool" where
  "registers s (Handle (FindRecord q)) = (q_sender q = Some s)"
| "registers s (Handle (GetProviders q)) = (q_sender q = Some s)"
| "registers s (Handle (ProvideRecord _ tx _)) = (tx = Some s)"
| "registers s (Handle (OutboundRequest req)) = (pr_sender req = s)"
| "registers s _ = False"

lemma load_event: "load s (handle_event D N X e h) \<le> load s h + (if registers s (Handle e) then 1 else 0)"
proof (cases e)
  case (CapturedReceipt cap)
  have "load s (h'\<lparr>h_ipfs := b\<rparr>) = load s h'" for h' b by (rule load_cong) (simp add: frames)
  with CapturedReceipt load_publish [of s D N X cap h] show ?thesis
    by (auto simp: handle_event_def split: prod.split sum.split)
next
  case (Providers r)
  then show ?thesis
    by (auto simp: handle_event_def handle_info_def load_frame frames split: sum.split)
next
  case (RemoveRecord q)
  then show ?thesis by (simp add: handle_event_def handle_info_def record_remove_def load_frame frames)
next
  case (Shutdown tx)
  then show ?thesis by (simp add: handle_event_def handle_info_def h_send_def load_def owed_def)
next
  case (GetNodeInfo tx)
  then show ?thesis by (simp add: handle_event_def handle_info_def h_send_def load_def owed_def)
qed (simp_all add: handle_event_def handle_info_def loads load_frame frames)

lemma load_step:
  assumes "hstep D N X i h h'"
  shows "load s h' \<le> load s h + (if registers s i then 1 else 0)"
  using assms
proof cases
  case (hs_handle e es)
  have "load s (h\<lparr>h_queue := es\<rparr>) = load s h" by (rule load_cong) (simp add: frames)
  with load_event [of s D N X e "h\<lparr>h_queue := es\<rparr>"] hs_handle show ?thesis by simp
qed (simp_all add: loads load_frame frames ledger_def)

lemma load_steps:
  assumes "hsteps D N X is h h'"
  shows "load s h' \<le> load s h + length (filter (registers s) is)"
  using assms
proof induction
  case (hs_more ins h h' i h'')
  with load_step [OF hs_more(2), of s] show ?case by (auto split: if_splits)
qed simp

section \<open>The invariant of the state\<close>

text \<open>
  The maps have one entry per key, the channel is within its capacity, and the database has only
  gained receipts since \<open>db\<close>, within its constraints.
\<close>

definition only_receipts_added :: "database \<Rightarrow> database \<Rightarrow> bool" where
  "only_receipts_added db db' \<longleftrightarrow>
     (\<exists>rs. t_receipts db' = t_receipts db @ rs) \<and> t_workflows db' = t_workflows db \<and>
     t_workflows_receipts db' = t_workflows_receipts db"

definition hinv :: "database \<Rightarrow> handler \<Rightarrow> bool" where
  "hinv db h \<longleftrightarrow>
     db_inv (h_db h) \<and> only_receipts_added db (h_db h) \<and> length (h_queue h) \<le> h_queue_len h \<and>
     im_inv (h_query_senders h) \<and> im_inv (h_request_senders h) \<and> im_inv (h_peers h) \<and>
     im_inv (h_cache h) \<and> im_inv (h_cookies h) \<and> im_inv (h_discovered h)"

named_theorems hinvs \<open>the operations of the handler keep its invariant\<close>

lemma hinv_frame [simp]:
  "hinv db (h\<lparr>h_swarm := sw\<rparr>) = hinv db h" "hinv db (h\<lparr>h_sent := ms\<rparr>) = hinv db h"
  "hinv db (h\<lparr>h_ws_evt := w\<rparr>) = hinv db h" "hinv db (h\<lparr>h_ws_workflow := w\<rparr>) = hinv db h"
  "hinv db (h\<lparr>h_ipfs := b\<rparr>) = hinv db h" "hinv db (h\<lparr>h_blocked := y\<rparr>) = hinv db h"
  by (simp_all add: hinv_def)

lemma hinv_effects [simp]:
  "hinv db (h_call c h) = hinv db h" "hinv db (notify D N ty data h) = hinv db h"
  "hinv db (h_send m h) = hinv db h" "hinv db (reply tx r h) = hinv db h"
  by (simp_all add: h_call_def notify_def h_send_def reply_def split: option.split)

lemma hinv_send_self [hinvs]: "hinv db h \<Longrightarrow> hinv db (send_self e h)"
  by (simp add: send_self_def) (simp add: hinv_def)

lemma hinv_fold [hinvs]: "(\<And>x h. hinv db h \<Longrightarrow> hinv db (f x h)) \<Longrightarrow> hinv db h \<Longrightarrow> hinv db (fold f xs h)"
  by (induction xs arbitrary: h) simp_all

lemma hinv_cache_insert [hinvs]:
  assumes "hinv db h"
  shows "hinv db (cache_insert X k v h)"
proof -
  have "hinv db (h\<lparr>h_cache := hm_remove k (h_cache h)\<rparr>)" if "hinv db h" for k h
    using that by (simp add: hinv_def map_invs)
  then have "hinv db (evict k h)" if "hinv db h" for k h
    using that by (auto simp: evict_def Let_def hinvs split: option.split)
  moreover have "hinv db (h\<lparr>h_cache := im_insert k v (h_cache h)\<rparr>)"
    using assms by (simp add: hinv_def map_invs)
  ultimately show ?thesis unfolding cache_insert_def by (rule hinv_fold)
qed

lemma hinv_query_senders [hinvs]:
  "hinv db h \<Longrightarrow> hinv db (h\<lparr>h_query_senders := im_insert i v (h_query_senders h)\<rparr>)"
  "hinv db h \<Longrightarrow> hinv db (h\<lparr>h_request_senders := im_insert i' v' (h_request_senders h)\<rparr>)"
  "hinv db h \<Longrightarrow> hinv db (h\<lparr>h_query_senders := hm_remove i (h_query_senders h)\<rparr>)"
  "hinv db h \<Longrightarrow> hinv db (h\<lparr>h_request_senders := hm_remove i' (h_request_senders h)\<rparr>)"
  "hinv db h \<Longrightarrow> hinv db (h\<lparr>h_peers := im_insert p a (h_peers h)\<rparr>)"
  "hinv db h \<Longrightarrow> hinv db (h\<lparr>h_peers := hm_remove p (h_peers h)\<rparr>)"
  "hinv db h \<Longrightarrow> hinv db (h\<lparr>h_cookies := im_insert p ck (h_cookies h)\<rparr>)"
  "hinv db h \<Longrightarrow> hinv db (h\<lparr>h_discovered := im_insert p p' (h_discovered h)\<rparr>)"
  "hinv db h \<Longrightarrow> hinv db (h\<lparr>h_discovered := hm_remove p (h_discovered h)\<rparr>)"
  by (simp_all add: hinv_def map_invs)

lemma hinv_put_record [hinvs]: "hinv db h \<Longrightarrow> hinv db (put_record D N X k v q key ty data h)"
  by (simp add: put_record_def Let_def hinvs split: sum.split)

lemma hinv_publish_receipt [hinvs]: "hinv db h \<Longrightarrow> hinv db (publish_receipt D N X r h)"
  by (simp add: publish_receipt_def Let_def split: prod.split sum.split)

lemma hinv_publish [hinvs]: "hinv db h \<Longrightarrow> hinv db (snd (publish_and_notify D N X cap h))"
  by (simp add: publish_and_notify_def Let_def hinvs split: sum.split)

lemma hinv_replay [hinvs]: "hinv db h \<Longrightarrow> hinv db (snd (replay_notify D N X rep h))"
  by (simp add: replay_notify_def Let_def hinvs split: sum.split)

lemma hinv_queries [hinvs]:
  "hinv db h \<Longrightarrow> hinv db (record_find D X q h)" "hinv db h \<Longrightarrow> hinv db (record_get_providers D X q h)"
  "hinv db h \<Longrightarrow> hinv db (outbound_request X req h)"
  "hinv db h \<Longrightarrow> hinv db (snd (provide_record D X c tx tag h))"
  by (simp_all add: record_find_def record_get_providers_def outbound_request_def provide_record_def
      Let_def hinvs split: sum.split)

lemma hinv_event [hinvs]: "hinv db h \<Longrightarrow> hinv db (handle_event D N X e h)"
proof (cases e)
  case (CapturedReceipt cap)
  then show "hinv db h \<Longrightarrow> ?thesis"
    using hinv_publish [of db h D N X cap] by (auto simp: handle_event_def split: prod.split sum.split)
next
  case (Providers r)
  then show "hinv db h \<Longrightarrow> ?thesis"
    by (cases r) (auto simp: handle_event_def handle_info_def hinvs)
qed (simp_all add: handle_event_def handle_info_def hinvs record_remove_def stored_record_def
    register_peer_def discover_peers_def split: found_event.split option.split)

lemma hinv_rendezvous [hinvs]: "hinv db h \<Longrightarrow> hinv db (handle_rendezvous_client N X re h)"
proof -
  have "hinv db h \<Longrightarrow> hinv db (dial_registration X node k ir h)" for node k ir h
    by (simp add: dial_registration_def Let_def hinvs split: prod.split sum.split)
  then show "hinv db h \<Longrightarrow> ?thesis"
    by (simp add: handle_rendezvous_client_def handle_discovered_def Let_def hinvs
        split: rendezvous_client_event.split option.split)
qed

lemma hinv_gossip [hinvs]: "hinv db h \<Longrightarrow> hinv db (handle_gossip D N X ge h)"
proof -
  have "hinv db h \<Longrightarrow> hinv db (h\<lparr>h_db := snd (store_receipt r (h_db h))\<rparr>)" for r
    using db_inv_store_receipt [of "h_db h" r] by (auto simp: hinv_def store_receipt_def only_receipts_added_def)
  then show "hinv db h \<Longrightarrow> ?thesis"
    by (simp add: handle_gossip_def db_conn_def Let_def result_simps split: gossip_event.split sum.split)
qed

lemma hinv_query_result [hinvs]: "hinv db h \<Longrightarrow> hinv db (handle_query D N X i res h)"
proof -
  have a: "hinv db h \<Longrightarrow> hinv db (answer_query i f h)" for f
    by (simp add: answer_query_def take_query_def hinvs split: option.split)
  have p: "hinv db h \<Longrightarrow> hinv db (found_providers X i ps h)" for ps
    by (simp add: found_providers_def take_query_def Let_def hinvs split: option.split)
  have q: "hinv db h \<Longrightarrow> hinv db (put_success D N i h)" "hinv db h \<Longrightarrow> hinv db (put_failure D N i e h)" for e
    by (simp_all add: put_success_def put_failure_def take_query_def Let_def hinvs
        split: option.split capsule_tag.split put_record_error.split)
  show "hinv db h \<Longrightarrow> ?thesis"
    by (simp add: handle_query_def a p q take_query_def hinvs split: query_result.split sum.split)
qed

lemma hinv_request_response [hinvs]: "hinv db h \<Longrightarrow> hinv db (handle_request_response D N X e h)"
proof -
  have s: "hinv db h \<Longrightarrow> hinv db (serve_request D N X peer req ch h)" for peer req ch
    by (simp add: serve_request_def respond_error_def respond_def Let_def hinvs split: sum.split prod.split)
  have r: "hinv db h \<Longrightarrow> hinv db (handle_response D peer i b h)" for peer i b
    by (simp add: handle_response_def Let_def hinvs split: option.split sum.split decoded_record.split)
  show "hinv db h \<Longrightarrow> ?thesis"
    by (simp add: handle_request_response_def s r split: request_response_event.split)
qed

lemma hinv_identify [hinvs]: "hinv db h \<Longrightarrow> hinv db (handle_identify X e h)"
  by (simp add: handle_identify_def Let_def hinvs split: identify_event.split)

lemma hinv_mdns [hinvs]: "hinv db h \<Longrightarrow> hinv db (handle_mdns X e h)"
  by (auto simp: handle_mdns_def dial_discovered_def split: mdns_event.split intro!: hinv_fold)

lemma hinv_connections [hinvs]:
  "hinv db h \<Longrightarrow> hinv db (connection_established D N X p a h)"
  "hinv db h \<Longrightarrow> hinv db (connection_closed D N X p a h)"
  by (simp_all add: connection_established_def connection_closed_def Let_def hinvs)

lemma hinv_swarm_event [hinvs]: "hinv db h \<Longrightarrow> hinv db (handle_swarm_event D N X ev h)"
  by (simp add: handle_swarm_event_def handle_kademlia_def hinvs split: swarm_event.split kad_event.split)

lemma hinv_step:
  assumes "hstep D N X i h h'" and "hinv db h"
  shows "hinv db h'"
  using assms
proof cases
  case (hs_handle e es)
  then have "hinv db (h\<lparr>h_queue := es\<rparr>)" using assms(2) by (simp add: hinv_def)
  with hs_handle show ?thesis by (simp add: hinvs)
next
  case (hs_swarm ev)
  with assms(2) show ?thesis by (simp add: hinvs)
qed (use assms(2) in \<open>simp_all add: hinv_def map_invs\<close>)

lemma hinv_steps: "hsteps D N X ins h h' \<Longrightarrow> hinv db h \<Longrightarrow> hinv db h'"
  by (induction rule: hsteps.induct) (auto dest: hinv_step)

lemma hinv_new: "db_inv db \<Longrightarrow> hinv db (handler_new sw db settings)"
  by (simp add: hinv_def handler_new_def Let_def only_receipts_added_def)

section \<open>What is stored\<close>

text \<open>Only a gossiped receipt changes the database.\<close>

named_theorems stores \<open>the database after an operation of the handler\<close>

lemma h_db_effects [stores]:
  "h_db (h_call c h) = h_db h" "h_db (notify D N ty data h) = h_db h" "h_db (h_send m h) = h_db h"
  "h_db (reply tx r h) = h_db h" "h_db (send_self e h) = h_db h" "h_db (snd (take_query i h)) = h_db h"
  by (simp_all add: h_call_def notify_def h_send_def reply_def send_self_def take_query_def split: option.split)

lemma h_db_fold [stores]: "(\<And>x h. h_db (f x h) = h_db h) \<Longrightarrow> h_db (fold f xs h) = h_db h"
  by (induction xs arbitrary: h) simp_all

lemma h_db_publish [stores]:
  "h_db (put_record D N X k v q key ty data h) = h_db h" "h_db (publish_receipt D N X r h) = h_db h"
  by (simp_all add: put_record_def publish_receipt_def Let_def stores split: sum.split prod.split)

lemma h_db_published [stores]:
  "h_db (snd (publish_and_notify D N X cap h)) = h_db h" "h_db (snd (replay_notify D N X rep h)) = h_db h"
  by (simp_all add: publish_and_notify_def replay_notify_def Let_def stores split: sum.split)

lemma h_db_event [stores]: "h_db (handle_event D N X e h) = h_db h"
proof (cases e)
  case (CapturedReceipt cap)
  then show ?thesis
    using h_db_published(1) [of D N X cap h] by (auto simp: handle_event_def split: prod.split sum.split)
next
  case (Providers r)
  then show ?thesis by (cases r) (auto simp: handle_event_def handle_info_def stores)
qed (simp_all add: handle_event_def handle_info_def stores record_find_def record_remove_def record_get_providers_def
    outbound_request_def provide_record_def stored_record_def register_peer_def discover_peers_def Let_def
    split: found_event.split option.split sum.split)

lemma h_db_rendezvous [stores]: "h_db (handle_rendezvous_client N X re h) = h_db h"
proof -
  have d: "h_db (dial_registration X node k ir h) = h_db h" for node k ir h
    by (simp add: dial_registration_def Let_def stores split: prod.split sum.split)
  have "h_db (evict k h) = h_db h" for k h by (simp add: evict_def Let_def stores split: option.split)
  then have "h_db (cache_insert X k v h) = h_db h" for k v h by (simp add: cache_insert_def stores)
  with d show ?thesis
    by (simp add: handle_rendezvous_client_def handle_discovered_def Let_def stores
        split: rendezvous_client_event.split option.split)
qed

lemma h_db_query [stores]: "h_db (handle_query D N X i res h) = h_db h"
  by (auto simp: handle_query_def answer_query_def found_providers_def put_success_def put_failure_def take_query_def
      Let_def stores split: query_result.split sum.split option.split capsule_tag.split put_record_error.split)

lemma h_db_request [stores]: "h_db (handle_request_response D N X e h) = h_db h"
  by (auto simp: handle_request_response_def serve_request_def handle_response_def respond_error_def respond_def
      Let_def stores split: request_response_event.split sum.split prod.split option.split decoded_record.split)

lemma h_db_others [stores]:
  "h_db (handle_identify X ie h) = h_db h" "h_db (handle_mdns X me h) = h_db h"
  "h_db (connection_established D N X p a h) = h_db h" "h_db (connection_closed D N X p a h) = h_db h"
  by (auto simp: handle_identify_def handle_mdns_def dial_discovered_def connection_established_def
      connection_closed_def Let_def stores split: identify_event.split mdns_event.split intro!: h_db_fold)

text \<open>The receipt a gossip message carries, and those of the messages among some inputs, in order.\<close>

definition gossiped :: "deps \<Rightarrow> handler_input \<Rightarrow> rt_receipt list" where
  "gossiped D i =
     (case i of
        FromSwarm (Gossipsub (GossipMessage bytes _ _)) \<Rightarrow>
          (case message_from_bytes D (rt_receipt_try_from D) bytes of Ok msg \<Rightarrow> [m_payload msg] | Err _ \<Rightarrow> [])
      | _ \<Rightarrow> [])"

definition store_all :: "rt_receipt list \<Rightarrow> database \<Rightarrow> database" where
  "store_all rs db = fold (\<lambda>r db. snd (store_receipt r db)) rs db"

lemma h_db_swarm_event:
  "h_db (handle_swarm_event D N X ev h) =
     (if pool_get X (h_calls h) = Ok () then store_all (gossiped D (FromSwarm ev)) (h_db h) else h_db h)"
  by (cases "pool_get X (h_calls h)")
    (auto simp: handle_swarm_event_def handle_kademlia_def handle_gossip_def db_conn_def gossiped_def store_all_def Let_def stores
      split: swarm_event.split kad_event.split gossip_event.split sum.split)

lemma h_db_step:
  assumes "hstep D N X i h h'"
  shows "h_db h' = h_db h \<and> ((\<forall>cs. pool_get X cs = Ok ()) \<longrightarrow> gossiped D i = []) \<or> h_db h' = store_all (gossiped D i) (h_db h)"
  using assms
proof cases
  case (hs_swarm ev)
  then show ?thesis using h_db_swarm_event [of D N X ev h] by (auto split: if_splits)
qed (simp_all add: stores gossiped_def)

lemma h_db_steps:
  assumes "hsteps D N X ins h h'"
  shows "\<exists>rs. subseq rs (concat (map (gossiped D) ins)) \<and> h_db h' = store_all rs (h_db h) \<and>
    ((\<forall>cs. pool_get X cs = Ok ()) \<longrightarrow> rs = concat (map (gossiped D) ins))"
  using assms
proof induction
  case (hs_none h)
  show ?case by (intro exI [of _ "[]"]) (simp add: store_all_def)
next
  case (hs_more ins h h' i h'')
  then obtain rs where rs: "subseq rs (concat (map (gossiped D) ins))" "h_db h' = store_all rs (h_db h)"
    "(\<forall>cs. pool_get X cs = Ok ()) \<longrightarrow> rs = concat (map (gossiped D) ins)" by blast
  from h_db_step [OF hs_more(2)] show ?case
  proof
    assume "h_db h'' = h_db h' \<and> ((\<forall>cs. pool_get X cs = Ok ()) \<longrightarrow> gossiped D i = [])"
    with rs show ?thesis by (intro exI [of _ rs]) auto
  next
    assume "h_db h'' = store_all (gossiped D i) (h_db h')"
    with rs show ?thesis
      by (intro exI [of _ "rs @ gossiped D i"]) (auto simp: store_all_def intro: list_emb_append_mono)
  qed
qed

text \<open>What is found under a CID: the receipt that was there, or else the first one that was stored.\<close>

lemma find_stored:
  "List.find (\<lambda>x. r_cid x = p) (t_receipts (store_all rs db)) = List.find (\<lambda>x. r_cid x = p) (t_receipts db @ rs)"
proof (induction rs arbitrary: db)
  case (Cons r rs)
  have "List.find (\<lambda>x. r_cid x = p) (xs @ ys) =
      (case List.find (\<lambda>x. r_cid x = p) xs of Some x \<Rightarrow> Some x | None \<Rightarrow> List.find (\<lambda>x. r_cid x = p) ys)"
    for xs ys :: "rt_receipt list" by (induction xs) auto
  note append = this
  have one: "List.find (\<lambda>x. r_cid x = p) (t_receipts (snd (store_receipt r db))) =
      List.find (\<lambda>x. r_cid x = p) (t_receipts db @ [r])"
    by (auto simp: store_receipt_def append find_None_iff split: option.split)
  have "List.find (\<lambda>x. r_cid x = p) (t_receipts (store_all (r # rs) db)) =
      List.find (\<lambda>x. r_cid x = p) (t_receipts (snd (store_receipt r db)) @ rs)"
    using Cons [of "snd (store_receipt r db)"] by (simp add: store_all_def)
  then show ?case by (simp only: append [of _ rs] one) (simp add: append split: option.split)
qed (simp add: store_all_def)

lemma first_receipt_find:
  "ok (find_receipt_by_cid c db) = List.find (\<lambda>x. r_cid x = Pointer c) (t_receipts db)"
proof -
  have "(case filter P xs of [] \<Rightarrow> None | r # _ \<Rightarrow> Some r) = List.find P xs" for P and xs :: "rt_receipt list"
    by (induction xs) auto
  from this [of "\<lambda>x. r_cid x = Pointer c" "t_receipts db", symmetric] show ?thesis
    by (simp add: find_receipt_by_cid_def first_row_def split: list.split)
qed

section \<open>Blocking\<close>

lemma send_self_fits:
  "\<not> h_blocked h \<Longrightarrow> length (h_queue h) + length es \<le> h_queue_len h \<Longrightarrow>
   fold send_self es h = h\<lparr>h_queue := h_queue h @ es\<rparr>"
  by (induction es arbitrary: h) (simp_all add: send_self_def)

lemma send_self_blocked: "h_blocked h \<Longrightarrow> fold send_self es h = h"
  by (induction es arbitrary: h) (simp_all add: send_self_def)

lemma send_self_overflow:
  "h_queue_len h < length (h_queue h) + length es \<Longrightarrow> length (h_queue h) \<le> h_queue_len h \<Longrightarrow>
   h_blocked (fold send_self es h)"
proof (induction es arbitrary: h)
  case (Cons e es)
  show ?case
  proof (cases "\<not> h_blocked h \<and> length (h_queue h) < h_queue_len h")
    case True
    with Cons show ?thesis by (simp add: send_self_def)
  next
    case False
    then have "h_blocked (send_self e h)" by (auto simp: send_self_def)
    then show ?thesis using send_self_blocked [of "send_self e h" es] by simp
  qed
qed simp

text \<open>A handler that is blocked stays so, and handles nothing any more.\<close>

lemma blocked_step:
  assumes "hstep D N X i h h'" and "h_blocked h"
  shows "h_blocked h' \<and> h_sent h' = h_sent h \<and> h_swarm h' = h_swarm h \<and> h_db h' = h_db h"
  using assms by cases simp_all

lemma blocked_steps:
  assumes "hsteps D N X ins h h'" and "h_blocked h"
  shows "h_blocked h' \<and> h_sent h' = h_sent h \<and> h_swarm h' = h_swarm h \<and> h_db h' = h_db h"
  using assms by (induction rule: hsteps.induct) (auto dest: blocked_step)

section \<open>Dialing\<close>

definition h_dials :: "handler \<Rightarrow> swarm_call list" where
  "h_dials h = dials (h_swarm h)"

lemma h_dials_call [simp]: "h_dials (h_call c h) = h_dials h @ (if is_dial c then [c] else [])"
  by (simp add: h_dials_def h_call_def)

lemma h_dials_registration:
  "h_dials (dial_registration X node k ir h) =
     h_dials h @ (if reg_peer (snd ir) \<noteq> local_peer_id X \<and> k + fst ir < unat (h_max_peers h)
       then [DialPeer (reg_peer (snd ir)) (reg_addresses (snd ir)) (Some PeerDisconnected)] else [])"
  by (cases ir) (auto simp: dial_registration_def Let_def h_dials_def h_call_def split: sum.split)

lemma h_max_peers_registration [simp]: "h_max_peers (dial_registration X node k ir h) = h_max_peers h"
  by (simp add: dial_registration_def Let_def h_call_def split: prod.split sum.split)

text \<open>The peers that are dialed are those at the first places that are free.\<close>

lemma h_dials_registrations:
  "h_dials (fold (dial_registration X node k) (enumerate j rs) h) =
     h_dials h @ map (\<lambda>r. DialPeer (reg_peer r) (reg_addresses r) (Some PeerDisconnected))
       (filter (\<lambda>r. reg_peer r \<noteq> local_peer_id X) (take (unat (h_max_peers h) - (k + j)) rs))"
proof (induction rs arbitrary: j h)
  case (Cons r rs)
  show ?case
  proof (cases "k + j < unat (h_max_peers h)")
    case True
    then have "unat (h_max_peers h) - (k + j) = Suc (unat (h_max_peers h) - (k + Suc j))" by simp
    with True Cons show ?thesis by (simp add: h_dials_registration)
  qed (simp add: Cons h_dials_registration)
qed simp

lemma h_dials_mdns:
  "h_dials (fold dial_discovered list h) =
     h_dials h @ (if length (h_peers h) < unat (h_max_peers h)
       then map (\<lambda>pa. DialPeer (fst pa) [snd pa] None) list else [])"
proof (induction list arbitrary: h)
  case (Cons pa list)
  have "h_peers (dial_discovered pa h) = h_peers h" "h_max_peers (dial_discovered pa h) = h_max_peers h"
    by (simp_all add: dial_discovered_def h_call_def)
  with Cons show ?case by (simp add: dial_discovered_def)
qed simp

end
