(* ===== verification/Net_Correct.thy ===== *)
theory Net_Correct
  imports Handler_Laws Run_Example
begin

text \<open>
  Properties of the event handler: the answers it gives, its state, the peers it dials, what it
  shares with other nodes and what they read, and what happens when its channel is full.
\<close>

section \<open>A concrete network\<close>

text \<open>A network in which every call succeeds; a query has the number of its call.\<close>

definition ex_net :: swarm_host where
  "ex_net =
     \<lparr>local_peer_id = PeerId [0], kad_protocol_name = ''/ipfs/kad/1.0.0'',
      parse_multiaddr = (\<lambda>s. Ok [OtherProtocol s]), multiaddr_to_string = (\<lambda>_. ''address''),
      show_response = (\<lambda>_. ''event''), noise_new = (\<lambda>_. Ok ()), gossipsub_new = (\<lambda>_. Ok ()),
      mdns_new = (\<lambda>_. Ok ()), listen_result = (\<lambda>_. Ok ()), dial_result = (\<lambda>_. Ok ()),
      put_result = (\<lambda>cs. Ok (length cs)), query_result_id = length, provide_result = (\<lambda>cs. Ok (length cs)),
      subscribe_result = (\<lambda>_. Ok True), has_mesh_peers = (\<lambda>_ _. True), publish_result = (\<lambda>_. Ok ''id''),
      request_result_id = length, register_result = (\<lambda>_. Ok ()), mdns_has_node = (\<lambda>_ _. True),
      swarm_listeners = (\<lambda>_. []), external_addresses = (\<lambda>_. []),
      generate_nonce = (\<lambda>_. Nonce96 (replicate 12 1)), new_channel = length, pool_get = (\<lambda>_. Ok ()), evicted_keys = (\<lambda>_. [])\<rparr>"

lemma run_peer_text: "peer_to_string run_net p = ''peer''"
  by (simp add: run_net_def)

definition ex_swarm :: swarm where
  "ex_swarm = \<lparr>sw_calls = [], sw_gossipsub = True, sw_mdns = True, sw_rendezvous_client = True,
     sw_rendezvous_server = False\<rparr>"

definition ex_handler :: "database \<Rightarrow> handler" where
  "ex_handler db = handler_new ex_swarm db network_default"

lemmas ex_handler_defs = ex_handler_def handler_new_def network_default_def libp2p_default_def dht_default_def
  pubsub_default_def rendezvous_default_def ex_swarm_def

lemmas query_simps = handle_event_def handle_info_def record_find_def h_call_def h_calls_def handle_swarm_event_def
  handle_kademlia_def handle_query_def answer_query_def take_query_def hm_remove_def reply_def h_send_def
  record_error_def

section \<open>Answers\<close>

text \<open>
  C10. However the network answers and in whatever order events are handled, a task that asks the
  event handler gets at most one answer for each query or request the handler makes for it: the
  answers sent on a channel, together with those still registered for it, are at most as many
  as the events handled that register the channel.
\<close>

theorem responses_bounded:
  assumes "hsteps D N X ins (handler_new sw db settings) h"
  shows "answered s (h_sent h) + owed s h \<le> length (filter (registers s) ins)"
  using load_steps [OF assms, of s] by (simp add: load_def owed_def answered_def handler_new_def Let_def)

definition find_query :: query_record where
  "find_query = \<lparr>q_cid = nth_cid 3, q_capsule = CapsuleReceipt, q_sender = Some 7\<rparr>"

definition find_run :: "handler_input list" where
  "find_run = [Arrives (FindRecord find_query), Handle (FindRecord find_query),
     FromSwarm (Kademlia (OutboundQueryProgressed 1 (RecordErr ''not found''))),
     FromSwarm (Kademlia (OutboundQueryProgressed 1 (RecordErr ''not found'')))]"

definition find_end :: handler where
  "find_end = (ex_handler db_empty)\<lparr>
     h_swarm := sw_call (GetRecord (cid_to_bytes (ex_deps []) (nth_cid 3))) ex_swarm,
     h_sent := [ToWaiter 7 (Found (Err (Msg (''not a valid provider record tag: '' @ RECEIPT_TAG))))]\<rparr>"

lemma find_steps: "hsteps (ex_deps []) run_net ex_net find_run (ex_handler db_empty) find_end"
proof -
  let ?S = "hstep (ex_deps []) run_net ex_net" and ?h = "ex_handler db_empty"
  let ?a = "?h\<lparr>h_queue := [FindRecord find_query]\<rparr>"
  let ?b = "handle_event (ex_deps []) run_net ex_net (FindRecord find_query) ?h"
  have 1: "?S (Arrives (FindRecord find_query)) ?h ?a"
    using hs_arrives [of ?h "ex_deps []" run_net ex_net "FindRecord find_query"] by (simp add: ex_handler_defs)
  have 2: "?S (Handle (FindRecord find_query)) ?a ?b"
    using hs_handle [of ?a "FindRecord find_query" "[]" "ex_deps []" run_net ex_net] by (simp add: ex_handler_defs)
  have 3: "?S (FromSwarm (Kademlia (OutboundQueryProgressed 1 (RecordErr ''not found'')))) ?b find_end"
    and 4: "?S (FromSwarm (Kademlia (OutboundQueryProgressed 1 (RecordErr ''not found'')))) find_end find_end"
    using hs_swarm [of ?b "ex_deps []" run_net ex_net "Kademlia (OutboundQueryProgressed 1 (RecordErr ''not found''))"]
      hs_swarm [of find_end "ex_deps []" run_net ex_net "Kademlia (OutboundQueryProgressed 1 (RecordErr ''not found''))"]
    by (simp_all add: query_simps find_end_def find_query_def ex_handler_defs ex_net_def cid_key_def)
  from hs_more [OF hs_more [OF hs_more [OF hs_more [OF hs_none 1] 2] 3] 4] show ?thesis by (simp add: find_run_def)
qed

theorem responses_bounded_witness:
  "answered 7 (h_sent find_end) + owed 7 find_end \<le> length (filter (registers 7) find_run) \<and>
   answered 7 (h_sent find_end) = 1"
  using responses_bounded [OF find_steps [unfolded ex_handler_def], of 7] by (simp add: find_end_def answered_def)

text \<open>
  Along every run of the event handler, from a database within its constraints, the constraints
  hold, and the channel stays within its capacity.
\<close>

lemma handler_invariant:
  assumes "db_inv db" and "hsteps D N X ins (handler_new sw db settings) h"
  shows "db_inv (h_db h) \<and> only_receipts_added db (h_db h) \<and> length (h_queue h) \<le> h_queue_len h"
  using hinv_steps [OF assms(2) hinv_new [OF assms(1)]] by (simp add: hinv_def)

section \<open>The database of a node\<close>

text \<open>
  C11. What a node learns from other nodes: whatever events of the swarm and of the runtime the
  handler takes, in any order, its database changes only by the receipts of the gossip messages it
  gets, stored one after the other in the order of the messages. None of them is left out as long
  as the pool gives a connection, and what is then found under a CID is the receipt the node had
  at the start, or else the first one it was sent.
\<close>

theorem handler_database:
  assumes "hsteps D N X ins (handler_new sw db settings) h"
  shows "\<exists>rs. subseq rs (concat (map (gossiped D) ins)) \<and> h_db h = store_all rs db \<and>
    ((\<forall>cs. pool_get X cs = Ok ()) \<longrightarrow> rs = concat (map (gossiped D) ins) \<and>
       (\<forall>c. ok (find_receipt_by_cid c (h_db h)) = List.find (\<lambda>r. r_cid r = Pointer c) (t_receipts db @ rs)))"
  using h_db_steps [OF assms] by (auto simp: handler_new_def Let_def first_receipt_find find_stored)

section \<open>Dialing\<close>





text \<open>
  Of the peers discovered by mDNS, all are dialed as soon as one more peer may be connected, even
  when there are more of them than the limit on connected peers.
\<close>

lemma mdns_ignores_limit:
  assumes "length (h_peers h) < unat (h_max_peers h)"
  shows "h_dials (handle_swarm_event D N X (Mdns (MdnsDiscovered list)) h) =
    h_dials h @ map (\<lambda>pa. DialPeer (fst pa) [snd pa] None) list"
  using assms by (simp add: handle_swarm_event_def handle_mdns_def h_dials_mdns)

definition ex_found :: "(peer_id \<times> multiaddr) list" where
  "ex_found = [(PeerId [1], []), (PeerId [2], []), (PeerId [3], [])]"

text \<open>
  After a discovery in the namespace of the node, a timer for the next discovery at the same
  rendezvous node is set exactly when another peer may be connected: at the limit, the handler
  stops discovering, also for the time when peers have left.
\<close>

lemma discovery_timer:
  assumes "cookie_namespace ck = Some RENDEZVOUS_NAMESPACE"
    and "im_get (h_cache h) (peer_to_string N node @ ''-discover'') = None" and "\<And>cs. evicted_keys X cs = []"
  shows "im_get (h_cache (handle_swarm_event D N X (RendezvousClient (Discovered node regs ck)) h))
      (peer_to_string N node @ ''-discover'') =
    (if length (h_peers h) < unat (h_max_peers h)
     then Some (timer (h_discovery_interval h) DispatchDiscoverPeers node) else None)"
proof -
  have f: "h_discovery_interval (fold (dial_registration X node k) irs h') = h_discovery_interval h'" for k irs h'
  proof (induction irs arbitrary: h')
    case (Cons ir irs)
    have "h_discovery_interval (dial_registration X node k ir h') = h_discovery_interval h'"
      by (simp add: dial_registration_def Let_def h_call_def split: prod.split sum.split)
    with Cons show ?case by simp
  qed simp
  show ?thesis using assms
    by (simp add: handle_swarm_event_def handle_rendezvous_client_def handle_discovered_def Let_def
        cache_insert_def map_laws f)
qed

section \<open>Sharing with other nodes\<close>

text \<open>The calls that share a captured receipt.\<close>

definition shares :: "deps \<Rightarrow> swarm_host \<Rightarrow> captured \<Rightarrow> handler \<Rightarrow> rt_receipt \<Rightarrow> swarm_call \<Rightarrow> bool" where
  "shares D X cap h r c \<longleftrightarrow>
     (\<exists>b. c = Publish RECEIPTS_TOPIC b \<and>
        message_to_bytes D (rt_receipt_into D) \<lparr>m_nonce = generate_nonce X (h_calls h), m_payload = r\<rparr> = Ok b) \<or>
     (\<exists>b. c = PutRecord (cid_to_bytes D (ptr_cid (r_instruction r))) b (receipt_quorum h) \<and>
        invocation_capsule D (to_invocation_receipt r) = Ok b) \<or>
     (\<exists>b. c = PutRecord (cid_to_bytes D (i_cid (cap_workflow cap))) b (workflow_quorum h) \<and>
        info_capsule D (increment_progress (ptr_cid (r_cid r)) (cap_workflow cap)) = Ok b)"

lemma put_record_calls [simp]:
  "h_calls (put_record D N X k v q key ty data h) = h_calls h @ [PutRecord k v q]"
  by (simp add: put_record_def Let_def h_calls_def h_call_def notify_def split: sum.split)

lemma quorum_frames [simp]:
  "receipt_quorum (publish_receipt D N X r h) = receipt_quorum h"
  "workflow_quorum (publish_receipt D N X r h) = workflow_quorum h"
  "workflow_quorum (put_record D N X k v q key ty data h) = workflow_quorum h"
  "receipt_quorum (h\<lparr>h_ws_workflow := w\<rparr>) = receipt_quorum h"
  "workflow_quorum (h\<lparr>h_ws_workflow := w\<rparr>) = workflow_quorum h"
  "h_calls (h\<lparr>h_ws_workflow := w\<rparr>) = h_calls h"
  by (simp_all add: put_record_def publish_receipt_def receipt_quorum_def workflow_quorum_def Let_def h_call_def
      notify_def h_calls_def split: sum.split prod.split)

lemma increment_progress_same [simp]:
  "i_cid (increment_progress c i) = i_cid i" "i_progress (increment_progress c i) = i_progress i @ [c]"
  "i_resources (increment_progress c i) = i_resources i"
  by (simp_all add: increment_progress_def)

lemma publish_receipt_calls:
  "c \<in> set (h_calls (publish_receipt D N X r h)) \<Longrightarrow> c \<in> set (h_calls h) \<or>
     (\<exists>b. c = Publish RECEIPTS_TOPIC b \<and>
        message_to_bytes D (rt_receipt_into D) \<lparr>m_nonce = generate_nonce X (h_calls h), m_payload = r\<rparr> = Ok b)"
  by (auto simp: publish_receipt_def gossip_publish_def Let_def h_calls_def notify_def split: sum.splits if_splits)

text \<open>Whatever the handler calls for a captured receipt shares the receipt that is stored.\<close>

lemma captured_shares:
  assumes "find_receipt_by_cid (cap_receipt cap) (h_db h) = Ok r"
    and "c \<in> set (h_calls (handle_event D N X (CapturedReceipt cap) h))" and "c \<notin> set (h_calls h)"
  shows "shares D X cap h r c"
proof -
  let ?L = "and_then (db_conn X h) (\<lambda>db. map_err (\<lambda>_. Msg ''database error'') (find_receipt_by_cid (cap_receipt cap) db))"
  let ?h = "h\<lparr>h_ws_workflow := h_ws_workflow h @ emit_receipt D N r (cap_metadata cap)\<rparr>"
  have "h_calls (handle_event D N X (CapturedReceipt cap) h) = h_calls (snd (publish_and_notify D N X cap h))"
    by (auto simp: handle_event_def h_calls_def split: prod.split sum.split)
  with assms(2) have c: "c \<in> set (h_calls (snd (publish_and_notify D N X cap h)))" by simp
  show ?thesis
  proof (cases ?L)
    case (Inl e)
    with c assms(3) show ?thesis by (simp add: publish_and_notify_def)
  next
    case (Inr x)
    then have "x = r" using assms(1) by (auto simp: db_conn_def result_simps)
    with Inr c assms(3) publish_receipt_calls [of c D N X r ?h] show ?thesis
      by (auto simp: publish_and_notify_def Let_def shares_def split: sum.splits if_splits)
  qed
qed

text \<open>A node that has a receipt and one connected peer, and the values its encoder knows.\<close>

definition share_receipt :: rt_receipt where
  "share_receipt = rt_receipt_new (nth_cid 1) (Pointer (nth_cid 0)) (run_receipt 0 2)"

definition capsule_ipld :: ipld where
  "capsule_ipld = IMap (bt_from [(RECEIPT_TAG, IMap (bt_insert VERSION_KEY (IString INVOCATION_VERSION)
     (case run_receipt_ipld 0 2 of IMap m \<Rightarrow> m | _ \<Rightarrow> [])))])"

definition share_message :: "rt_receipt message" where
  "share_message = \<lparr>m_nonce = Nonce96 (replicate 12 1), m_payload = share_receipt\<rparr>"

definition message_ipld :: ipld where
  "message_ipld = message_into (rt_receipt_into (ex_deps [])) share_message"

definition info_ipld :: "info \<Rightarrow> ipld" where
  "info_ipld i = IMap (bt_from [(WORKFLOW_TAG, info_into (ex_deps []) i)])"

definition share_deps :: deps where
  "share_deps = ex_deps [capsule_ipld, run_receipt_ipld 0 2, message_ipld,
     info_ipld (increment_progress (nth_cid 1) run_info)]"

definition share_cap :: captured where
  "share_cap = \<lparr>cap_receipt = nth_cid 1, cap_workflow = run_info, cap_metadata = None\<rparr>"

definition share_handler :: handler where
  "share_handler = (ex_handler (run_db\<lparr>t_receipts := [share_receipt]\<rparr>))\<lparr>h_peers := [(PeerId [1], [])]\<rparr>"

lemma share_fields:
  "field_of capsule_ipld RAN_KEY = None" "field_of capsule_ipld ''payload'' = None"
  "field_of (info_ipld i) RAN_KEY = None" "field_of (info_ipld i) ''payload'' = None"
  "field_of (run_receipt_ipld 0 2) ''payload'' = None" "field_of message_ipld ''payload'' \<noteq> None"
  "field_of capsule_ipld RECEIPT_TAG \<noteq> None" "field_of (info_ipld i) RECEIPT_TAG = None"
  by (simp_all add: capsule_ipld_def info_ipld_def message_ipld_def message_into_def run_receipt_ipld_def
      receipt_into_def field_of_def tag_defs receipt_keys bt_get_from)

lemma share_neq [simp]:
  "capsule_ipld \<noteq> run_receipt_ipld 0 2" "capsule_ipld \<noteq> message_ipld" "capsule_ipld \<noteq> info_ipld i"
  "run_receipt_ipld 0 2 \<noteq> message_ipld" "run_receipt_ipld 0 2 \<noteq> info_ipld i" "message_ipld \<noteq> info_ipld i"
  using share_fields run_fields(4) [of 0 2] by (metis option.distinct(1))+

lemma share_encode:
  "cbor_encode share_deps capsule_ipld = Ok []" "cbor_encode share_deps (run_receipt_ipld 0 2) = Ok [0]"
  "cbor_encode share_deps message_ipld = Ok [0, 0]"
  "cbor_encode share_deps (info_ipld (increment_progress (nth_cid 1) run_info)) = Ok [0, 0, 0]"
  by (simp_all add: share_deps_def ex_encode table_encode_def numeral_eq_Suc)

lemma to_invocation_new [simp]: "to_invocation_receipt (rt_receipt_new c p r) = r"
  by (simp add: to_invocation_receipt_def rt_receipt_new_def)

lemma share_capsule: "invocation_capsule share_deps (run_receipt 0 2) = Ok []"
proof -
  have i: "receipt_into share_deps (run_receipt 0 2) = run_receipt_ipld 0 2" by (simp add: share_deps_def ex_into)
  obtain m where m: "run_receipt_ipld 0 2 = IMap m" unfolding run_receipt_ipld_def receipt_into_def by blast
  have "IMap (bt_from [(RECEIPT_TAG, IMap (bt_insert VERSION_KEY (IString INVOCATION_VERSION) m))]) = capsule_ipld"
    unfolding capsule_ipld_def m by simp
  with share_encode(1) show ?thesis by (simp add: invocation_capsule_def i m)
qed

lemma share_info: "info_capsule share_deps (increment_progress (nth_cid 1) run_info) = Ok [0, 0, 0]"
proof -
  let ?i = "increment_progress (nth_cid 1) run_info"
  have i: "info_into share_deps ?i = info_into (ex_deps []) ?i"
    by (simp add: info_into_def indexed_resources_into_def share_deps_def ex_deps_def run_info_def run_url_def
        increment_progress_def)
  obtain m where m: "info_into (ex_deps []) ?i = IMap m" unfolding info_into_def by blast
  have "IMap (bt_from [(WORKFLOW_TAG, IMap m)]) = info_ipld ?i" unfolding info_ipld_def m by simp
  with share_encode(4) show ?thesis by (simp add: info_capsule_def i m del: One_nat_def)
qed

lemma share_gossip: "message_to_bytes share_deps (rt_receipt_into share_deps) share_message = Ok [0, 0]"
proof -
  have "message_into (rt_receipt_into share_deps) share_message = message_ipld"
    by (simp add: message_ipld_def message_into_def rt_receipt_into_def share_message_def share_receipt_def
        rt_receipt_new_def run_receipt_def)
  with share_encode(3) show ?thesis by (simp add: message_to_bytes_def)
qed

text \<open>What the node calls for the receipt, with the default settings.\<close>

lemma share_calls:
  "h_calls (handle_event share_deps run_net ex_net (CapturedReceipt share_cap) share_handler) =
     [Publish RECEIPTS_TOPIC [0, 0],
      PutRecord (cid_to_bytes share_deps (nth_cid 0)) [] (QuorumN 2),
      PutRecord (cid_to_bytes share_deps (nth_cid 20)) [0, 0, 0] (QuorumN 2)]"
proof -
  let ?h = "share_handler\<lparr>h_ws_workflow := emit_receipt share_deps run_net share_receipt None\<rparr>"
  have f: "find_receipt_by_cid (nth_cid 1) (h_db share_handler) = Ok share_receipt"
    by (simp add: find_receipt_by_cid_def first_row_def share_handler_def ex_handler_defs share_receipt_def rt_receipt_new_def)
  have s: "h_peers share_handler = [(PeerId [1], [])]" "h_pubsub_enabled share_handler"
    "h_swarm share_handler = ex_swarm" "h_ws_workflow share_handler = []"
    "receipt_quorum share_handler = QuorumN 2" "workflow_quorum share_handler = QuorumN 2"
    by (simp_all add: share_handler_def ex_handler_defs receipt_quorum_def workflow_quorum_def)
  have n: "pool_get ex_net cs = Ok ()" "generate_nonce ex_net cs = Nonce96 (replicate 12 1)"
    "has_mesh_peers ex_net cs t" "publish_result ex_net cs = Ok ''id''" for cs t
    by (simp_all add: ex_net_def)
  have p: "h_calls (publish_receipt share_deps run_net ex_net share_receipt ?h) = [Publish RECEIPTS_TOPIC [0, 0]]"
    using share_gossip by (simp add: publish_receipt_def gossip_publish_def Let_def h_calls_def s n notify_def
        share_message_def ex_swarm_def)
  have c: "ptr_cid (r_instruction share_receipt) = nth_cid 0" "ptr_cid (r_cid share_receipt) = nth_cid 1"
    "to_invocation_receipt share_receipt = run_receipt 0 2"
    by (simp_all add: share_receipt_def) (simp_all add: rt_receipt_new_def)
  have "h_calls (snd (publish_and_notify share_deps run_net ex_net share_cap share_handler)) =
     [Publish RECEIPTS_TOPIC [0, 0], PutRecord (cid_to_bytes share_deps (nth_cid 0)) [] (QuorumN 2),
      PutRecord (cid_to_bytes share_deps (nth_cid 20)) [0, 0, 0] (QuorumN 2)]"
    using f p share_capsule share_info
    by (simp add: publish_and_notify_def db_conn_def share_cap_def s n c Let_def del: One_nat_def)
  then show ?thesis by (auto simp: handle_event_def h_calls_def split: prod.split sum.split)
qed

text \<open>
  C16. A receipt that a node gossips after a task is stored by every node the message reaches, unless
  that node has a receipt with the same CID: what it then finds under the CID is the receipt of
  the first node.
\<close>

theorem gossip_delivered:
  assumes "serde_ok D" and "cbor_ok D" and "\<And>cs. nonce_wf (generate_nonce X cs)"
    and "find_receipt_by_cid (cap_receipt cap) (h_db h) = Ok r" and "issuer_read D (r_issuer r) = r_issuer r"
    and "Publish topic b \<in> set (h_calls (handle_event D N X (CapturedReceipt cap) h))"
    and "Publish topic b \<notin> set (h_calls h)"
    and "pool_get Y (h_calls g) = Ok ()" and "db_inv (h_db g)"
  shows "\<exists>r'. find_receipt_by_cid (cap_receipt cap)
      (h_db (handle_swarm_event D N Y (Gossipsub (GossipMessage b src i)) g)) = Ok r' \<and>
    (find_receipt_by_cid (cap_receipt cap) (h_db g) = Err NotFound \<longrightarrow> r' = r)"
proof -
  let ?m = "\<lparr>m_nonce = generate_nonce X (h_calls h), m_payload = r\<rparr>"
  have "message_to_bytes D (rt_receipt_into D) ?m = Ok b"
    using captured_shares [OF assms(4,6,7)] by (simp add: shares_def)
  then have m: "message_from_bytes D (rt_receipt_try_from D) b = Ok ?m"
    using message_roundtrip [OF assms(1), of ?m "rt_receipt_try_from D" "rt_receipt_into D"] assms(2,3,5)
      rt_receipt_codec.try_from_into [of D r] assms(1)
    by (auto simp: message_to_bytes_def message_from_bytes_def cbor_ok_def result_simps)
  have c: "r_cid r = Pointer (cap_receipt cap)"
    using assms(4) by (auto simp: find_receipt_by_cid_def dest: first_row_filter_Ok)
  have db: "h_db (handle_swarm_event D N Y (Gossipsub (GossipMessage b src i)) g) = snd (store_receipt r (h_db g))"
    using m assms(8) by (simp add: handle_swarm_event_def handle_gossip_def db_conn_def Let_def notify_def)
  show ?thesis
  proof (cases "\<exists>x \<in> set (t_receipts (h_db g)). r_cid x = r_cid r")
    case True
    then obtain x where x: "x \<in> set (t_receipts (h_db g))" "r_cid x = Pointer (cap_receipt cap)" using c by auto
    then have "find_receipt_by_cid (cap_receipt cap) (h_db g) = Ok x"
      using find_receipt_by_cid_iff [OF assms(9)] by simp
    with db True show ?thesis by (simp add: store_receipt_def)
  next
    case False
    then have "find_receipt_by_cid (cap_receipt cap) (snd (store_receipt r (h_db g))) = Ok r"
      using find_receipt_by_cid_iff [OF db_inv_store_receipt [OF assms(9), of r], of "cap_receipt cap" r] c
      by (simp add: store_receipt_def)
    with db show ?thesis by simp
  qed
qed

lemma info_equiv_fields:
  "info_equiv j i \<Longrightarrow> i_cid j = i_cid i \<and> i_name j = i_name i \<and> i_num_tasks j = i_num_tasks i \<and>
     i_progress j = i_progress i \<and> i_progress_count j = i_progress_count i"
  by (cases j; cases i) (simp add: info_equiv_def)

definition empty_node :: handler where
  "empty_node = (ex_handler db_empty)\<lparr>h_query_senders := [(5, \<lparr>k_cid = [], k_tag = CapsuleReceipt\<rparr>, Some 7)]\<rparr>"

lemma share_select:
  "find_receipt_by_cid (cap_receipt share_cap) (h_db share_handler) = Ok share_receipt"
  "r_issuer share_receipt = None" "h_calls share_handler = []" "h_calls empty_node = []" "h_db empty_node = db_empty"
  "pool_get ex_net [] = Ok ()" "nonce_wf (generate_nonce ex_net cs)"
  by (simp_all add: find_receipt_by_cid_def first_row_def share_handler_def ex_handler_defs share_receipt_def
      share_cap_def rt_receipt_new_def run_receipt_def h_calls_def empty_node_def ex_net_def)

theorem gossip_delivered_witness:
  "find_receipt_by_cid (nth_cid 1) (h_db (handle_swarm_event share_deps run_net ex_net
     (Gossipsub (GossipMessage [0, 0] (PeerId [2]) ''id'')) empty_node)) = Ok share_receipt"
proof -
  have "find_receipt_by_cid (cap_receipt share_cap) (h_db empty_node) = Err NotFound"
    by (simp add: share_select db_empty_def find_receipt_by_cid_def first_row_def)
  with gossip_delivered [of share_deps ex_net share_cap share_handler share_receipt RECEIPTS_TOPIC "[0, 0]" run_net
      ex_net empty_node "PeerId [2]" "''id''"]
  show ?thesis by (simp add: share_select share_calls) (simp add: share_deps_def share_cap_def)
qed

lemma task_receipt_with:
  assumes "task_receipt D W t x = Ok r"
  shows "try_with D (t_instruction t) (to_invocation_receipt r) = Ok r" "r_instruction r = t_instruction t"
    "issuer (to_invocation_receipt r) = None"
proof -
  from assms obtain y where y: "try_with D (t_instruction t)
      \<lparr>ran = t_invocation t, out = IrOk y, meta = t_receipt_meta t, issuer = None, proof_links = UcanPrf []\<rparr> = Ok r"
    by (auto simp: task_receipt_def result_simps)
  then have "to_invocation_receipt r =
      \<lparr>ran = t_invocation t, out = IrOk y, meta = t_receipt_meta t, issuer = None, proof_links = UcanPrf []\<rparr>"
    by (auto simp: try_with_def result_simps)
  with y show "try_with D (t_instruction t) (to_invocation_receipt r) = Ok r" "issuer (to_invocation_receipt r) = None"
    by simp_all
  show "r_instruction r = t_instruction t" by (rule task_receipt_instruction [OF assms])
qed

text \<open>The records a node with peers puts in the DHT for a captured receipt.\<close>

lemma captured_puts:
  assumes "find_receipt_by_cid (cap_receipt cap) (h_db h) = Ok r" and "pool_get X (h_calls h) = Ok ()" and "h_peers h \<noteq> []"
    and "invocation_capsule D (to_invocation_receipt r) = Ok b"
    and "info_capsule D (increment_progress (ptr_cid (r_cid r)) (cap_workflow cap)) = Ok b'"
  shows "\<exists>pub. h_calls (handle_event D N X (CapturedReceipt cap) h) = h_calls h @ pub @
      [PutRecord (cid_to_bytes D (ptr_cid (r_instruction r))) b (receipt_quorum h),
       PutRecord (cid_to_bytes D (i_cid (cap_workflow cap))) b' (workflow_quorum h)] \<and>
    (\<forall>c \<in> set pub. \<exists>m. c = Publish RECEIPTS_TOPIC m)"
proof -
  let ?h = "h\<lparr>h_ws_workflow := h_ws_workflow h @ emit_receipt D N r (cap_metadata cap)\<rparr>"
  have same: "h_calls (handle_event D N X (CapturedReceipt cap) h) = h_calls (snd (publish_and_notify D N X cap h))"
    by (auto simp: handle_event_def h_calls_def split: prod.split sum.split)
  have "\<exists>pub. h_calls (publish_receipt D N X r ?h) = h_calls h @ pub \<and> (\<forall>c \<in> set pub. \<exists>m. c = Publish RECEIPTS_TOPIC m)"
    by (auto simp: publish_receipt_def gossip_publish_def Let_def h_calls_def notify_def split: sum.splits)
  then obtain pub where pub: "h_calls (publish_receipt D N X r ?h) = h_calls h @ pub"
    "\<forall>c \<in> set pub. \<exists>m. c = Publish RECEIPTS_TOPIC m" by blast
  let ?pub = "if h_pubsub_enabled h then pub else []"
  have "h_calls (snd (publish_and_notify D N X cap h)) = h_calls h @ ?pub @
      [PutRecord (cid_to_bytes D (ptr_cid (r_instruction r))) b (receipt_quorum h),
       PutRecord (cid_to_bytes D (i_cid (cap_workflow cap))) b' (workflow_quorum h)]"
    using assms pub(1) by (simp add: publish_and_notify_def db_conn_def Let_def)
  with same pub(2) show ?thesis by (intro exI [of _ ?pub]) simp
qed

text \<open>
  C15. A node with peers puts two records in the DHT for the receipt of a task that is captured:
  the receipt under the CID of the task's instruction, and the workflow information, with the receipt
  added to the progress it had, under the CID of the workflow. A node that finds the first one for
  a query sends the task that waits for it the same receipt, and one that finds the second one the
  same information.
\<close>

theorem dht_delivered:
  assumes "serde_ok D" and "cbor_ok D" and "cid_text_ok D" and "url_text_ok D" and "cid_bytes_ok D"
    and "task_receipt D W t x = Ok r" and "find_receipt_by_cid (cap_receipt cap) (h_db h) = Ok r"
    and "im_inv (i_resources (cap_workflow cap))" and "pool_get X (h_calls h) = Ok ()" and "h_peers h \<noteq> []"
    and "invocation_capsule D (to_invocation_receipt r) = Ok b"
    and "info_capsule D (increment_progress (cap_receipt cap) (cap_workflow cap)) = Ok b'"
    and "im_get (h_query_senders g) i = Some (k, Some s)"
  shows "(\<exists>pub. h_calls (handle_event D N X (CapturedReceipt cap) h) = h_calls h @ pub @
        [PutRecord (cid_to_bytes D (ptr_cid (t_instruction t))) b (receipt_quorum h),
         PutRecord (cid_to_bytes D (i_cid (cap_workflow cap))) b' (workflow_quorum h)] \<and>
      (\<forall>c \<in> set pub. \<exists>m. c = Publish RECEIPTS_TOPIC m)) \<and>
    h_sent (handle_swarm_event D N Y (Kademlia (OutboundQueryProgressed i (FoundRecord
      \<lparr>dht_key = cid_to_bytes D (ptr_cid (t_instruction t)), dht_value = b, dht_publisher = p\<rparr>))) g) =
      h_sent g @ [ToWaiter s (Found (Ok (FoundReceipt p r (SwarmNotification GotReceiptDht))))] \<and>
    (\<exists>j. h_sent (handle_swarm_event D N Y (Kademlia (OutboundQueryProgressed i (FoundRecord
      \<lparr>dht_key = cid_to_bytes D (i_cid (cap_workflow cap)), dht_value = b', dht_publisher = p\<rparr>))) g) =
      h_sent g @ [ToWaiter s (Found (Ok (FoundWorkflow p j (SwarmNotification GotWorkflowInfoDht))))] \<and>
      i_cid j = i_cid (cap_workflow cap) \<and> i_num_tasks j = i_num_tasks (cap_workflow cap) \<and>
      i_progress j = i_progress (cap_workflow cap) @ [cap_receipt cap])"
proof -
  have c: "ptr_cid (r_cid r) = cap_receipt cap"
    using assms(7) by (auto simp: find_receipt_by_cid_def dest: first_row_filter_Ok)
  have k: "cid_from_bytes D (cid_to_bytes D z) = Ok z" for z using assms(5) by (simp add: cid_bytes_ok_def)
  have sent: "found_record D rec = Ok decoded \<Longrightarrow>
      h_sent (handle_swarm_event D N Y (Kademlia (OutboundQueryProgressed i (FoundRecord rec))) g) =
        h_sent g @ [ToWaiter s (found_in_dht decoded)]" for rec decoded
    using assms(13) by (simp add: handle_swarm_event_def handle_kademlia_def handle_query_def answer_query_def
        take_query_def reply_def h_send_def)
  note made = task_receipt_with [OF assms(6)]
  have "issuer_read D (issuer (to_invocation_receipt r)) = issuer (to_invocation_receipt r)"
    by (simp add: made(3) issuer_read_def)
  from receipt_capsule_roundtrip [OF assms(1,2) this assms(11), of "ptr_cid (t_instruction t)" p] made(1)
  have receipt: "found_record D \<lparr>dht_key = cid_to_bytes D (ptr_cid (t_instruction t)), dht_value = b, dht_publisher = p\<rparr> =
      Ok (DecodedReceipt p r)"
    by (cases "t_instruction t") (simp add: found_record_def k)
  from info_capsule_roundtrip [OF assms(1-4) _ assms(12), of "i_cid (cap_workflow cap)" p] assms(8)
  obtain j where j: "decode_capsule D (i_cid (cap_workflow cap)) p b' = Ok (DecodedWorkflow p j)"
    and e: "info_equiv j (increment_progress (cap_receipt cap) (cap_workflow cap))" by auto
  then have info: "found_record D \<lparr>dht_key = cid_to_bytes D (i_cid (cap_workflow cap)), dht_value = b', dht_publisher = p\<rparr> =
      Ok (DecodedWorkflow p j)"
    by (simp add: found_record_def k)
  have "i_cid j = i_cid (cap_workflow cap) \<and> i_num_tasks j = i_num_tasks (cap_workflow cap) \<and>
      i_progress j = i_progress (cap_workflow cap) @ [cap_receipt cap]"
    using info_equiv_fields [OF e] by (simp add: increment_progress_def)
  with captured_puts [OF assms(7,9,10,11), of b' N] assms(12) sent [OF receipt] sent [OF info] made(2) c show ?thesis
    by (simp add: found_in_dht_def)
qed

lemma share_made: "task_receipt share_deps ex_wasm (run_task_of 0) (OutputValue (VS32 2)) = Ok share_receipt"
proof -
  have "receipt_into share_deps (run_receipt 0 2) = run_receipt_ipld 0 2" by (simp add: share_deps_def ex_into)
  then have "receipt_to_cid share_deps (run_receipt 0 2) = Ok (nth_cid 1)"
    using share_encode(2) by (simp add: receipt_to_cid_def to_cid_def nth_cid_def) (simp add: share_deps_def ex_sha)
  then show ?thesis
    by (simp add: task_receipt_def share_receipt_def try_with_def run_task_of_def run_receipt_def)
qed

theorem dht_delivered_witness:
  "h_sent (handle_swarm_event share_deps run_net ex_net (Kademlia (OutboundQueryProgressed 5 (FoundRecord
      \<lparr>dht_key = cid_to_bytes share_deps (nth_cid 0), dht_value = [], dht_publisher = None\<rparr>))) empty_node) =
     [ToWaiter 7 (Found (Ok (FoundReceipt None share_receipt (SwarmNotification GotReceiptDht))))]"
proof -
  have "im_get (h_query_senders empty_node) 5 = Some (\<lparr>k_cid = [], k_tag = CapsuleReceipt\<rparr>, Some 7)" "h_sent empty_node = []"
    by (simp_all add: empty_node_def ex_handler_defs)
  moreover have "im_inv (i_resources (cap_workflow share_cap))" "h_peers share_handler \<noteq> []"
    by (simp_all add: share_cap_def run_info_def im_inv_def nth_cid_def new_v1_def share_handler_def)
  moreover have "serde_ok share_deps" "cbor_ok share_deps" "cid_text_ok share_deps" "url_text_ok share_deps"
    "cid_bytes_ok share_deps" by (simp_all add: share_deps_def)
  moreover have "invocation_capsule share_deps (to_invocation_receipt share_receipt) = Ok []"
    "info_capsule share_deps (increment_progress (cap_receipt share_cap) (cap_workflow share_cap)) = Ok [0, 0, 0]"
    using share_capsule share_info by (simp_all add: share_receipt_def share_cap_def del: One_nat_def)
  moreover have "t_instruction (run_task_of 0) = Pointer (nth_cid 0)" by (simp add: run_task_of_def)
  ultimately show ?thesis
    using dht_delivered [OF _ _ _ _ _ share_made, of share_cap share_handler ex_net "[]" "[0, 0, 0]" empty_node 5
        "\<lparr>k_cid = [], k_tag = CapsuleReceipt\<rparr>" 7 run_net ex_net None]
    by (simp add: share_select)
qed

text \<open>The node that gets the gossip message of the first one.\<close>

lemma empty_steps:
  "hsteps share_deps run_net ex_net [FromSwarm (Gossipsub (GossipMessage [0, 0] (PeerId [2]) ''id''))] (ex_handler db_empty)
     (handle_swarm_event share_deps run_net ex_net (Gossipsub (GossipMessage [0, 0] (PeerId [2]) ''id'')) (ex_handler db_empty))"
  using hs_more [OF hs_none hs_swarm, of "ex_handler db_empty" share_deps run_net ex_net
      "Gossipsub (GossipMessage [0, 0] (PeerId [2]) ''id'')"] by (simp add: ex_handler_defs)

lemma share_read: "gossiped share_deps (FromSwarm (Gossipsub (GossipMessage [0, 0] src mid))) = [share_receipt]"
proof -
  have "serde_ok share_deps" "cbor_ok share_deps" by (simp_all add: share_deps_def)
  then have "message_from_bytes share_deps (rt_receipt_try_from share_deps) [0, 0] = Ok share_message"
    using share_gossip message_roundtrip [of share_deps share_message "rt_receipt_try_from share_deps" "rt_receipt_into share_deps"]
      rt_receipt_codec.try_from_into [of share_deps share_receipt]
    by (auto simp: message_to_bytes_def message_from_bytes_def cbor_ok_def result_simps share_message_def issuer_read_def share_select)
  then show ?thesis by (simp add: gossiped_def share_message_def)
qed

theorem handler_database_witness:
  "ok (find_receipt_by_cid (nth_cid 1) (h_db (handle_swarm_event share_deps run_net ex_net
     (Gossipsub (GossipMessage [0, 0] (PeerId [2]) ''id'')) (ex_handler db_empty)))) = Some share_receipt"
proof -
  have "pool_get ex_net cs = Ok ()" for cs by (simp add: ex_net_def)
  with handler_database [OF empty_steps [unfolded ex_handler_def]] show ?thesis
    by (auto simp: share_read db_empty_def ex_handler_def share_receipt_def rt_receipt_new_def)
qed

text \<open>
  With positive quorums, every record that is put after a task asks for the quorum of receipts:
  the quorum that is configured for workflow information is never used.
\<close>

lemma workflow_quorum_ignored:
  assumes "0 < h_receipt_quorum h" and "0 < h_workflow_quorum h"
    and "find_receipt_by_cid (cap_receipt cap) (h_db h) = Ok r"
    and "PutRecord key b q \<in> set (h_calls (handle_event D N X (CapturedReceipt cap) h))"
    and "PutRecord key b q \<notin> set (h_calls h)"
  shows "q = QuorumN (h_receipt_quorum h)"
  using captured_shares [OF assms(3-5)] assms(1,2) by (auto simp: shares_def receipt_quorum_def workflow_quorum_def)

text \<open>
  C17. A node that asks a provider for workflow information is told what the database of the provider
  says: the provider answers the request with the information it has stored, and the task that
  waits at the other node is sent information with the same CID, name, progress and counts.
\<close>

theorem info_provided:
  assumes "serde_ok D" and "cbor_ok D" and "cid_text_ok D" and "url_text_ok D"
    and "pool_get X (h_calls h) = Ok ()" and "cid_from_str D (k_cid key) = Ok c" and "k_tag key = CapsuleWorkflow"
    and "\<not> h_blocked h" and "get_workflow_info c (h_db h) = Ok (nm, i)" and "im_inv (i_resources i)"
    and "info_capsule D i = Ok b" and "im_get (h_request_senders g) k = Some (key, s)"
  shows "h_calls (handle_swarm_event D N X (RequestResponse (RequestMessage p key ch)) h) = h_calls h @ [SendResponse ch b] \<and>
    (\<exists>j. h_sent (handle_swarm_event D N' Y (RequestResponse (ResponseMessage p' k b)) g) =
       h_sent g @ [ToWaiter s (Found (Ok (FoundWorkflow (Some p') j (SwarmNotification ReceivedWorkflowInfo))))] \<and>
     i_cid j = i_cid i \<and> i_name j = i_name i \<and> i_num_tasks j = i_num_tasks i \<and> i_progress j = i_progress i \<and>
     i_progress_count j = i_progress_count i)"
proof -
  have "h_calls (handle_swarm_event D N X (RequestResponse (RequestMessage p key ch)) h) = h_calls h @ [SendResponse ch b]"
    using assms(5-9,11) by (simp add: handle_swarm_event_def handle_request_response_def serve_request_def db_conn_def
        info_retrieve_def Let_def notify_def respond_def h_calls_def h_call_def)
  moreover from info_capsule_roundtrip [OF assms(1-4,10,11), of c "Some p'"] obtain j
    where j: "decode_capsule D c (Some p') b = Ok (DecodedWorkflow (Some p') j)" "info_equiv j i" .
  moreover from this have "h_sent (handle_swarm_event D N' Y (RequestResponse (ResponseMessage p' k b)) g) =
      h_sent g @ [ToWaiter s (Found (Ok (FoundWorkflow (Some p') j (SwarmNotification ReceivedWorkflowInfo))))]"
    using assms(6,12) by (simp add: handle_swarm_event_def handle_request_response_def handle_response_def Let_def h_send_def)
  ultimately show ?thesis using info_equiv_fields [OF j(2)] by blast
qed

definition info_key :: request_response_key where
  "info_key = \<lparr>k_cid = cid_text (nth_cid 20), k_tag = CapsuleWorkflow\<rparr>"

definition info_deps :: deps where "info_deps = ex_deps [info_ipld run_info]"

definition asking_node :: handler where
  "asking_node = (ex_handler db_empty)\<lparr>h_request_senders := [(4, info_key, 7)]\<rparr>"

lemma run_info_capsule: "info_capsule info_deps run_info = Ok []"
proof -
  have i: "info_into info_deps run_info = info_into (ex_deps []) run_info"
    by (simp add: info_into_def indexed_resources_into_def info_deps_def ex_deps_def run_info_def run_url_def)
  obtain m where m: "info_into (ex_deps []) run_info = IMap m" unfolding info_into_def by blast
  have "IMap (bt_from [(WORKFLOW_TAG, IMap m)]) = info_ipld run_info" unfolding info_ipld_def m by simp
  then show ?thesis
    by (simp add: info_capsule_def i m) (simp add: info_deps_def ex_encode table_encode_def)
qed

theorem info_provided_witness:
  "\<exists>j. h_sent (handle_swarm_event info_deps run_net ex_net (RequestResponse (ResponseMessage (PeerId [1]) 4 [])) asking_node) =
     [ToWaiter 7 (Found (Ok (FoundWorkflow (Some (PeerId [1])) j (SwarmNotification ReceivedWorkflowInfo))))] \<and>
   i_cid j = nth_cid 20 \<and> i_num_tasks j = 2"
proof -
  have "serde_ok info_deps" "cbor_ok info_deps" "cid_text_ok info_deps" "url_text_ok info_deps"
    "cid_from_str info_deps (k_cid info_key) = Ok (nth_cid 20)"
    by (simp_all add: info_deps_def info_key_def)
  moreover have "pool_get ex_net cs = Ok ()" for cs by (simp add: ex_net_def)
  moreover have "get_workflow_info (nth_cid 20) (h_db (ex_handler run_db)) = Ok (None, run_info)"
    by (simp add: ex_handler_defs run_db_def get_workflow_info_def select_workflow_def first_row_def stored_new_def
        info_new_def run_info_def Let_def)
  moreover have "im_inv (i_resources run_info)" by (simp add: run_info_def im_inv_def nth_cid_def new_v1_def)
  moreover have "im_get (h_request_senders asking_node) 4 = Some (info_key, 7)" "h_sent asking_node = []"
    "k_tag info_key = CapsuleWorkflow" "\<not> h_blocked (ex_handler run_db)" "i_num_tasks run_info = 2"
    by (simp_all add: asking_node_def info_key_def ex_handler_defs run_info_def)
  ultimately show ?thesis
    using info_provided [of info_deps ex_net "ex_handler run_db" info_key "nth_cid 20" None run_info "[]" asking_node 4 7
        run_net "PeerId [2]" 9 run_net ex_net "PeerId [1]"] run_info_capsule by auto
qed

section \<open>The bounded channel\<close>

text \<open>
  C29. When providers of a workflow are found, a request to each of them is queued if the channel of
  events has room for all; if not, the handler waits for room that only it can make, and from
  then on sends nothing, calls nothing and stores nothing.
\<close>

theorem providers_forwarded:
  assumes "\<not> h_blocked h" and "length (h_queue h) \<le> h_queue_len h"
  shows "let h' = handle_event D N X (Providers (Ok (providers, key, s))) h;
             requests = map (\<lambda>p. OutboundRequest \<lparr>pr_peer = p, pr_request = key, pr_sender = s\<rparr>) providers in
    if length (h_queue h) + length providers \<le> h_queue_len h
    then \<not> h_blocked h' \<and> h_queue h' = h_queue h @ requests
    else (\<forall>ins h''. hsteps D N X ins h' h'' \<longrightarrow>
      h_sent h'' = h_sent h' \<and> h_swarm h'' = h_swarm h' \<and> h_db h'' = h_db h')"
proof -
  let ?r = "\<lambda>p. OutboundRequest \<lparr>pr_peer = p, pr_request = key, pr_sender = s\<rparr>"
  have f: "fold (\<lambda>p. send_self (?r p)) providers h = fold send_self (map ?r providers) h"
    by (simp add: fold_map comp_def)
  show ?thesis
  proof (cases "length (h_queue h) + length providers \<le> h_queue_len h")
    case True
    with send_self_fits [OF assms(1), of "map ?r providers"] assms(1) show ?thesis
      by (simp add: handle_event_def handle_info_def f Let_def)
  next
    case False
    with send_self_overflow [of h "map ?r providers"] assms(2)
    have "h_blocked (handle_event D N X (Providers (Ok (providers, key, s))) h)"
      by (simp add: handle_event_def handle_info_def f)
    with False show ?thesis by (auto simp: Let_def dest: blocked_steps)
  qed
qed

definition small_channel :: handler where
  "small_channel = (ex_handler db_empty)\<lparr>h_queue_len := 1\<rparr>"

definition one_provider :: event where
  "one_provider = Providers (Ok ([PeerId [1]], info_key, 7))"

theorem providers_forwarded_witness:
  "h_queue (handle_event (ex_deps []) run_net ex_net one_provider small_channel) =
     [OutboundRequest \<lparr>pr_peer = PeerId [1], pr_request = info_key, pr_sender = 7\<rparr>]"
  using providers_forwarded [of small_channel "ex_deps []" run_net ex_net "[PeerId [1]]" info_key 7]
  by (simp add: small_channel_def ex_handler_defs one_provider_def Let_def)

text \<open>
  A peer that is connected twice and closes one connection is no longer counted as connected:
  when it was the only peer, receipts are no longer shared, neither by gossip nor in the DHT.
\<close>

lemma connection_forgotten:
  assumes "h_peers h = []"
  shows "let h' = handle_swarm_event D N X (ConnectionClosed p b)
      (handle_swarm_event D N X (ConnectionEstablished p b) (handle_swarm_event D N X (ConnectionEstablished p a) h)) in
    h_peers h' = [] \<and> h_calls (handle_event D N X (CapturedReceipt cap) h') = h_calls h'"
proof -
  let ?h = "handle_swarm_event D N X (ConnectionClosed p b)
      (handle_swarm_event D N X (ConnectionEstablished p b) (handle_swarm_event D N X (ConnectionEstablished p a) h))"
  have p: "h_peers ?h = []" using assms
    by (simp add: handle_swarm_event_def connection_established_def connection_closed_def Let_def notify_def hm_remove_def h_call_def)
  then have "h_calls (snd (publish_and_notify D N X cap ?h)) = h_calls ?h"
    by (auto simp: publish_and_notify_def Let_def split: sum.split)
  then have "h_calls (handle_event D N X (CapturedReceipt cap) ?h) = h_calls ?h"
    by (auto simp: handle_event_def h_calls_def split: prod.split sum.split)
  with p show ?thesis by (simp add: Let_def)
qed

section \<open>Progress of a workflow\<close>

text \<open>The events of a worker that announce receipts carry the progress the worker started with.\<close>

definition captured_from :: "cid list \<Rightarrow> worker_state \<Rightarrow> bool" where
  "captured_from progress s \<longleftrightarrow> i_progress (ws_info s) = progress \<and>
     (\<forall>cap. CapturedReceipt cap \<in> set (ws_events s) \<longrightarrow> i_progress (cap_workflow cap) = progress)"

lemma captured_from_step:
  assumes "wstep E s s'" and "captured_from progress s"
  shows "captured_from progress s'"
  using assms
proof cases
  case (run_one i net r lm db evs)
  with run_task_Some [OF run_one(5)] assms(2) show ?thesis by (auto simp: captured_from_def)
next
  case (run_waits i net lm db evs)
  with run_task_effects [OF run_waits(5)] assms(2) show ?thesis by (auto simp: captured_from_def)
next
  case (join_ok i t x net s1)
  from join_task_Ok [OF join_ok(6)] obtain r :: rt_receipt where "ws_info s1 = bump_progress (we_resume_step E) (ws_info s)"
    "ws_events s1 = ws_events s @
       [CapturedReceipt \<lparr>cap_receipt = ptr_cid (r_cid r),
          cap_workflow = bump_progress (we_resume_step E) (ws_info s), cap_metadata = Some (t_add_meta t)\<rparr>]" by blast
  with join_ok(1) assms(2) show ?thesis by (auto simp: captured_from_def)
qed (use assms(2) in \<open>simp_all add: captured_from_def\<close>)

lemma captured_from_steps: "wsteps E s s' \<Longrightarrow> captured_from progress s \<Longrightarrow> captured_from progress s'"
  by (induction rule: rtranclp_induct) (auto dest: captured_from_step)

text \<open>
  However many receipts a run of a worker produces, the workflow information that is published
  with each of them lists the receipts known when the worker started and that one receipt: the
  receipts before it in the same run are missing.
\<close>

lemma published_progress:
  assumes "worker_run D W w conn fetch_fn running handles db = Ok (sch, s0)" and "wsteps E s0 s"
    and "CapturedReceipt cap \<in> set (ws_events s)"
  shows "i_progress (increment_progress (cap_receipt cap) (cap_workflow cap)) =
    i_progress (wk_info w) @ [cap_receipt cap]"
proof -
  have "captured_from (i_progress (wk_info w)) s0"
    using assms(1) by (auto simp: worker_run_def run_queue_start_def captured_from_def replay_events_def result_simps
        split: sum.splits if_splits)
  from captured_from_steps [OF assms(2) this] assms(3) show ?thesis by (simp add: captured_from_def)
qed

end
