(* ===== verification/Webserver.thy ===== *)
theory Webserver
  imports Handler "HOL-Library.Sublist"
begin

text \<open>
  The webserver (\<open>network/webserver.rs\<close>, \<open>network/webserver/rpc.rs\<close>,
  \<open>network/webserver/listener.rs\<close>): the choice of its port, the methods clients call, and the
  loops that pass broadcast messages on to subscribed clients. The transport is jsonrpsee's: what
  a sink does with a message is a function of the messages it was given so far.
\<close>

section \<open>Choosing a port\<close>

type_synonym socket_addr = "string \<times> u16"

record server =
  srv_addr :: socket_addr
  srv_capacity :: usize
  srv_receiver_timeout :: duration
  srv_webserver_timeout :: duration

text \<open>The range \<open>a..b\<close> of ports; \<open>port_setting + 1000\<close> is an addition of 16 bits.\<close>

definition port_range :: "u16 \<Rightarrow> u16 \<Rightarrow> u16 list" where
  "port_range a b = map word_of_nat [unat a..<unat b]"

definition find_port :: "(string \<Rightarrow> u16 \<Rightarrow> bool) \<Rightarrow> string \<Rightarrow> u16 \<Rightarrow> anyhow + u16" where
  "find_port port_available host port_setting =
     (if port_available host port_setting then Ok port_setting
      else ok_or (find (port_available host) (port_range port_setting (port_setting + 1000)))
             (Msg ''no free TCP ports available''))"

definition server_new ::
  "(string \<Rightarrow> string + string) \<Rightarrow> (string \<Rightarrow> u16 \<Rightarrow> bool) \<Rightarrow> webserver_settings \<Rightarrow> anyhow + server" where
  "server_new ip_from_str port_available settings =
     and_then (map_err Msg (ip_from_str (web_host settings))) (\<lambda>host.
     and_then (find_port port_available host (web_port settings)) (\<lambda>port.
     Ok \<lparr>srv_addr = (host, port), srv_capacity = web_websocket_capacity settings,
         srv_receiver_timeout = web_websocket_receiver_timeout settings,
         srv_webserver_timeout = web_timeout settings\<rparr>))"

section \<open>Messages between the webserver and the runner\<close>

datatype runner_error = UnsupportedWorkflow string | RunnerIo string | RunnerRuntime anyhow

record static_node_info =
  sni_peer_id :: peer_id

datatype web_message =
    WebRunErr runner_error
  | WebRunWorkflow string "arg workflow"
  | WebAckWorkflow cid string
  | WebGetNodeInfo
  | WebAckNodeInfo static_node_info dynamic_node_info

section \<open>Methods\<close>

datatype error_object = InternalError string | ServerIsBusy string

definition health :: "string + unit \<Rightarrow> bool \<Rightarrow> error_object + bool" where
  "health conn query_ok =
     (case conn of
        Ok _ \<Rightarrow> if query_ok then Ok True else Err (InternalError ''database query is unreachable'')
      | Err e \<Rightarrow> Err (InternalError e))"

text \<open>
  \<open>sent\<close> is the result of sending the request to the runner, \<open>received\<close> what the runner sends
  before the deadline, if anything.
\<close>

definition node_info_method ::
  "string + unit \<Rightarrow> web_message option \<Rightarrow> error_object + static_node_info \<times> dynamic_node_info" where
  "node_info_method sent received =
     and_then (map_err InternalError sent) (\<lambda>_.
     case received of
       Some (WebAckNodeInfo static dyn) \<Rightarrow> Ok (static, dyn)
     | _ \<Rightarrow> Err (InternalError ''failed to get node information''))"

text \<open>The parameters of a request to run a workflow; a missing name is generated.\<close>

record run_params =
  rp_name :: string
  rp_workflow :: "arg workflow"

definition default_name :: "string option \<Rightarrow> string" where
  "default_name generated = unwrap_or generated ''workflow''"

definition parse_run ::
  "deps \<Rightarrow> string option \<Rightarrow> string option \<Rightarrow> bytes \<Rightarrow> unit error + run_params" where
  "parse_run D generated name raw_value =
     and_then (from_json D (workflow_try_from D arg_from) raw_value) (\<lambda>flow.
     Ok \<lparr>rp_name = unwrap_or name (default_name generated), rp_workflow = flow\<rparr>)"

section \<open>Subscriptions\<close>

type_synonym subscription_id = string
type_synonym listeners = "(subscription_id, cid \<times> string) index_map"

text \<open>What a subscription loop is woken up by, and what a sink does with a message.\<close>

datatype stream_item = SinkClosed | NextMessage ws_message | StreamError string | StreamEnd

datatype send_result = SendOk | SendClosed | SendFull

datatype loop_outcome = LoopOk | LoopErr string

record sink_host =
  sub_json :: "bytes \<Rightarrow> string + string"
  try_send :: "string list \<Rightarrow> send_result"

text \<open>
  The loops return what the client got, in order, the listeners that are left, and how they
  ended; \<open>None\<close> means that the loop still waits for the next item.
\<close>

fun event_subscription ::
  "sink_host \<Rightarrow> string \<Rightarrow> string list \<Rightarrow> stream_item list \<Rightarrow> string list \<times> loop_outcome option" where
  "event_subscription K ty got [] = (got, None)"
| "event_subscription K ty got (SinkClosed # items) = (got, Some LoopOk)"
| "event_subscription K ty got (StreamError e # items) = (got, Some (LoopErr e))"
| "event_subscription K ty got (StreamEnd # items) = (got, Some LoopOk)"
| "event_subscription K ty got (NextMessage m # items) =
     (if h_subscription (ws_header m) = EventSub ty
      then (case sub_json K (ws_payload m) of
              Err e \<Rightarrow> (got, Some (LoopErr e))
            | Ok sub_msg \<Rightarrow>
                (case try_send K (got @ [sub_msg]) of
                   SendOk \<Rightarrow> event_subscription K ty (got @ [sub_msg]) items
                 | SendClosed \<Rightarrow> (got, Some (LoopErr ''subscription sink closed''))
                 | SendFull \<Rightarrow> event_subscription K ty got items))
      else event_subscription K ty got items)"

definition listener_payload :: "listeners \<Rightarrow> subscription_id \<Rightarrow> ws_message \<Rightarrow> bytes option" where
  "listener_payload listeners sid m =
     (case h_subscription (ws_header m) of
        SubCid c \<Rightarrow>
          (case im_get listeners sid of
             Some (v_cid, v_name) \<Rightarrow>
               if v_cid = c \<and> (Some v_name = h_ident (ws_header m) \<or> h_ident (ws_header m) = None)
               then Some (ws_payload m) else None
           | None \<Rightarrow> None)
      | EventSub _ \<Rightarrow> None)"

fun workflow_subscription ::
  "sink_host \<Rightarrow> subscription_id \<Rightarrow> listeners \<Rightarrow> string list \<Rightarrow> stream_item list \<Rightarrow>
   string list \<times> listeners \<times> loop_outcome option" where
  "workflow_subscription K sid ls got [] = (got, ls, None)"
| "workflow_subscription K sid ls got (SinkClosed # items) = (got, hm_remove sid ls, Some LoopOk)"
| "workflow_subscription K sid ls got (StreamError e # items) = (got, hm_remove sid ls, Some (LoopErr e))"
| "workflow_subscription K sid ls got (StreamEnd # items) = (got, ls, Some LoopOk)"
| "workflow_subscription K sid ls got (NextMessage m # items) =
     (case listener_payload ls sid m of
        None \<Rightarrow> workflow_subscription K sid ls got items
      | Some msg \<Rightarrow>
          (case sub_json K msg of
             Err e \<Rightarrow> (got, ls, Some (LoopErr e))
           | Ok sub_msg \<Rightarrow>
               (case try_send K (got @ [sub_msg]) of
                  SendOk \<Rightarrow> workflow_subscription K sid ls (got @ [sub_msg]) items
                | SendClosed \<Rightarrow> (got, hm_remove sid ls, Some (LoopErr ''subscription sink closed''))
                | SendFull \<Rightarrow> workflow_subscription K sid ls got items)))"

text \<open>
  A request to run a workflow and subscribe to it: the runner is asked first, and the client is
  subscribed to what is broadcast after the acknowledgement has been received. Any other message
  of the runner, or none before the deadline, rejects the request as busy. \<open>sent\<close> is the result of
  asking the runner, \<open>accepted\<close> that of accepting the subscription.
\<close>

datatype run_subscription =
    Subscribed "string list" listeners "loop_outcome option"
  | RejectedRun error_object
  | RejectedParams "unit error"
  | RunSubscriptionFailed "unit error"
  | RunSubscriptionBroken string

definition subscribe_run_workflow ::
  "deps \<Rightarrow> wasm_deps \<Rightarrow> sink_host \<Rightarrow> subscription_id \<Rightarrow> listeners \<Rightarrow> unit error + run_params \<Rightarrow>
   string + unit \<Rightarrow> web_message option \<Rightarrow> string + unit \<Rightarrow> stream_item list \<Rightarrow> run_subscription" where
  "subscribe_run_workflow D W K sid ls params sent received accepted items =
     (case params of
        Err e \<Rightarrow> RejectedParams e
      | Ok req \<Rightarrow>
          (case (sent, received) of
             (Err e, _) \<Rightarrow> RunSubscriptionBroken e
           | (Ok _, Some (WebAckWorkflow c name)) \<Rightarrow>
               (case accepted of
                  Err e \<Rightarrow> RunSubscriptionBroken e
                | Ok _ \<Rightarrow>
                    (case workflow_subscription K sid (im_insert sid (c, name) ls) [] items of
                       (got, ls', res) \<Rightarrow> Subscribed got ls' res))
           | (Ok _, _) \<Rightarrow>
               (case workflow_to_cid D (arg_into D W) (rp_workflow req) of
                  Err e \<Rightarrow> RunSubscriptionFailed e
                | Ok c \<Rightarrow> RejectedRun (ServerIsBusy (''not able to run workflow '' @ cid_to_string D c)))))"

end
