(* ===== verification/Web_Correct.thy ===== *)
theory Web_Correct
  imports Webserver Net_Correct
begin

text \<open>
  Properties of the webserver: the port it chooses, and what subscribed clients receive.
\<close>

section \<open>The port\<close>

lemma find_upt:
  "find P (map f [a..<b]) =
     (if \<exists>i < b - a. P (f (a + i)) then Some (f (a + (LEAST i. P (f (a + i))))) else None)"
proof (induction "b - a" arbitrary: a)
  case 0
  then show ?case by simp
next
  case (Suc n)
  then have ab: "[a..<b] = a # [Suc a..<b]" and n: "n = b - Suc a" and ba: "b - a = Suc (b - Suc a)"
    by (simp_all add: upt_conv_Cons)
  show ?case
  proof (cases "P (f a)")
    case True
    then have "(LEAST i. P (f (a + i))) = 0" by (auto intro: Least_equality)
    then show ?thesis using True ba by (auto simp: ab)
  next
    case False
    have ex: "(\<exists>i < b - a. P (f (a + i))) \<longleftrightarrow> (\<exists>i < b - Suc a. P (f (Suc a + i)))"
      unfolding ba using False by (auto simp: Ex_less_Suc2)
    have least: "(LEAST i. P (f (a + i))) = Suc (LEAST i. P (f (Suc a + i)))"
      if "\<exists>i < b - Suc a. P (f (Suc a + i))"
    proof -
      from that obtain k where "P (f (a + Suc k))" by auto
      then show ?thesis using Least_Suc [of "\<lambda>i. P (f (a + i))" "Suc k"] False by simp
    qed
    show ?thesis
    proof (cases "\<exists>i < b - Suc a. P (f (Suc a + i))")
      case True
      with Suc(1) [OF n] ex least [OF True] False show ?thesis by (simp add: ab)
    next
      case none: False
      with Suc(1) [OF n] ex False show ?thesis by (auto simp: ab)
    qed
  qed
qed

lemma port_range_overflow:
  assumes "2 ^ 16 \<le> unat p + 1000"
  shows "port_range p (p + 1000) = []"
proof -
  have "unat (p + 1000) = (unat p + 1000) mod 2 ^ 16"
    by (simp add: unat_word_ariths)
  moreover have "unat p < 2 ^ 16" using unsigned_less [of p] by simp
  ultimately have "unat (p + 1000) \<le> unat p" using assms by (simp add: mod_if)
  then show ?thesis by (simp add: port_range_def)
qed

lemma find_port_range:
  assumes "unat p + 1000 < 2 ^ 16"
  shows "find P (port_range p (p + 1000)) =
    (if \<exists>i < 1000. P (p + of_nat i) then Some (p + of_nat (LEAST i. P (p + of_nat i))) else None)"
proof -
  have "unat (p + 1000) = unat p + 1000"
    using assms by (simp add: unat_word_ariths)
  then have "unat (p + 1000) - unat p = 1000" by simp
  then show ?thesis by (simp add: port_range_def find_upt)
qed

text \<open>
  C30. The webserver takes the configured port when it is free, and else the first free one of the
  following 999. The end of this range is computed with 16 bits: with a configured port of 64536
  or more the range is empty, and a busy port is an error even if the next one is free.
\<close>

theorem webserver_port:
  "find_port free host p =
     (if free host p then Ok p
      else if unat p < 64536 \<and> (\<exists>i < 1000. free host (p + of_nat i))
      then Ok (p + of_nat (LEAST i. free host (p + of_nat i)))
      else Err (Msg ''no free TCP ports available''))"
  by (cases "unat p + 1000 < 2 ^ 16")
    (auto simp: find_port_def find_port_range port_range_overflow)

section \<open>Subscriptions\<close>

text \<open>The messages of a stream that a client wants, as they are sent to it.\<close>

fun wanted :: "sink_host \<Rightarrow> (ws_message \<Rightarrow> bytes option) \<Rightarrow> stream_item \<Rightarrow> string list" where
  "wanted K wants (NextMessage m) =
     (case wants m of Some b \<Rightarrow> (case sub_json K b of Ok j \<Rightarrow> [j] | Err _ \<Rightarrow> []) | None \<Rightarrow> [])"
| "wanted K wants _ = []"

text \<open>
  What a sink takes of the messages it is offered one after the other: a full one drops a message, and
  a closed one takes no more.
\<close>

fun sink_takes :: "sink_host \<Rightarrow> string list \<Rightarrow> string list \<Rightarrow> string list" where
  "sink_takes K got [] = got"
| "sink_takes K got (j # js) =
     (case try_send K (got @ [j]) of
        SendOk \<Rightarrow> sink_takes K (got @ [j]) js
      | SendClosed \<Rightarrow> got
      | SendFull \<Rightarrow> sink_takes K got js)"

lemma sink_takes_all: "(\<And>ms. try_send K ms = SendOk) \<Longrightarrow> sink_takes K got js = got @ js"
  by (induction js arbitrary: got) simp_all

lemma sink_takes_subseq: "\<exists>d. sink_takes K got js = got @ d \<and> subseq d js"
proof (induction js arbitrary: got)
  case (Cons j js)
  from Cons [of got] Cons [of "got @ [j]"] show ?case
    by (cases "try_send K (got @ [j])") auto
qed simp

text \<open>What comes after the messages: nothing yet, or the item that ends the loop.\<close>

definition ends_loop :: "stream_item list \<Rightarrow> bool" where
  "ends_loop items \<longleftrightarrow> (case items of [] \<Rightarrow> True | NextMessage _ # _ \<Rightarrow> False | _ \<Rightarrow> True)"

text \<open>
  Both loops follow one scheme: they pass on the payloads they want, one by one, and differ in what
  they want and in how they end. The scheme determines what a client can get.
\<close>

locale subscription_loop =
  fixes K :: sink_host
    and wants :: "ws_message \<Rightarrow> bytes option"
    and deliver :: "string list \<Rightarrow> stream_item list \<Rightarrow> string list"
  assumes deliver_Nil: "deliver got [] = got"
    and deliver_end: "\<forall>m. item \<noteq> NextMessage m \<Longrightarrow> deliver got (item # items) = got"
    and deliver_skip: "wants m = None \<Longrightarrow> deliver got (NextMessage m # items) = deliver got items"
    and deliver_error:
      "wants m = Some b \<Longrightarrow> sub_json K b = Err e \<Longrightarrow> deliver got (NextMessage m # items) = got"
    and deliver_send:
      "wants m = Some b \<Longrightarrow> sub_json K b = Ok j \<Longrightarrow> deliver got (NextMessage m # items) =
         (case try_send K (got @ [j]) of
            SendOk \<Rightarrow> deliver (got @ [j]) items
          | SendClosed \<Rightarrow> got
          | SendFull \<Rightarrow> deliver got items)"
begin

lemma deliver_step:
  assumes "\<And>m b j. item = NextMessage m \<Longrightarrow> wants m = Some b \<Longrightarrow> sub_json K b \<noteq> Ok j"
  shows "wanted K wants item = [] \<and> deliver got (item # items) \<in> {got, deliver got items}"
proof (cases item)
  case (NextMessage m)
  show ?thesis
  proof (cases "wants m")
    case None
    then show ?thesis by (simp add: NextMessage deliver_skip)
  next
    case (Some b)
    with assms NextMessage obtain e where "sub_json K b = Err e" by (cases "sub_json K b") auto
    with Some show ?thesis by (simp add: NextMessage deliver_error)
  qed
qed (simp_all add: deliver_end)

lemma deliver_subseq: "\<exists>d. deliver got items = got @ d \<and> subseq d (concat (map (wanted K wants) items))"
proof (induction items arbitrary: got)
  case (Cons item items)
  show ?case
  proof (cases "\<exists>m b j. item = NextMessage m \<and> wants m = Some b \<and> sub_json K b = Ok j")
    case True
    then obtain m b j where item: "item = NextMessage m" "wants m = Some b" "sub_json K b = Ok j" by blast
    from Cons [of got] Cons [of "got @ [j]"] show ?thesis
      by (cases "try_send K (got @ [j])") (auto simp: item deliver_send [OF item(2,3)] intro: list_emb_append2)
  next
    case False
    then have "wanted K wants item = [] \<and> deliver got (item # items) \<in> {got, deliver got items}"
      by (intro deliver_step) blast
    with Cons [of got] show ?thesis by auto
  qed
qed (simp add: deliver_Nil)

lemma deliver_stream:
  assumes "\<And>b. sub_json K b = Ok (j b)" and "ends_loop rest"
  shows "deliver got (map NextMessage ms @ rest) = sink_takes K got (concat (map (wanted K wants) (map NextMessage ms)))"
proof (induction ms arbitrary: got)
  case Nil
  show ?case
    using assms(2) by (cases rest) (auto simp: ends_loop_def deliver_Nil deliver_end split: stream_item.splits)
next
  case (Cons m ms)
  then show ?case
    by (cases "wants m")
      (simp_all add: deliver_skip deliver_send [OF _ assms(1)] assms(1) split: send_result.splits)
qed

end

definition event_payload :: "string \<Rightarrow> ws_message \<Rightarrow> bytes option" where
  "event_payload ty m = (if h_subscription (ws_header m) = EventSub ty then Some (ws_payload m) else None)"

interpretation event_loop: subscription_loop K "event_payload ty" "\<lambda>got items. fst (event_subscription K ty got items)"
  for K ty
proof (unfold_locales, goal_cases)
  case (2 item got items)
  then show ?case by (cases item) simp_all
qed (auto simp: event_payload_def split: if_splits send_result.splits)

interpretation workflow_loop: subscription_loop K "listener_payload ls sid"
    "\<lambda>got items. fst (workflow_subscription K sid ls got items)"
  for K sid ls
proof (unfold_locales, goal_cases)
  case (2 item got items)
  then show ?case by (cases item) simp_all
qed (auto split: send_result.splits)

text \<open>What the client is sent for a receipt of a run.\<close>

definition receipt_json :: "deps \<Rightarrow> (bytes \<Rightarrow> string) \<Rightarrow> rt_receipt \<Rightarrow> info \<Rightarrow> string \<Rightarrow> string list" where
  "receipt_json D j r i n =
     (case to_json D id (receipt_notification_with D (to_invocation_receipt r) (ptr_cid (r_cid r))
             (Some (additional_meta False i n))) of
        Ok b \<Rightarrow> [j b]
      | Err _ \<Rightarrow> [])"

lemma wanted_receipt:
  assumes "net_ok N" and "\<And>b. sub_json K b = Ok (j b)"
  shows "concat (map (wanted K (listener_payload (im_insert sid (c, name) ls) sid))
      (map NextMessage (emit_receipt D N r (Some (additional_meta False i n))))) =
    (if i_cid i = c \<and> n = name then receipt_json D j r i n else [])"
  using assms
  by (auto simp: emit_receipt_def receipt_json_def additional_meta_def net_ok_def bt_get_from listener_payload_def
      REPLAYED_KEY_def WORKFLOW_KEY_def WORKFLOW_NAME_KEY_def map_laws Let_def split: sum.splits)

text \<open>The events a worker sends for its receipts, and what the handler broadcasts for them.\<close>

definition capture_of :: "rt_receipt \<times> info \<times> string \<Rightarrow> captured" where
  "capture_of x = (case x of (r, i, n) \<Rightarrow>
     \<lparr>cap_receipt = ptr_cid (r_cid r), cap_workflow = i, cap_metadata = Some (additional_meta False i n)\<rparr>)"

lemma workflow_frames [simp]:
  "h_ws_workflow (notify D N ty data h) = h_ws_workflow h" "h_db (notify D N ty data h) = h_db h"
  "h_ws_workflow (publish_receipt D N X r h) = h_ws_workflow h" "h_db (publish_receipt D N X r h) = h_db h"
  "h_ws_workflow (put_record D N X k v q key ty d h) = h_ws_workflow h" "h_db (put_record D N X k v q key ty d h) = h_db h"
  by (auto simp: notify_def publish_receipt_def put_record_def h_call_def Let_def split: sum.splits prod.splits)

lemma handle_captured:
  assumes "\<And>cs. pool_get X cs = Ok ()" and "find_receipt_by_cid (ptr_cid (r_cid r)) (h_db h) = Ok r"
  shows "h_ws_workflow (handle_event D N X (CapturedReceipt (capture_of (r, i, n))) h) =
      h_ws_workflow h @ emit_receipt D N r (Some (additional_meta False i n))"
    and "h_db (handle_event D N X (CapturedReceipt (capture_of (r, i, n))) h) = h_db h"
  using assms
  by (auto simp: handle_event_def publish_and_notify_def db_conn_def capture_of_def Let_def split: sum.splits)

lemma handle_captures:
  assumes "\<And>cs. pool_get X cs = Ok ()"
    and "\<forall>(r, i, n) \<in> set xs. find_receipt_by_cid (ptr_cid (r_cid r)) (h_db h) = Ok r"
  shows "h_ws_workflow (fold (\<lambda>x. handle_event D N X (CapturedReceipt (capture_of x))) xs h) =
    h_ws_workflow h @ concat (map (\<lambda>(r, i, n). emit_receipt D N r (Some (additional_meta False i n))) xs)"
  using assms(2)
proof (induction xs arbitrary: h)
  case (Cons x xs)
  obtain r i n where "x = (r, i, n)" by (cases x)
  with Cons show ?case by (auto simp: handle_captured [OF assms(1)])
qed simp

text \<open>The notifications for the receipts that are handled, of those that belong to the run.\<close>

definition notifications ::
  "deps \<Rightarrow> (bytes \<Rightarrow> string) \<Rightarrow> cid \<Rightarrow> string \<Rightarrow> (rt_receipt \<times> info \<times> string) list \<Rightarrow> string list" where
  "notifications D j c name xs =
     concat (map (\<lambda>(r, i, n). if i_cid i = c \<and> n = name then receipt_json D j r i n else []) xs)"

lemma client_gets:
  assumes "net_ok N" and "\<And>cs. pool_get X cs = Ok ()"
    and "\<forall>(r, i, n) \<in> set xs. find_receipt_by_cid (ptr_cid (r_cid r)) (h_db h) = Ok r"
    and "\<And>b. sub_json K b = Ok (j b)" and "ends_loop rest"
    and "h' = fold (\<lambda>x. handle_event D N X (CapturedReceipt (capture_of x))) xs h"
  shows "\<exists>ls' res. subscribe_run_workflow D' W K sid ls (Ok req) (Ok ()) (Some (WebAckWorkflow c name)) (Ok ())
      (map NextMessage (drop (length (h_ws_workflow h)) (h_ws_workflow h')) @ rest) =
    Subscribed (sink_takes K [] (notifications D j c name xs)) ls' res"
proof -
  let ?ms = "concat (map (\<lambda>(r, i, n). emit_receipt D N r (Some (additional_meta False i n))) xs)"
  let ?ls = "im_insert sid (c, name) ls"
  have "concat (map (wanted K (listener_payload ?ls sid)) (map NextMessage ?ms)) = notifications D j c name xs"
    unfolding notifications_def by (induction xs) (auto simp: wanted_receipt [OF assms(1,4), simplified])
  then have "fst (workflow_subscription K sid ?ls [] (map NextMessage ?ms @ rest)) =
      sink_takes K [] (notifications D j c name xs)"
    using workflow_loop.deliver_stream [where K = K and sid = sid and ls = ?ls, OF assms(4,5), of "[]" ?ms] by simp
  moreover have "drop (length (h_ws_workflow h)) (h_ws_workflow h') = ?ms"
    using handle_captures [OF assms(2,3)] by (simp add: assms(6))
  ultimately show ?thesis
    by (cases "workflow_subscription K sid ?ls [] (map NextMessage ?ms @ rest)") (simp add: subscribe_run_workflow_def)
qed

text \<open>
  C18. A client that started a run and is subscribed to it is sent the receipts of this run, and
  nothing else. For the receipts the event handler handles after the subscription, until the
  stream ends or lags: the notifications of those of the acknowledged workflow and name, and none of
  other runs, are offered to the client's sink in order, and the client gets those the sink takes,
  which are all of them when the sink is never full or closed. Whatever else a stream holds, a
  client gets, in order, only messages for the CID and the name it was acknowledged; likewise a
  client that is subscribed to events gets only messages of the type it subscribed to.
\<close>

theorem client_notified:
  assumes "net_ok N" and "\<And>cs. pool_get X cs = Ok ()"
    and "\<forall>(r, i, n) \<in> set xs. find_receipt_by_cid (ptr_cid (r_cid r)) (h_db h) = Ok r"
    and "\<And>b. sub_json K b = Ok (j b)" and "ends_loop rest"
    and "h' = fold (\<lambda>x. handle_event D N X (CapturedReceipt (capture_of x))) xs h"
  shows "(\<exists>got ls' res.
      subscribe_run_workflow D W K sid ls (Ok req) (Ok ()) (Some (WebAckWorkflow c name)) (Ok ())
        (map NextMessage (drop (length (h_ws_workflow h)) (h_ws_workflow h')) @ rest) = Subscribed got ls' res \<and>
      got = sink_takes K [] (notifications D j c name xs) \<and>
      ((\<forall>ms. try_send K ms = SendOk) \<longrightarrow> got = notifications D j c name xs)) \<and>
    subseq (fst (workflow_subscription K' sid ls' [] items)) (concat (map (wanted K' (listener_payload ls' sid)) items)) \<and>
    subseq (fst (event_subscription K' ty [] items)) (concat (map (wanted K' (event_payload ty)) items))"
  using client_gets [OF assms] sink_takes_all [of K "[]"] workflow_loop.deliver_subseq [of K' sid ls' "[]" items]
    event_loop.deliver_subseq [of K' ty "[]" items] by fastforce

definition notice_ipld :: ipld where
  "notice_ipld = receipt_notification_with (ex_deps []) (to_invocation_receipt (run_stored 0)) (nth_cid 2)
     (Some (additional_meta False run_info ''run''))"

definition web_sink :: sink_host where
  "web_sink = \<lparr>sub_json = (\<lambda>b. Ok (replicate (length b) CHR ''x'')), try_send = (\<lambda>_. SendOk)\<rparr>"

lemma notice_json:
  "receipt_json (ex_deps [INull, notice_ipld]) (\<lambda>b. replicate (length b) CHR ''x'') (run_stored 0) run_info ''run'' = [''x'']"
proof -
  have "receipt_notification_with (ex_deps [INull, notice_ipld]) (to_invocation_receipt (run_stored 0)) (nth_cid 2)
      (Some (additional_meta False run_info ''run'')) = notice_ipld"
    by (simp add: notice_ipld_def receipt_notification_with_def receipt_into_def issuer_to_string_def run_stored_def
        to_invocation_receipt_def rt_receipt_new_def run_receipt_def)
  moreover have "notice_ipld \<noteq> INull" by (simp add: notice_ipld_def receipt_notification_with_def)
  ultimately show ?thesis
    by (simp add: receipt_json_def to_json_def ex_deps_def table_encode_def)
qed


definition web_handler :: handler where
  "web_handler = ex_handler (run_db\<lparr>t_receipts := [run_stored 0]\<rparr>)"

definition web_deps :: deps where
  "web_deps = ex_deps [INull, notice_ipld]"

definition web_captures :: "(rt_receipt \<times> info \<times> string) list" where
  "web_captures = [(run_stored 0, run_info, ''run''), (run_stored 0, run_info, ''other''), (run_stored 0, run_info, ''run'')]"

lemma web_stored: "find_receipt_by_cid (ptr_cid (r_cid (run_stored 0))) (h_db web_handler) = Ok (run_stored 0)"
  by (simp add: find_receipt_by_cid_def first_row_def web_handler_def ex_handler_defs)

text \<open>A sink that takes one message, and is full from then on.\<close>

definition small_sink :: sink_host where
  "small_sink = web_sink\<lparr>try_send := (\<lambda>ms. if length ms \<le> 1 then SendOk else SendFull)\<rparr>"

theorem client_notified_witness:
  "\<exists>ls' res. subscribe_run_workflow web_deps ex_wasm small_sink ''s'' [] (Ok \<lparr>rp_name = ''run'', rp_workflow = ex_flow\<rparr>)
      (Ok ()) (Some (WebAckWorkflow (nth_cid 20) ''run'')) (Ok ())
      (map NextMessage (h_ws_workflow
        (fold (\<lambda>x. handle_event web_deps run_net ex_net (CapturedReceipt (capture_of x))) web_captures web_handler)) @ [StreamEnd]) =
    Subscribed [''x''] ls' res"
proof -
  have h: "h_ws_workflow web_handler = []" by (simp add: web_handler_def ex_handler_defs)
  have pool: "pool_get ex_net cs = Ok ()" for cs by (simp add: ex_net_def)
  have stored: "\<forall>(r, i, n) \<in> set web_captures. find_receipt_by_cid (ptr_cid (r_cid r)) (h_db web_handler) = Ok r"
    using web_stored by (simp add: web_captures_def)
  have sink: "sub_json small_sink b = Ok (replicate (length b) CHR ''x'')" for b
    by (simp add: small_sink_def web_sink_def)
  have rest: "ends_loop [StreamEnd]" by (simp add: ends_loop_def)
  have "notifications web_deps (\<lambda>b. replicate (length b) CHR ''x'') (nth_cid 20) ''run'' web_captures = [''x'', ''x'']"
    by (simp add: notifications_def web_captures_def notice_json [folded web_deps_def])
  then have "sink_takes small_sink [] (notifications web_deps (\<lambda>b. replicate (length b) CHR ''x'') (nth_cid 20) ''run'' web_captures) = [''x'']"
    by (simp add: small_sink_def)
  with client_notified [THEN conjunct1, OF run_net_ok pool stored sink rest refl,
      of web_deps ex_wasm "''s''" "[]" "\<lparr>rp_name = ''run'', rp_workflow = ex_flow\<rparr>" "nth_cid 20" "''run''"] h
  show ?thesis by auto
qed

end
