(* ===== verification/Runner.thy ===== *)
theory Runner
  imports Webserver
begin

text \<open>
  The runner (\<open>runner.rs\<close>, \<open>runner/file.rs\<close>, \<open>runner/response.rs\<close>) with the server for the command
  line (\<open>network/rpc.rs\<close>): the workers that are running, their tasks and their deadlines, and what
  the loop of \<open>Runner::serve\<close> does for each message. A join handle and a key of the delay queue
  are numbers, counted up; aborting a handle adds it to a list. A spawned worker runs as in theory
  \<open>Worker\<close>.
\<close>

section \<open>Workflow files\<close>

type_synonym read_workflow = string

text \<open>The file system, and the text of values.\<close>

record file_host =
  file_extension :: "string \<Rightarrow> string option"
  read_file :: "string \<Rightarrow> string + string"
  show_path :: "string \<Rightarrow> string"

definition validate_and_parse ::
  "deps \<Rightarrow> file_host \<Rightarrow> read_workflow \<Rightarrow> runner_error + (arg workflow \<times> workflow_settings)" where
  "validate_and_parse D F file =
     (if file_extension F file = None \<or> file_extension F file = Some ''json''
      then
        and_then (map_err RunnerIo (read_file F file)) (\<lambda>data.
        and_then (map_err (\<lambda>e. RunnerRuntime (FromWorkflow e))
            (from_json_string D (workflow_try_from D arg_from) data)) (\<lambda>flow.
        Ok (flow, workflow_settings_default)))
      else Err (UnsupportedWorkflow (unwrap_or (file_extension F file) [])))"

section \<open>Acknowledgements\<close>

type_synonym workflow_receipt_info = "cid \<times> (string \<times> pointer) option"

record ack_workflow =
  ack_cid :: cid
  ack_name :: string
  ack_num_tasks :: u32
  ack_progress_count :: u32
  ack_resources :: indexed_resources
  ack_replayed :: "workflow_receipt_info list"
  ack_timestamp :: string

definition ack_new ::
  "(timestamp \<Rightarrow> string) \<Rightarrow> info \<Rightarrow> workflow_receipt_info list \<Rightarrow> string \<Rightarrow> timestamp \<Rightarrow> ack_workflow" where
  "ack_new format_time i replayed name t =
     \<lparr>ack_cid = i_cid i, ack_name = name, ack_num_tasks = i_num_tasks i,
      ack_progress_count = i_progress_count i, ack_resources = i_resources i, ack_replayed = replayed,
      ack_timestamp = format_time t\<rparr>"

text \<open>The rows of the table of replayed receipts that is shown to the user.\<close>

definition receipt_rows :: "deps \<Rightarrow> ack_workflow \<Rightarrow> string list list" where
  "receipt_rows D a =
     (let rows = List.map_filter (\<lambda>(c, inf).
          map_option (\<lambda>(ran, ins). [cid_to_string D c, ran, cid_to_string D (ptr_cid ins)]) inf) (ack_replayed a)
      in [''Replayed Receipt'', ''Invocation Ran'', ''Instruction''] #
         (if rows = [] then [[''<none>'', [], []]] else rows))"

definition find_receipt_info_by_pointers ::
  "deps \<Rightarrow> string + unit \<Rightarrow> pointer list \<Rightarrow> database \<Rightarrow> anyhow + workflow_receipt_info list" where
  "find_receipt_info_by_pointers D conn pointers db =
     and_then (map_err Msg conn) (\<lambda>_.
     and_then (map_err (\<lambda>_. Msg ''database error'') (find_receipt_pointers pointers db)) (\<lambda>found.
     (let receipts = fold (\<lambda>r. im_insert (ptr_cid (r_cid r)) r) found [] in
      Ok (map (\<lambda>p. case im_get receipts (ptr_cid p) of
                 Some r \<Rightarrow> (ptr_cid p, Some (cid_to_string D (ptr_cid (r_ran r)), r_instruction r))
               | None \<Rightarrow> (ptr_cid p, None)) pointers))))"

section \<open>The server for the command line\<close>

datatype server_message =
    ShutdownCmd
  | GracefulShutdown sender
  | RunFile "string option" read_workflow
  | RunAck ack_workflow
  | RunErr runner_error
  | SkipMessage

datatype rpc_error =
    FailureToSendOnChannel string
  | FailureToReceiveOnChannel string
  | FromRunner string

text \<open>
  The methods: what is sent to the runner, with the sender for the answer, and the result.
  \<open>sent\<close> is the result of the send, \<open>received\<close> the answer, if there is one before the timeout.
\<close>

definition rpc_run_message :: "string option \<Rightarrow> read_workflow \<Rightarrow> sender \<Rightarrow> server_message \<times> sender option" where
  "rpc_run_message name file tx = (RunFile name file, Some tx)"

definition rpc_run ::
  "(runner_error \<Rightarrow> string) \<Rightarrow> (duration \<Rightarrow> string) \<Rightarrow> duration \<Rightarrow> string + unit \<Rightarrow> server_message option \<Rightarrow>
   rpc_error + ack_workflow" where
  "rpc_run show_error show_millis timeout sent received =
     and_then (map_err FailureToSendOnChannel sent) (\<lambda>_.
     case received of
       Some (RunAck response) \<Rightarrow> Ok response
     | Some (RunErr e) \<Rightarrow> Err (FromRunner (show_error e))
     | Some _ \<Rightarrow> Err (FailureToSendOnChannel ''unexpected message'')
     | None \<Rightarrow> Err (FailureToReceiveOnChannel (''server timeout of '' @ show_millis timeout @ '' ms reached'')))"

definition rpc_ping :: string where "rpc_ping = ''pong''"

definition rpc_stop_message :: "server_message \<times> sender option" where
  "rpc_stop_message = (ShutdownCmd, None)"

definition rpc_stop :: "string + unit \<Rightarrow> rpc_error + unit" where
  "rpc_stop sent = map_err FailureToSendOnChannel sent"

section \<open>State\<close>

record runner =
  rn_events :: "event list"
  rn_expiration :: "(nat, cid \<times> duration) index_map"
  rn_node_info :: static_node_info
  rn_running_tasks :: "(cid, nat list) index_map"
  rn_running_workers :: "(cid, nat \<times> nat) index_map"
  rn_settings :: node_settings
  rn_db :: database
  rn_spawned :: "worker list"
  rn_next_key :: nat
  rn_aborted :: "nat list"
  rn_aborted_tasks :: "nat list"
  rn_dropped :: "cid list"
  rn_rpc_out :: "server_message list"
  rn_replies :: "(sender \<times> server_message) list"
  rn_web_replies :: "(sender \<times> web_message) list"
  rn_web_stopped :: bool

text \<open>What the runner takes from its surroundings.\<close>

record runner_host =
  rh_deps :: deps
  rh_wasm :: wasm_deps
  rh_schedule :: "dag \<Rightarrow> string + node list list"
  rh_files :: file_host
  rh_conn :: "string + unit"
  rh_event_send :: "string + unit"
  rh_ipfs_new :: "ipfs_settings \<Rightarrow> string + unit"
  rh_format_time :: "timestamp \<Rightarrow> string"

definition runner_init ::
  "key_deps \<Rightarrow> swarm_host \<Rightarrow> (string \<Rightarrow> string + string) \<Rightarrow> (string \<Rightarrow> u16 \<Rightarrow> bool) \<Rightarrow>
   (ipfs_settings \<Rightarrow> string + unit) \<Rightarrow> node_settings \<Rightarrow> database \<Rightarrow> anyhow + runner \<times> handler \<times> server" where
  "runner_init K X ip_from_str port_available ipfs_new settings db =
     and_then (swarm_new K X (nd_network settings)) (\<lambda>sw.
     and_then (server_new ip_from_str port_available (nw_webserver (nd_network settings))) (\<lambda>webserver.
     and_then (map_err Msg (ipfs_new (nw_ipfs (nd_network settings)))) (\<lambda>_.
     Ok (\<lparr>rn_events = [], rn_expiration = [], rn_node_info = \<lparr>sni_peer_id = local_peer_id X\<rparr>,
          rn_running_tasks = [], rn_running_workers = [], rn_settings = settings, rn_db = db,
          rn_spawned = [], rn_next_key = 0, rn_aborted = [], rn_aborted_tasks = [], rn_dropped = [],
          rn_rpc_out = [], rn_replies = [], rn_web_replies = [], rn_web_stopped = False\<rparr>,
         handler_new sw db (nd_network settings), webserver))))"

section \<open>Workers and tasks\<close>

definition gc :: "(nat \<Rightarrow> bool) \<Rightarrow> (nat \<Rightarrow> bool) \<Rightarrow> runner \<Rightarrow> runner" where
  "gc worker_finished task_finished r =
     r\<lparr>rn_running_tasks :=
         filter (\<lambda>(c, hs). hs \<noteq> [])
           (map (\<lambda>(c, hs). (c, filter (\<lambda>h. \<not> task_finished h) hs)) (rn_running_tasks r)),
       rn_expiration :=
         fold (\<lambda>(c, h, key) q. if worker_finished h then hm_remove key q else q)
           (rn_running_workers r) (rn_expiration r),
       rn_running_workers := filter (\<lambda>(c, h, key). \<not> worker_finished h) (rn_running_workers r)\<rparr>"

definition abort_tasks :: "runner \<Rightarrow> runner" where
  "abort_tasks r = r\<lparr>rn_aborted_tasks := rn_aborted_tasks r @ concat (map snd (rn_running_tasks r))\<rparr>"

definition abort_workers :: "runner \<Rightarrow> runner" where
  "abort_workers r =
     abort_tasks (r\<lparr>rn_aborted := rn_aborted r @ map (\<lambda>(c, h, key). h) (rn_running_workers r)\<rparr>)"

definition cleanup_tasks :: "runner \<Rightarrow> runner" where
  "cleanup_tasks r = r\<lparr>rn_running_tasks := []\<rparr>"

definition cleanup_workers :: "runner \<Rightarrow> runner" where
  "cleanup_workers r = cleanup_tasks (r\<lparr>rn_running_workers := [], rn_expiration := []\<rparr>)"

definition abort_and_cleanup_workers :: "runner \<Rightarrow> runner" where
  "abort_and_cleanup_workers r = cleanup_workers (abort_workers r)"

definition abort_worker_tasks :: "cid \<Rightarrow> runner \<Rightarrow> runner" where
  "abort_worker_tasks c r =
     (case im_get (rn_running_tasks r) c of
        Some handles \<Rightarrow>
          r\<lparr>rn_running_tasks := hm_remove c (rn_running_tasks r),
            rn_aborted_tasks := rn_aborted_tasks r @ handles\<rparr>
      | None \<Rightarrow> r)"

definition abort_worker :: "cid \<Rightarrow> runner \<Rightarrow> runner" where
  "abort_worker c r =
     (case im_get (rn_running_workers r) c of
        Some (h, delay_key) \<Rightarrow>
          abort_worker_tasks c
            (r\<lparr>rn_running_workers := hm_remove c (rn_running_workers r),
               rn_expiration := hm_remove delay_key (rn_expiration r),
               rn_aborted := rn_aborted r @ [h]\<rparr>)
      | None \<Rightarrow> r)"

text \<open>
  Dropping a worker: a \<open>try_send\<close> on the channel to the runner, whose capacity is the length of
  the event buffer. It is lost when the channel is full.
\<close>

definition worker_drop :: "worker \<Rightarrow> runner \<Rightarrow> runner" where
  "worker_drop w r =
     (if length (rn_dropped r) < unat (nw_events_buffer_len (nd_network (rn_settings r)))
      then r\<lparr>rn_dropped := rn_dropped r @ [i_cid (wk_info w)]\<rparr> else r)"

section \<open>Running a workflow\<close>

record workflow_data =
  wd_info :: info
  wd_name :: string
  wd_timestamp :: timestamp
  wd_replayed :: "workflow_receipt_info list"

text \<open>
  \<open>Runner::run_worker\<close>. The worker is dropped when the event handler or the client of IPFS is not
  available; an error of the last query is returned with the worker already running.
\<close>

definition spawn_worker :: "worker \<Rightarrow> duration \<Rightarrow> runner \<Rightarrow> runner" where
  "spawn_worker w timeout r =
     (let c = i_cid (wk_info w) in
      r\<lparr>rn_spawned := rn_spawned r @ [w],
        rn_expiration := im_insert (rn_next_key r) (c, timeout) (rn_expiration r),
        rn_next_key := Suc (rn_next_key r),
        rn_running_workers := im_insert c (length (rn_spawned r), rn_next_key r) (rn_running_workers r)\<rparr>)"

definition run_worker ::
  "runner_host \<Rightarrow> arg workflow \<Rightarrow> workflow_settings \<Rightarrow> string option \<Rightarrow> timestamp \<Rightarrow> runner \<Rightarrow>
   (anyhow + workflow_data) \<times> runner" where
  "run_worker R flow settings name now r =
     (case worker_new (rh_deps R) (rh_wasm R) (rh_schedule R) flow name now (rn_db r) of
        (Err e, db) \<Rightarrow> (Err e, r\<lparr>rn_db := db\<rparr>)
      | (Ok w, db) \<Rightarrow>
          (let r1 = r\<lparr>rn_db := db\<rparr>; c = i_cid (wk_info w) in
           case rh_event_send R of
             Err e \<Rightarrow> (Err (Msg e), worker_drop w r1)
           | Ok _ \<Rightarrow>
               (let r2 = r1\<lparr>rn_events := rn_events r1 @ [ProvideRecord c None CapsuleWorkflow]\<rparr> in
                case rh_ipfs_new R (nw_ipfs (nd_network (rn_settings r))) of
                  Err e \<Rightarrow> (Err (Msg e), worker_drop w r2)
                | Ok _ \<Rightarrow>
                    (let r3 = spawn_worker w (wfs_timeout settings) r2 in
                     case find_receipt_info_by_pointers (rh_deps R) (rh_conn R)
                            (map Pointer (i_progress (wk_info w))) (rn_db r3) of
                       Err e \<Rightarrow> (Err e, r3)
                     | Ok replayed \<Rightarrow>
                         (Ok \<lparr>wd_info = wk_info w, wd_name = wk_name w, wd_timestamp = wk_started w,
                              wd_replayed = replayed\<rparr>, r3)))))"

section \<open>Shutting down\<close>

text \<open>
  The stages of \<open>Runner::shutdown\<close>. Each waits for something, and the drain timeout ends the
  sequence after any of them: \<open>n\<close> is the number of stages that are reached.
\<close>

definition shutdown_stages :: "sender \<Rightarrow> sender \<Rightarrow> (runner \<Rightarrow> runner) list" where
  "shutdown_stages tx tx' =
     [\<lambda>r. r\<lparr>rn_rpc_out := rn_rpc_out r @ [GracefulShutdown tx]\<rparr>,
      \<lambda>r. r\<lparr>rn_web_stopped := True\<rparr>,
      \<lambda>r. r\<lparr>rn_events := rn_events r @ [Shutdown tx']\<rparr>,
      abort_workers]"

definition shutdown :: "nat \<Rightarrow> sender \<Rightarrow> sender \<Rightarrow> runner \<Rightarrow> runner" where
  "shutdown n tx tx' r = fold (\<lambda>f. f) (take n (shutdown_stages tx tx')) r"

section \<open>Messages\<close>

datatype control_flow = Break | Continue server_message

text \<open>What a message is handled with: the time, how far a shutdown gets, and new channels.\<close>

record moment =
  mo_now :: timestamp
  mo_stages :: nat
  mo_tx :: sender
  mo_tx2 :: sender
  mo_node_info :: "dynamic_node_info option"

definition handle_command_message ::
  "runner_host \<Rightarrow> moment \<Rightarrow> server_message \<Rightarrow> runner \<Rightarrow> (anyhow + control_flow) \<times> runner" where
  "handle_command_message R t msg r =
     (case msg of
        ShutdownCmd \<Rightarrow> (Ok Break, shutdown (mo_stages t) (mo_tx t) (mo_tx2 t) r)
      | RunFile name file \<Rightarrow>
          (case validate_and_parse (rh_deps R) (rh_files R) file of
             Err _ \<Rightarrow>
               (Err (Msg (''failed to validate/parse workflow @ path: '' @ show_path (rh_files R) file)), r)
           | Ok (flow, settings) \<Rightarrow>
               (case run_worker R flow settings name (mo_now t) r of
                  (Err e, r') \<Rightarrow> (Err e, r')
                | (Ok data, r') \<Rightarrow>
                    (Ok (Continue (RunAck (ack_new (rh_format_time R) (wd_info data) (wd_replayed data)
                       (wd_name data) (wd_timestamp data)))), r')))
      | _ \<Rightarrow> (Ok (Continue SkipMessage), r))"

definition reply_rpc :: "sender \<Rightarrow> server_message \<Rightarrow> runner \<Rightarrow> runner" where
  "reply_rpc tx m r = r\<lparr>rn_replies := rn_replies r @ [(tx, m)]\<rparr>"

definition reply_web :: "sender \<Rightarrow> web_message \<Rightarrow> runner \<Rightarrow> runner" where
  "reply_web tx m r = r\<lparr>rn_web_replies := rn_web_replies r @ [(tx, m)]\<rparr>"

text \<open>
  The branches of the loop; the first component says whether the loop is left. A message of the
  RPC server without a sender does not match the pattern of its branch and is lost.
\<close>

definition serve_rpc ::
  "runner_host \<Rightarrow> moment \<Rightarrow> server_message \<times> sender option \<Rightarrow> runner \<Rightarrow> bool \<times> runner" where
  "serve_rpc R t msg r =
     (case msg of
        (m, Some oneshot_tx) \<Rightarrow>
          (case handle_command_message R t m r of
             (Ok Break, r') \<Rightarrow> (True, r')
           | (Ok (Continue (RunAck a)), r') \<Rightarrow> (False, reply_rpc oneshot_tx (RunAck a) r')
           | (Err e, r') \<Rightarrow> (False, reply_rpc oneshot_tx (RunErr (RunnerRuntime e)) r')
           | (Ok (Continue _), r') \<Rightarrow> (False, r'))
      | (_, None) \<Rightarrow> (False, r))"

definition serve_web ::
  "runner_host \<Rightarrow> moment \<Rightarrow> web_message \<times> sender option \<Rightarrow> runner \<Rightarrow> runner" where
  "serve_web R t msg r =
     (case msg of
        (WebRunWorkflow name flow, Some oneshot_tx) \<Rightarrow>
          (case run_worker R flow workflow_settings_default (Some name) (mo_now t) r of
             (Ok data, r') \<Rightarrow> reply_web oneshot_tx (WebAckWorkflow (i_cid (wd_info data)) (wd_name data)) r'
           | (Err e, r') \<Rightarrow> reply_web oneshot_tx (WebRunErr (RunnerRuntime e)) r')
      | (WebGetNodeInfo, Some oneshot_tx) \<Rightarrow>
          reply_web oneshot_tx
            (WebAckNodeInfo (rn_node_info r)
               (unwrap_or (mo_node_info t) \<lparr>ni_listeners = [], ni_connections = []\<rparr>))
            (r\<lparr>rn_events := rn_events r @ [GetNodeInfo (mo_tx t)]\<rparr>)
      | _ \<Rightarrow> r)"

section \<open>The loop\<close>

text \<open>
  The inputs of the loop of \<open>Runner::serve\<close>, and what happens beside it: a worker is dropped,
  at its end or when it is aborted, and a worker adds tasks to the set of running tasks.
\<close>

datatype runner_input =
    FromRpc moment "server_message \<times> sender option"
  | FromWeb moment "web_message \<times> sender option"
  | FromWorker cid
  | GcTick "nat \<Rightarrow> bool" "nat \<Rightarrow> bool"
  | DeadlineExpires nat
  | ShutdownSignal moment
  | WorkerDrops nat
  | TasksSpawned cid "nat list"

inductive rstep :: "runner_host \<Rightarrow> runner_input \<Rightarrow> runner \<Rightarrow> bool \<times> runner \<Rightarrow> bool"
  for R :: runner_host where
  rs_rpc: "rstep R (FromRpc t m) r (serve_rpc R t m r)"
| rs_web: "rstep R (FromWeb t m) r (False, serve_web R t m r)"
| rs_worker: "rn_dropped r = c # cs \<Longrightarrow> rstep R (FromWorker c) r (False, abort_worker c (r\<lparr>rn_dropped := cs\<rparr>))"
| rs_gc: "rstep R (GcTick f g) r (False, gc f g r)"
| rs_expired:
    "im_get (rn_expiration r) k = Some (c, d) \<Longrightarrow>
     rstep R (DeadlineExpires k) r (False, abort_worker c (r\<lparr>rn_expiration := hm_remove k (rn_expiration r)\<rparr>))"
| rs_signal: "rstep R (ShutdownSignal t) r (True, shutdown (mo_stages t) (mo_tx t) (mo_tx2 t) r)"
| rs_drop: "h < length (rn_spawned r) \<Longrightarrow> rstep R (WorkerDrops h) r (False, worker_drop (rn_spawned r ! h) r)"
| rs_tasks: "rstep R (TasksSpawned c hs) r (False, r\<lparr>rn_running_tasks := append_or_insert c hs (rn_running_tasks r)\<rparr>)"

inductive rsteps :: "runner_host \<Rightarrow> runner_input list \<Rightarrow> runner \<Rightarrow> bool \<times> runner \<Rightarrow> bool" for R :: runner_host where
  rs_none: "rsteps R [] r (False, r)"
| rs_more: "rsteps R is r (False, r') \<Longrightarrow> rstep R i r' x \<Longrightarrow> rsteps R (is @ [i]) r x"

inductive_cases rstep_cases: "rstep R i r x"

end
