(* ===== verification/Runner_Laws.thy ===== *)
theory Runner_Laws
  imports Runner Handler_Laws
begin

text \<open>
  The invariant of the runner and what each of its operations does to the sets of running
  workers and tasks: the lemmas on which its properties rest.
\<close>

section \<open>Maps\<close>

lemma im_get_set: "im_inv m \<Longrightarrow> im_get m k = Some v \<longleftrightarrow> (k, v) \<in> set m"
  by (induction m) (auto simp: im_inv_def image_iff)

lemma im_inv_filter [map_invs]: "im_inv m \<Longrightarrow> im_inv (filter P m)"
  by (simp add: im_inv_def distinct_map_filter)

lemma im_get_filter:
  "im_inv m \<Longrightarrow> im_get (filter P m) k = Some v \<longleftrightarrow> im_get m k = Some v \<and> P (k, v)"
  by (simp add: im_get_set im_inv_filter)

lemma im_inv_map_values [map_invs]: "im_inv m \<Longrightarrow> im_inv (map (\<lambda>(k, v). (k, f v)) m)"
  by (simp add: im_inv_def comp_def case_prod_unfold)

lemma im_get_map_values: "im_get (map (\<lambda>(k, v). (k, f v)) m) k = map_option f (im_get m k)"
  by (induction m) auto

section \<open>New workers\<close>

lemma db_inv_info_init [db_invs]: "db_inv db \<Longrightarrow> db_inv (snd (info_init w n nm rs now db))"
  using db_inv_store_workflow [of db "stored_new (Pointer w) (Some nm) n rs now"] db_inv_update_local_name [of db nm now]
  by (auto simp: info_init_def split: sum.splits option.splits prod.splits)

lemma db_inv_worker_new [db_invs]: "db_inv db \<Longrightarrow> db_inv (snd (worker_new D W S flow name now db))"
  by (auto simp: worker_new_def Let_def split: sum.splits prod.splits dest: db_inv_info_init) (metis db_inv_info_init snd_conv)+

lemma get_workflow_info_cid: "get_workflow_info w db = Ok (n, i) \<Longrightarrow> i_cid i = w"
  by (auto simp: get_workflow_info_def select_workflow_def first_row_def info_new_def result_simps filter_eq_Cons_iff
      split: list.splits)

lemma info_init_cid: "info_init w n nm rs now db = (Ok (i, t), db') \<Longrightarrow> i_cid i = w"
  by (auto simp: info_init_def info_default_def stored_new_def store_workflow_def Let_def dest: get_workflow_info_cid
      split: sum.splits option.splits if_splits prod.splits)

lemma worker_new_cid:
  "worker_new D W S flow name now db = (Ok w, db') \<Longrightarrow> workflow_to_cid D (arg_into D W) flow = Ok (i_cid (wk_info w))"
  by (auto simp: worker_new_def Let_def result_simps dest: info_init_cid split: sum.splits prod.splits)

section \<open>The invariant\<close>

text \<open>
  Every running worker is one that was spawned, for its workflow, and has a deadline in the queue.
  Workflows in \<open>C\<close> may lack the deadline: their worker is about to be aborted.
\<close>

definition runner_inv_but :: "cid set \<Rightarrow> runner \<Rightarrow> bool" where
  "runner_inv_but C r \<longleftrightarrow>
     im_inv (rn_running_workers r) \<and> im_inv (rn_expiration r) \<and> im_inv (rn_running_tasks r) \<and> db_inv (rn_db r) \<and>
     (\<forall>c h k. im_get (rn_running_workers r) c = Some (h, k) \<longrightarrow>
        h < length (rn_spawned r) \<and> i_cid (wk_info (rn_spawned r ! h)) = c \<and>
        (\<forall>v. im_get (rn_expiration r) k = Some v \<longrightarrow> fst v = c) \<and>
        (c \<notin> C \<longrightarrow> im_get (rn_expiration r) k \<noteq> None)) \<and>
     (\<forall>k v. im_get (rn_expiration r) k = Some v \<longrightarrow> k < rn_next_key r)"

abbreviation runner_inv :: "runner \<Rightarrow> bool" where
  "runner_inv \<equiv> runner_inv_but {}"

lemma runner_inv_worker:
  assumes "runner_inv r" and "im_get (rn_running_workers r) c = Some (h, k)"
  shows "h < length (rn_spawned r)" "i_cid (wk_info (rn_spawned r ! h)) = c"
    and "\<exists>d. im_get (rn_expiration r) k = Some (c, d)"
proof -
  from assms show "h < length (rn_spawned r)" "i_cid (wk_info (rn_spawned r ! h)) = c"
    by (simp_all add: runner_inv_but_def)
  from assms obtain v where "im_get (rn_expiration r) k = Some v" "fst v = c"
    by (fastforce simp: runner_inv_but_def)
  then show "\<exists>d. im_get (rn_expiration r) k = Some (c, d)" by (cases v) simp
qed

named_theorems rinvs \<open>operations of the runner keep its invariant\<close>

lemma runner_inv_frames [simp]:
  "runner_inv_but C (r\<lparr>rn_events := es\<rparr>) = runner_inv_but C r"
  "runner_inv_but C (r\<lparr>rn_aborted := hs\<rparr>) = runner_inv_but C r"
  "runner_inv_but C (r\<lparr>rn_aborted_tasks := hs\<rparr>) = runner_inv_but C r"
  "runner_inv_but C (r\<lparr>rn_dropped := cs\<rparr>) = runner_inv_but C r"
  "runner_inv_but C (r\<lparr>rn_rpc_out := ms\<rparr>) = runner_inv_but C r"
  "runner_inv_but C (r\<lparr>rn_replies := rs\<rparr>) = runner_inv_but C r"
  "runner_inv_but C (r\<lparr>rn_web_replies := ws\<rparr>) = runner_inv_but C r"
  "runner_inv_but C (r\<lparr>rn_web_stopped := b\<rparr>) = runner_inv_but C r"
  by (simp_all add: runner_inv_but_def)

lemma inv_db [rinvs]: "runner_inv r \<Longrightarrow> db_inv db \<Longrightarrow> runner_inv (r\<lparr>rn_db := db\<rparr>)"
  by (simp add: runner_inv_but_def)

lemma inv_tasks [rinvs]: "runner_inv_but C r \<Longrightarrow> im_inv ts \<Longrightarrow> runner_inv_but C (r\<lparr>rn_running_tasks := ts\<rparr>)"
  by (simp add: runner_inv_but_def)

lemma inv_abort_tasks [rinvs]: "runner_inv_but C r \<Longrightarrow> runner_inv_but C (abort_worker_tasks c r)"
  unfolding abort_worker_tasks_def
  by (auto intro!: inv_tasks im_inv_remove simp: runner_inv_but_def split: option.splits)

lemma inv_abort_worker [rinvs]:
  assumes "runner_inv_but {c} r"
  shows "runner_inv (abort_worker c r)"
proof (cases "im_get (rn_running_workers r) c")
  case None
  then have "abort_worker c r = r" by (simp add: abort_worker_def)
  moreover have "c' \<noteq> c" if "im_get (rn_running_workers r) c' = Some hk" for c' hk
    using None that by auto
  ultimately show ?thesis using assms by (simp add: runner_inv_but_def)
next
  case (Some hk)
  obtain h k where hk: "hk = (h, k)" by (cases hk)
  let ?r = "r\<lparr>rn_running_workers := hm_remove c (rn_running_workers r), rn_expiration := hm_remove k (rn_expiration r)\<rparr>"
  have k: "fst v = c" if "im_get (rn_expiration r) k = Some v" for v
    using assms Some hk that by (cases v) (auto simp: runner_inv_but_def)
  have "runner_inv ?r"
    using assms k by (simp add: runner_inv_but_def map_laws map_invs) force
  then show ?thesis
    using Some hk inv_abort_tasks [of "{}" "?r\<lparr>rn_aborted := rn_aborted r @ [h]\<rparr>" c] by (simp add: abort_worker_def)
qed

lemma inv_but_mono: "runner_inv r \<Longrightarrow> runner_inv_but C r"
  by (auto simp: runner_inv_but_def)

lemma inv_expired:
  assumes "runner_inv r" and "im_get (rn_expiration r) k = Some (c, d)"
  shows "runner_inv_but {c} (r\<lparr>rn_expiration := hm_remove k (rn_expiration r)\<rparr>)"
  using assms by (simp add: runner_inv_but_def map_laws map_invs) force

lemma inv_spawn [rinvs]: "runner_inv r \<Longrightarrow> runner_inv (spawn_worker w t r)"
  by (auto simp: runner_inv_but_def spawn_worker_def Let_def map_laws map_invs nth_append less_Suc_eq) blast+

lemma inv_drop [rinvs]: "runner_inv r \<Longrightarrow> runner_inv (worker_drop w r)"
  by (simp add: worker_drop_def)

lemma inv_run_worker [rinvs]:
  assumes "runner_inv r"
  shows "runner_inv (snd (run_worker R flow ws name now r))"
proof -
  have "db_inv (rn_db r)" using assms by (simp add: runner_inv_but_def)
  from db_inv_worker_new [OF this, of "rh_deps R" "rh_wasm R" "rh_schedule R" flow name now] show ?thesis
    using assms by (auto simp: run_worker_def Let_def split: prod.splits sum.splits intro!: rinvs)
qed

lemma expiration_gc:
  "im_get (fold (\<lambda>(c, h, key) q. if f h then hm_remove key q else q) ws q) k =
     (if \<exists>c h. (c, h, k) \<in> set ws \<and> f h then None else im_get q k)"
  by (induction ws arbitrary: q) (auto simp: map_laws, blast)

lemma expiration_gc_inv:
  "im_inv q \<Longrightarrow> im_inv (fold (\<lambda>(c, h, key) q. if f h then hm_remove key q else q) ws q)"
  by (induction ws arbitrary: q) (auto simp: map_invs)

lemma inv_gc [rinvs]:
  assumes "runner_inv r"
  shows "runner_inv (gc f g r)"
proof -
  have i: "im_inv (rn_running_workers r)" "im_inv (rn_running_tasks r)" "im_inv (rn_expiration r)"
    using assms by (simp_all add: runner_inv_but_def)
  have key: "h' = h"
    if "im_get (rn_running_workers r) c = Some (h, k)" "(c', h', k) \<in> set (rn_running_workers r)" for c c' h h' k
  proof -
    from that(2) i have c': "im_get (rn_running_workers r) c' = Some (h', k)" by (simp add: im_get_set)
    from runner_inv_worker(3) [OF assms that(1)] runner_inv_worker(3) [OF assms c'] that(1) c'
    show ?thesis by auto
  qed
  show ?thesis
    using assms i key
    by (simp add: runner_inv_but_def gc_def im_get_filter expiration_gc expiration_gc_inv map_invs) blast
qed

lemma inv_shutdown [rinvs]: "runner_inv r \<Longrightarrow> runner_inv (shutdown n tx tx' r)"
proof -
  assume r: "runner_inv r"
  have "runner_inv (f r)" if "f \<in> set (shutdown_stages tx tx')" "runner_inv r" for f r
    using that by (auto simp: shutdown_stages_def abort_workers_def abort_tasks_def)
  then have "runner_inv (fold (\<lambda>f. f) fs r)" if "set fs \<subseteq> set (shutdown_stages tx tx')" for fs
    using that r by (induction fs arbitrary: r) auto
  then show ?thesis by (simp add: shutdown_def set_take_subset)
qed

lemma inv_command [rinvs]: "runner_inv r \<Longrightarrow> runner_inv (snd (handle_command_message R t m r))"
  using inv_run_worker [of r R]
  by (auto simp: handle_command_message_def split: server_message.splits sum.splits prod.splits intro!: rinvs)
    (metis snd_conv)+

lemma inv_serve_rpc [rinvs]: "runner_inv r \<Longrightarrow> runner_inv (snd (serve_rpc R t m r))"
  using inv_command [of r R t "fst m"]
  by (auto simp: serve_rpc_def reply_rpc_def split: prod.splits option.splits sum.splits control_flow.splits server_message.splits)

lemma inv_serve_web [rinvs]: "runner_inv r \<Longrightarrow> runner_inv (serve_web R t m r)"
  using inv_run_worker [of r R]
  by (auto simp: serve_web_def reply_web_def split: prod.splits option.splits sum.splits web_message.splits) (metis snd_conv)+

lemma inv_append [rinvs]:
  "runner_inv r \<Longrightarrow> runner_inv (r\<lparr>rn_running_tasks := append_or_insert c hs (rn_running_tasks r)\<rparr>)"
  by (simp add: runner_inv_but_def append_or_insert_def im_inv_modify_or_insert)

lemma inv_rstep: "rstep R i r x \<Longrightarrow> runner_inv r \<Longrightarrow> runner_inv (snd x)"
  by (induction rule: rstep.induct) (auto intro!: rinvs inv_expired intro: inv_but_mono)

lemma inv_rsteps: "rsteps R is r x \<Longrightarrow> runner_inv r \<Longrightarrow> runner_inv (snd x)"
  by (induction rule: rsteps.induct) (auto dest: inv_rstep)

lemma inv_init: "runner_init K X ips ports ipfs_new settings db = Ok (r, eh, sv) \<Longrightarrow> db_inv db \<Longrightarrow> runner_inv r"
  by (auto simp: runner_init_def runner_inv_but_def result_simps)

section \<open>Workers that nothing refers to\<close>

text \<open>
  The spawned workers that are neither running as far as the runner knows, nor aborted, nor
  replaced by a later run of the same workflow.
\<close>

definition lost :: "runner \<Rightarrow> nat set" where
  "lost r = {h. h < length (rn_spawned r) \<and> h \<notin> set (rn_aborted r) \<and>
     (\<forall>c k. im_get (rn_running_workers r) c \<noteq> Some (h, k)) \<and>
     (\<forall>h'. h < h' \<and> h' < length (rn_spawned r) \<longrightarrow> i_cid (wk_info (rn_spawned r ! h')) \<noteq> i_cid (wk_info (rn_spawned r ! h)))}"

named_theorems losses \<open>the workers an operation of the runner loses\<close>

lemma lost_frames [simp]:
  "lost (r\<lparr>rn_events := es\<rparr>) = lost r" "lost (r\<lparr>rn_aborted_tasks := hs\<rparr>) = lost r"
  "lost (r\<lparr>rn_dropped := cs\<rparr>) = lost r" "lost (r\<lparr>rn_rpc_out := ms\<rparr>) = lost r"
  "lost (r\<lparr>rn_replies := rs\<rparr>) = lost r" "lost (r\<lparr>rn_web_replies := ws\<rparr>) = lost r"
  "lost (r\<lparr>rn_web_stopped := b\<rparr>) = lost r" "lost (r\<lparr>rn_db := db\<rparr>) = lost r"
  "lost (r\<lparr>rn_running_tasks := ts\<rparr>) = lost r" "lost (r\<lparr>rn_expiration := q\<rparr>) = lost r"
  by (simp_all add: lost_def)

lemma lost_abort_worker [losses]: "lost (abort_worker c r) \<subseteq> lost r"
  by (auto simp: lost_def abort_worker_def abort_worker_tasks_def map_laws split: option.splits if_splits)
    (metis Pair_inject option.inject)+

lemma lost_spawn [losses]: "runner_inv r \<Longrightarrow> lost (spawn_worker w t r) \<subseteq> lost r"
  by (auto simp: lost_def spawn_worker_def Let_def map_laws nth_append less_Suc_eq split: if_splits)
    (metis nat_neq_iff runner_inv_worker(2))

lemma lost_gc [losses]: "im_inv (rn_running_workers r) \<Longrightarrow> lost (gc f g r) \<subseteq> lost r \<union> {h. f h}"
  by (auto simp: lost_def gc_def im_get_filter)


lemma lost_drop [losses]: "lost (worker_drop w r) = lost r"
  by (simp add: worker_drop_def)

lemma lost_run_worker [losses]:
  assumes "runner_inv r"
  shows "lost (snd (run_worker R flow ws name now r)) \<subseteq> lost r"
proof -
  have "lost (spawn_worker w t (r\<lparr>rn_db := db, rn_events := es\<rparr>)) \<subseteq> lost r" if "db_inv db" for w t db es
    using lost_spawn [of "r\<lparr>rn_db := db, rn_events := es\<rparr>" w t] inv_db [OF assms that] by simp
  moreover have "db_inv (rn_db r)" using assms by (simp add: runner_inv_but_def)
  from db_inv_worker_new [OF this, of "rh_deps R" "rh_wasm R" "rh_schedule R" flow name now]
  have "worker_new (rh_deps R) (rh_wasm R) (rh_schedule R) flow name now (rn_db r) = (x, db) \<Longrightarrow> db_inv db" for x db
    by simp
  ultimately show ?thesis
    by (simp add: run_worker_def Let_def lost_drop split: prod.splits sum.splits)
qed

lemma lost_abort_workers [losses]: "lost (abort_workers r) \<subseteq> lost r"
  by (auto simp: abort_workers_def abort_tasks_def lost_def)

lemma lost_shutdown [losses]: "lost (shutdown n tx tx' r) \<subseteq> lost r"
proof -
  have "lost (f r) \<subseteq> lost r" if "f \<in> set (shutdown_stages tx tx')" for f r
    using that lost_abort_workers by (auto simp: shutdown_stages_def)
  then have "lost (fold (\<lambda>f. f) fs r) \<subseteq> lost r" if "set fs \<subseteq> set (shutdown_stages tx tx')" for fs
    using that by (induction fs arbitrary: r) fastforce+
  then show ?thesis by (simp add: shutdown_def set_take_subset)
qed

lemma lost_command [losses]: "runner_inv r \<Longrightarrow> lost (snd (handle_command_message R t m r)) \<subseteq> lost r"
  using lost_run_worker [of r R] lost_shutdown [of "mo_stages t" "mo_tx t" "mo_tx2 t" r]
  by (simp add: handle_command_message_def split: server_message.splits sum.splits prod.splits) (metis snd_conv)

lemma lost_serve [losses]:
  assumes "runner_inv r"
  shows "lost (snd (serve_rpc R t m r)) \<subseteq> lost r" and "lost (serve_web R t wm r) \<subseteq> lost r"
proof -
  show "lost (snd (serve_rpc R t m r)) \<subseteq> lost r"
    using lost_command [OF assms, of R t "fst m"]
    by (auto simp: serve_rpc_def reply_rpc_def split: prod.splits option.splits sum.splits control_flow.splits server_message.splits)
  show "lost (serve_web R t wm r) \<subseteq> lost r"
    using lost_run_worker [OF assms, of R]
    by (simp add: serve_web_def reply_web_def split: prod.splits option.splits sum.splits web_message.splits) (metis snd_conv)
qed

lemma lost_rstep: "rstep R i r x \<Longrightarrow> runner_inv r \<Longrightarrow> lost (snd x) \<subseteq> lost r \<union> {h. \<exists>f g. i = GcTick f g \<and> f h}"
proof (induction rule: rstep.induct)
  case (rs_worker r c cs)
  show ?case using lost_abort_worker [of c "r\<lparr>rn_dropped := cs\<rparr>"] by auto
next
  case (rs_gc f g r)
  then show ?case using lost_gc [of r f g] by (auto simp: runner_inv_but_def)
next
  case (rs_expired r k c d)
  show ?case using lost_abort_worker [of c "r\<lparr>rn_expiration := hm_remove k (rn_expiration r)\<rparr>"] by auto
qed (use lost_serve lost_shutdown in \<open>auto simp: lost_drop\<close>)

lemma lost_rsteps:
  "rsteps R is r x \<Longrightarrow> runner_inv r \<Longrightarrow> lost r = {} \<Longrightarrow> lost (snd x) \<subseteq> {h. \<exists>f g. GcTick f g \<in> set is \<and> f h}"
proof (induction rule: rsteps.induct)
  case (rs_more "is" r r' i x)
  then have "runner_inv r'" using inv_rsteps [OF rs_more(1)] by simp
  note step = lost_rstep [OF rs_more(2) this] and before = rs_more(3) [OF rs_more(4,5)]
  show ?case
  proof
    fix h
    assume "h \<in> lost (snd x)"
    with step have "h \<in> lost r' \<or> (\<exists>f g. i = GcTick f g \<and> f h)" by auto
    then obtain f g where "GcTick f g \<in> set (is @ [i])" "f h"
    proof
      assume "h \<in> lost r'"
      with before obtain f g where "GcTick f g \<in> set is" "f h" by auto
      then show thesis by (intro that [of f g]) simp_all
    next
      assume "\<exists>f g. i = GcTick f g \<and> f h"
      then obtain f g where "i = GcTick f g" "f h" by blast
      then show thesis by (intro that [of f g]) simp_all
    qed
    then show "h \<in> {h. \<exists>f g. GcTick f g \<in> set (is @ [i]) \<and> f h}"
      by (intro CollectI exI [of _ f] exI [of _ g]) simp
  qed
qed simp

lemma lost_init: "runner_init K X ips ports ipfs_new settings db = Ok (r, eh, sv) \<Longrightarrow> lost r = {}"
  by (auto simp: runner_init_def lost_def result_simps)

end
