(* ===== verification/Runner_Correct.thy ===== *)
theory Runner_Correct
  imports Runner_Laws Net_Correct
begin

text \<open>
  Properties of the runner: its invariant, the deadlines and the end of workers, what is
  acknowledged to a client, and how it is stopped.
\<close>

section \<open>A concrete runner\<close>

text \<open>A runner in whose surroundings everything succeeds, and a file with a workflow without tasks.\<close>

definition idle_flow :: "arg workflow" where
  "idle_flow = \<lparr>tasks = []\<rparr>"

definition idle_ipld :: ipld where
  "idle_ipld = IMap [(TASKS_KEY, IList [])]"

definition idle_cid :: cid where
  "idle_cid = new_v1 DAG_CBOR (Multihash 0x16 [])"

definition idle_host :: runner_host where
  "idle_host = \<lparr>rh_deps = ex_deps [idle_ipld], rh_wasm = ex_wasm, rh_schedule = ex_schedule,
     rh_files = \<lparr>file_extension = (\<lambda>_. Some ''json''), read_file = (\<lambda>_. Ok []), show_path = id\<rparr>,
     rh_conn = Ok (), rh_event_send = Ok (), rh_ipfs_new = (\<lambda>_. Ok ()), rh_format_time = (\<lambda>_. ''now'')\<rparr>"

definition idle_runner :: runner where
  "idle_runner =
     \<lparr>rn_events = [], rn_expiration = [], rn_node_info = \<lparr>sni_peer_id = PeerId [0]\<rparr>,
      rn_running_tasks = [], rn_running_workers = [], rn_settings = node_default, rn_db = db_empty,
      rn_spawned = [], rn_next_key = 0, rn_aborted = [], rn_aborted_tasks = [], rn_dropped = [],
      rn_rpc_out = [], rn_replies = [], rn_web_replies = [], rn_web_stopped = False\<rparr>"

definition ex_keys :: key_deps where
  "ex_keys = \<lparr>generate_ed25519 = KeypairEd25519 [], rng_from_seed = id, ed25519_from_bytes = (\<lambda>_. Err []),
     secp256k1_from_bytes = (\<lambda>_. Err []), read_key_file = (\<lambda>_. Err []), pem_decode = (\<lambda>_. Err []),
     ec_from_der = (\<lambda>_. Err []), path_extension = (\<lambda>_. None)\<rparr>"

lemma idle_init:
  "\<exists>eh sv. runner_init ex_keys ex_net Ok (\<lambda>_ _. True) (\<lambda>_. Ok ()) node_default db_empty = Ok (idle_runner, eh, sv)"
  by (simp add: runner_init_def swarm_new_def swarm_init_def keypair_of_def server_new_def find_port_def
      node_default_def network_default_def ex_net_def ex_keys_def idle_runner_def gossip_subscribe_def
      libp2p_default_def pubsub_default_def mdns_default_def rendezvous_default_def sw_call_def Let_def)

lemma idle_cid: "workflow_to_cid (ex_deps [idle_ipld]) into idle_flow = Ok idle_cid"
  by (simp add: workflow_to_cid_def to_cid_def idle_flow_def workflow_into_def idle_ipld_def ex_encode
      table_encode_def bt_from_def idle_cid_def) (simp add: ex_deps_def)

lemma idle_graph: "graph (ex_deps xs) ex_wasm ex_schedule idle_flow = Ok \<lparr>g_schedule = [], g_resources = []\<rparr>"
  by (simp add: graph_def aot_def idle_flow_def ex_schedule_def in_order_def lookup_table_def aot_empty_def Let_def)

definition idle_worker :: worker where
  "idle_worker = \<lparr>wk_graph = \<lparr>g_schedule = [], g_resources = []\<rparr>, wk_name = ''idle'',
     wk_info = \<lparr>i_cid = idle_cid, i_name = Some ''idle'', i_num_tasks = 0, i_progress = [], i_progress_count = 0,
       i_resources = []\<rparr>, wk_started = 0\<rparr>"

definition idle_db :: database where
  "idle_db = db_empty\<lparr>t_workflows := [stored_new (Pointer idle_cid) (Some ''idle'') 0 [] 0]\<rparr>"

lemmas idle_info_simps = worker_new_def idle_cid idle_graph idle_worker_def idle_db_def db_empty_def info_init_def
  get_workflow_info_def select_workflow_def first_row_def store_workflow_def info_default_def info_new_def
  stored_new_def workflow_len_def Let_def

lemma idle_new:
  "worker_new (ex_deps [idle_ipld]) ex_wasm ex_schedule idle_flow (Some ''idle'') 0 db_empty = (Ok idle_worker, idle_db)"
  "worker_new (ex_deps [idle_ipld]) ex_wasm ex_schedule idle_flow (Some ''idle'') 0 idle_db = (Ok idle_worker, idle_db)"
  by (simp_all add: idle_info_simps) (simp_all add: idle_flow_def)

definition idle_data :: workflow_data where
  "idle_data = \<lparr>wd_info = wk_info idle_worker, wd_name = ''idle'', wd_timestamp = 0, wd_replayed = []\<rparr>"

definition idle_spawn :: "runner \<Rightarrow> runner" where
  "idle_spawn r = spawn_worker idle_worker (from_secs 3600)
     (r\<lparr>rn_db := idle_db, rn_events := rn_events r @ [ProvideRecord idle_cid None CapsuleWorkflow]\<rparr>)"

lemma idle_run:
  assumes "rn_db r = db_empty \<or> rn_db r = idle_db"
  shows "run_worker idle_host idle_flow workflow_settings_default (Some ''idle'') 0 r = (Ok idle_data, idle_spawn r)"
proof -
  have "worker_new (ex_deps [idle_ipld]) ex_wasm ex_schedule idle_flow (Some ''idle'') 0 (rn_db r) = (Ok idle_worker, idle_db)"
    using assms idle_new by auto
  then show ?thesis
    by (simp add: run_worker_def idle_host_def idle_spawn_def idle_data_def find_receipt_info_by_pointers_def
        find_receipt_pointers_def workflow_settings_default_def Let_def) (simp add: idle_worker_def)
qed

definition idle_moment :: moment where
  "idle_moment = \<lparr>mo_now = 0, mo_stages = 4, mo_tx = 1, mo_tx2 = 2, mo_node_info = None\<rparr>"

lemma idle_file: "validate_and_parse (rh_deps idle_host) (rh_files idle_host) f = Ok (idle_flow, workflow_settings_default)"
  by (simp add: validate_and_parse_def idle_host_def from_json_string_def from_json_def ex_deps_def table_decode_def
      as_bytes_def workflow_try_from_def idle_ipld_def get_field_def idle_flow_def)

lemma serve_run:
  assumes "validate_and_parse (rh_deps R) (rh_files R) file = Ok (flow, ws)"
    and "run_worker R flow ws name (mo_now t) r = (res, r1)"
  shows "serve_rpc R t (rpc_run_message name file tx) r =
    (False, reply_rpc tx
      (case res of
         Ok data \<Rightarrow> RunAck (ack_new (rh_format_time R) (wd_info data) (wd_replayed data) (wd_name data) (wd_timestamp data))
       | Err e \<Rightarrow> RunErr (RunnerRuntime e)) r1)"
  using assms by (cases res) (simp_all add: serve_rpc_def rpc_run_message_def handle_command_message_def)

text \<open>The states after the workflow is run from its file, once and twice.\<close>

definition idle_ack :: ack_workflow where
  "idle_ack = ack_new (\<lambda>_. ''now'') (wk_info idle_worker) [] ''idle'' 0"

definition idle_step :: "runner \<Rightarrow> runner" where
  "idle_step r = reply_rpc 7 (RunAck idle_ack) (idle_spawn r)"

lemma idle_serve:
  assumes "rn_db r = db_empty \<or> rn_db r = idle_db"
  shows "serve_rpc idle_host idle_moment (rpc_run_message (Some ''idle'') ''w.json'' 7) r = (False, idle_step r)"
proof -
  have "mo_now idle_moment = 0" by (simp add: idle_moment_def)
  with serve_run [OF idle_file, where t = idle_moment and r = r and tx = 7 and name = "Some ''idle''"] idle_run [OF assms] show ?thesis
    by (simp add: idle_step_def idle_ack_def idle_data_def idle_host_def)
qed

lemma idle_steps:
  "rsteps idle_host [FromRpc idle_moment (rpc_run_message (Some ''idle'') ''w.json'' 7)] idle_runner
     (False, idle_step idle_runner)"
proof -
  have "rn_db idle_runner = db_empty" by (simp add: idle_runner_def)
  with rs_rpc [of idle_host idle_moment "rpc_run_message (Some ''idle'') ''w.json'' 7" idle_runner] idle_serve [of idle_runner]
  show ?thesis using rs_more [OF rs_none] by fastforce
qed

lemma idle_select:
  "rn_spawned (idle_step idle_runner) = [idle_worker]"
  "rn_running_workers (idle_step idle_runner) = [(idle_cid, 0, 0)]"
  "rn_expiration (idle_step idle_runner) = [(0, idle_cid, from_secs 3600)]"
  "rn_aborted (idle_step idle_runner) = []" "rn_running_tasks (idle_step idle_runner) = []"
  "rn_replies (idle_step idle_runner) = [(7, RunAck idle_ack)]" "rn_replies idle_runner = []"
  "rn_spawned idle_runner = []" "rn_next_key idle_runner = 0" "ack_cid idle_ack = idle_cid" "rh_conn idle_host = Ok ()"
  by (simp_all add: idle_ack_def ack_new_def idle_host_def
      idle_step_def idle_spawn_def reply_rpc_def idle_runner_def) (simp_all add: idle_worker_def spawn_worker_def Let_def)

section \<open>The invariant, deadlines and the end of workers\<close>

text \<open>
  C8. Whatever messages, ticks, deadlines and signals the loop of the runner handles, and however
  workers end and spawn tasks meanwhile: the running workers are spawned workers, each registered
  under its workflow, every one of them has a deadline in the queue, and the database keeps its
  constraints.
\<close>

theorem runner_invariant:
  assumes "runner_init K X ips ports ipfs_new settings db = Ok (r0, eh, sv)" and "db_inv db"
    and "rsteps R is r0 (b, r)"
  shows "runner_inv r"
  using inv_rsteps [OF assms(3)] inv_init [OF assms(1,2)] by simp

theorem runner_invariant_witness: "runner_inv (idle_step idle_runner)"
  using idle_init by (elim exE) (rule runner_invariant [OF _ db_inv_empty idle_steps])

text \<open>
  C24. A running worker can always be ended by its deadline: the queue holds one for it, and when it
  expires the worker and all its tasks are aborted and removed.
\<close>

theorem deadline_enforced:
  assumes "runner_init K X ips ports ipfs_new settings db = Ok (r0, eh, sv)" and "db_inv db"
    and "rsteps R is r0 (b, r)" and "im_get (rn_running_workers r) c = Some (h, k)"
  shows "\<exists>d r'. im_get (rn_expiration r) k = Some (c, d) \<and> rstep R (DeadlineExpires k) r (False, r') \<and>
    h \<in> set (rn_aborted r') \<and> im_get (rn_running_workers r') c = None \<and> im_get (rn_running_tasks r') c = None \<and>
    set (unwrap_or (im_get (rn_running_tasks r) c) []) \<subseteq> set (rn_aborted_tasks r')"
proof -
  have "runner_inv r" using inv_rsteps [OF assms(3)] inv_init [OF assms(1,2)] by simp
  from runner_inv_worker(3) [OF this assms(4)] obtain d where d: "im_get (rn_expiration r) k = Some (c, d)" ..
  show ?thesis
  proof (intro exI conjI)
    show "rstep R (DeadlineExpires k) r (False, abort_worker c (r\<lparr>rn_expiration := hm_remove k (rn_expiration r)\<rparr>))"
      using d by (rule rs_expired)
  qed (use d assms(4) in \<open>auto simp: abort_worker_def abort_worker_tasks_def map_laws split: option.splits\<close>)
qed

theorem deadline_enforced_witness:
  "\<exists>r'. rstep idle_host (DeadlineExpires 0) (idle_step idle_runner) (False, r') \<and> 0 \<in> set (rn_aborted r') \<and>
     im_get (rn_running_workers r') idle_cid = None"
proof -
  have "im_get (rn_running_workers (idle_step idle_runner)) idle_cid = Some (0, 0)" by (simp add: idle_select)
  with idle_init deadline_enforced [OF _ db_inv_empty idle_steps] show ?thesis by blast
qed

lemma abort_workers_all:
  assumes "im_inv (rn_running_workers r)" and "im_inv (rn_running_tasks r)"
    and "im_get (rn_running_workers r) c = Some (h, k)"
  shows "h \<in> set (rn_aborted (abort_workers r))"
  using assms by (force simp: abort_workers_def abort_tasks_def im_get_set)

lemma shutdown_all:
  assumes "4 \<le> n"
  shows "shutdown n tx tx' r =
    abort_workers (r\<lparr>rn_rpc_out := rn_rpc_out r @ [GracefulShutdown tx], rn_web_stopped := True,
      rn_events := rn_events r @ [Shutdown tx']\<rparr>)"
  using assms by (simp add: shutdown_def shutdown_stages_def)

text \<open>
  C25. A shutdown that is not cut off by its timeout leaves the loop, tells the RPC server, the
  webserver and the event handler, and aborts every task and every worker that was ever spawned,
  except workers that the garbage collector found finished and workers whose handle was lost to a
  later run of the same workflow.
\<close>

theorem shutdown_complete:
  assumes "runner_init K X ips ports ipfs_new settings db = Ok (r0, eh, sv)" and "db_inv db"
    and "rsteps R is r0 (False, r)" and "4 \<le> mo_stages t" and "h < length (rn_spawned r)"
  shows "\<exists>r'. rstep R (ShutdownSignal t) r (True, r') \<and>
    GracefulShutdown (mo_tx t) \<in> set (rn_rpc_out r') \<and> rn_web_stopped r' \<and>
    Shutdown (mo_tx2 t) \<in> set (rn_events r') \<and> set (concat (map snd (rn_running_tasks r))) \<subseteq> set (rn_aborted_tasks r') \<and>
    (h \<in> set (rn_aborted r') \<or> (\<exists>f g. GcTick f g \<in> set is \<and> f h) \<or>
     (\<exists>h'. h < h' \<and> h' < length (rn_spawned r) \<and>
       i_cid (wk_info (rn_spawned r ! h')) = i_cid (wk_info (rn_spawned r ! h))))"
proof -
  let ?r = "shutdown (mo_stages t) (mo_tx t) (mo_tx2 t) r"
  note r0 = inv_init [OF assms(1,2)]
  from inv_rsteps [OF assms(3) r0] have inv: "runner_inv r" by simp
  from lost_rsteps [OF assms(3) r0 lost_init [OF assms(1)]]
  have "(\<exists>f g. GcTick f g \<in> set is \<and> f h)" if "h \<in> lost r" using that by auto
  moreover have "h \<in> set (rn_aborted ?r)" if "im_get (rn_running_workers r) c = Some (h, k)" for c k
    using abort_workers_all [of "r\<lparr>rn_rpc_out := rn_rpc_out r @ [GracefulShutdown (mo_tx t)], rn_web_stopped := True,
      rn_events := rn_events r @ [Shutdown (mo_tx2 t)]\<rparr>" c h k] inv that
    by (simp add: shutdown_all [OF assms(4)] runner_inv_but_def)
  moreover have "set (rn_aborted r) \<subseteq> set (rn_aborted ?r)"
    by (auto simp: shutdown_all [OF assms(4)] abort_workers_def abort_tasks_def)
  ultimately have "h \<in> set (rn_aborted ?r) \<or> (\<exists>f g. GcTick f g \<in> set is \<and> f h) \<or>
     (\<exists>h'. h < h' \<and> h' < length (rn_spawned r) \<and>
       i_cid (wk_info (rn_spawned r ! h')) = i_cid (wk_info (rn_spawned r ! h)))"
    using assms(5) unfolding lost_def by blast
  then show ?thesis
    by (intro exI [of _ ?r] conjI rs_signal)
      (auto simp: shutdown_all [OF assms(4)] abort_workers_def abort_tasks_def)
qed

theorem shutdown_complete_witness:
  "\<exists>r'. rstep idle_host (ShutdownSignal idle_moment) (idle_step idle_runner) (True, r') \<and> 0 \<in> set (rn_aborted r')"
proof -
  obtain eh sv where "runner_init ex_keys ex_net Ok (\<lambda>_ _. True) (\<lambda>_. Ok ()) node_default db_empty = Ok (idle_runner, eh, sv)"
    using idle_init by blast
  from shutdown_complete [OF this db_inv_empty idle_steps, of idle_moment 0] show ?thesis
    by (auto simp: idle_select idle_moment_def)
qed

section \<open>Running workflows\<close>





lemma spawn_worker_select [simp]:
  "rn_spawned (spawn_worker w d r) = rn_spawned r @ [w]" "rn_replies (spawn_worker w d r) = rn_replies r"
  "rn_web_replies (spawn_worker w d r) = rn_web_replies r" "rn_db (spawn_worker w d r) = rn_db r"
  "rn_running_workers (spawn_worker w d r) =
     im_insert (i_cid (wk_info w)) (length (rn_spawned r), rn_next_key r) (rn_running_workers r)"
  "rn_expiration (spawn_worker w d r) = im_insert (rn_next_key r) (i_cid (wk_info w), d) (rn_expiration r)"
  "rn_aborted (spawn_worker w d r) = rn_aborted r" "rn_dropped (spawn_worker w d r) = rn_dropped r"
  "rn_settings (spawn_worker w d r) = rn_settings r" "rn_next_key (spawn_worker w d r) = Suc (rn_next_key r)"
  by (simp_all add: spawn_worker_def Let_def)

lemma worker_drop_select [simp]:
  "rn_spawned (worker_drop w r) = rn_spawned r" "rn_replies (worker_drop w r) = rn_replies r"
  "rn_running_workers (worker_drop w r) = rn_running_workers r"
  by (simp_all add: worker_drop_def)

lemma run_worker_Ok:
  assumes "run_worker R flow ws name now r = (Ok d, r')"
  obtains w db es where
    "worker_new (rh_deps R) (rh_wasm R) (rh_schedule R) flow name now (rn_db r) = (Ok w, db)"
    "r' = spawn_worker w (wfs_timeout ws) (r\<lparr>rn_db := db, rn_events := es\<rparr>)"
    "find_receipt_info_by_pointers (rh_deps R) (rh_conn R) (map Pointer (i_progress (wk_info w))) db = Ok (wd_replayed d)"
    "wd_info d = wk_info w" "wd_name d = wk_name w" "wd_timestamp d = wk_started w"
  using assms by (auto simp: run_worker_def Let_def split: prod.splits sum.splits)




text \<open>
  C37. Running a workflow again while its first run is not over loses the handle of the first
  worker, and when the first worker ends, the message it sends aborts the second one.
\<close>

theorem rerun_aborted:
  assumes "run_worker R flow ws name now r = (Ok d, r1)" and "run_worker R flow ws' name' now' r1 = (Ok d', r2)"
    and "rn_dropped r = []" and "0 < nw_events_buffer_len (nd_network (rn_settings r))"
  shows "\<exists>r3 r4. rstep R (WorkerDrops (length (rn_spawned r))) r2 (False, r3) \<and>
    rstep R (FromWorker (i_cid (wd_info d))) r3 (False, r4) \<and>
    rn_aborted r4 = rn_aborted r @ [Suc (length (rn_spawned r))] \<and>
    im_get (rn_running_workers r4) (i_cid (wd_info d)) = None"
proof -
  obtain w db es where w:
    "worker_new (rh_deps R) (rh_wasm R) (rh_schedule R) flow name now (rn_db r) = (Ok w, db)"
    "r1 = spawn_worker w (wfs_timeout ws) (r\<lparr>rn_db := db, rn_events := es\<rparr>)" "wd_info d = wk_info w"
    using run_worker_Ok [OF assms(1)] by metis
  obtain w' db' es' where w':
    "worker_new (rh_deps R) (rh_wasm R) (rh_schedule R) flow name' now' (rn_db r1) = (Ok w', db')"
    "r2 = spawn_worker w' (wfs_timeout ws') (r1\<lparr>rn_db := db', rn_events := es'\<rparr>)"
    using run_worker_Ok [OF assms(2)] by metis
  let ?c = "i_cid (wk_info w)"
  let ?r3 = "r2\<lparr>rn_dropped := [?c]\<rparr>"
  have c: "i_cid (wk_info w') = ?c"
    using worker_new_cid [OF w(1)] worker_new_cid [OF w'(1)] by simp
  have "rstep R (WorkerDrops (length (rn_spawned r))) r2 (False, worker_drop (rn_spawned r2 ! length (rn_spawned r)) r2)"
    by (rule rs_drop) (simp add: w w')
  moreover have "worker_drop (rn_spawned r2 ! length (rn_spawned r)) r2 = ?r3"
    using assms(3,4) by (simp add: worker_drop_def w w' nth_append word_less_nat_alt)
  moreover have "rstep R (FromWorker ?c) ?r3 (False, abort_worker ?c (?r3\<lparr>rn_dropped := []\<rparr>))"
    by (rule rs_worker) simp
  moreover have "rn_aborted (abort_worker ?c (?r3\<lparr>rn_dropped := []\<rparr>)) = rn_aborted r @ [Suc (length (rn_spawned r))]"
    and "im_get (rn_running_workers (abort_worker ?c (?r3\<lparr>rn_dropped := []\<rparr>))) ?c = None"
    by (simp_all add: abort_worker_def abort_worker_tasks_def w(2) w' c map_laws split: option.splits)
  ultimately show ?thesis using w(3) by metis
qed

theorem rerun_aborted_witness:
  "\<exists>r3 r4. rstep idle_host (WorkerDrops 0) (idle_spawn (idle_spawn idle_runner)) (False, r3) \<and>
     rstep idle_host (FromWorker idle_cid) r3 (False, r4) \<and> rn_aborted r4 = [1]"
proof -
  have "rn_db idle_runner = db_empty" "rn_db (idle_spawn idle_runner) = idle_db"
    by (simp_all add: idle_runner_def idle_spawn_def)
  then have "run_worker idle_host idle_flow workflow_settings_default (Some ''idle'') 0 idle_runner = (Ok idle_data, idle_spawn idle_runner)"
    "run_worker idle_host idle_flow workflow_settings_default (Some ''idle'') 0 (idle_spawn idle_runner) =
       (Ok idle_data, idle_spawn (idle_spawn idle_runner))"
    by (simp_all add: idle_run)
  from rerun_aborted [OF this] show ?thesis
    by (simp add: idle_runner_def node_default_def network_default_def idle_data_def idle_worker_def) blast
qed

end
