(* ===== verification/Fetch.thy ===== *)
theory Fetch
  imports Worker Settings Instances "HOL-Library.Sublist"
begin

text \<open>
  Fetching the resources of tasks (\<open>tasks/fetch.rs\<close>, \<open>network/ipfs.rs\<close>). The client of IPFS, the
  parts of a URL, the retries of the tryhard crate and the order in which downloads complete are
  parameters; an attempt has a number, since a later attempt may be answered differently.
\<close>

section \<open>Model\<close>

type_synonym fetch_result = "(anyhow + resource \<times> (anyhow + bytes)) outcome"

record fetch_host =
  url_scheme :: "url \<Rightarrow> string"
  url_domain :: "url \<Rightarrow> string option"
  url_path :: "url \<Rightarrow> string"
  ipfs_cat :: "nat \<Rightarrow> string \<Rightarrow> string + bytes list"
  retry_fn :: "nat \<Rightarrow> (nat \<Rightarrow> fetch_result) \<Rightarrow> fetch_result"
  completion :: "resource set \<Rightarrow> resource list"

text \<open>
  \<open>retry_fn\<close> calls the function again after an error, at most as often as it is told, and
  returns the first success or else the last error. Every download that is waited for completes.
\<close>

definition retry_ok :: "fetch_host \<Rightarrow> bool" where
  "retry_ok I \<longleftrightarrow>
     (\<forall>n f. (\<forall>e. f 0 \<noteq> Returns (Err e)) \<longrightarrow> retry_fn I n f = f 0) \<and>
     (\<forall>f. retry_fn I 0 f = f 0) \<and>
     (\<forall>n f e. f 0 = Returns (Err e) \<longrightarrow> retry_fn I (Suc n) f = retry_fn I n (\<lambda>k. f (Suc k)))"

definition completion_ok :: "fetch_host \<Rightarrow> resource set \<Rightarrow> bool" where
  "completion_ok I S \<longleftrightarrow> set (completion I S) = S"

definition get_cid :: "deps \<Rightarrow> fetch_host \<Rightarrow> nat \<Rightarrow> cid \<Rightarrow> anyhow + bytes" where
  "get_cid D I k c = map_ok concat (map_err Msg (ipfs_cat I k (cid_to_string D c)))"

definition get_resource :: "deps \<Rightarrow> fetch_host \<Rightarrow> nat \<Rightarrow> url \<Rightarrow> anyhow + bytes" where
  "get_resource D I k u =
     and_then (map_err Msg (cid_from_str D (url_to_string D u))) (\<lambda>c. get_cid D I k c)"

definition contains :: "string \<Rightarrow> string \<Rightarrow> bool" where
  "contains s pat \<longleftrightarrow> list_ex (prefix pat) (suffixes s)"

text \<open>\<open>str::splitn\<close>: at most \<open>n\<close> pieces, the last one with the rest of the string.\<close>

fun splitn :: "nat \<Rightarrow> char \<Rightarrow> string \<Rightarrow> string list" where
  "splitn 0 c s = []"
| "splitn (Suc 0) c s = [s]"
| "splitn (Suc (Suc n)) c s =
     (let piece = takeWhile (\<lambda>x. x \<noteq> c) s in
      if c \<in> set s then piece # splitn (Suc n) c (drop (Suc (length piece)) s) else [s])"

definition fetch_url :: "deps \<Rightarrow> fetch_host \<Rightarrow> nat \<Rightarrow> url \<Rightarrow> (anyhow + (anyhow + bytes)) outcome" where
  "fetch_url D I k u =
     (let domain = url_domain I u; path = url_path I u in
      if url_scheme I u = ''ipfs'' \<and> domain \<noteq> None
      then (case cid_from_str D (unwrap_or domain []) of
              Err e \<Rightarrow> Returns (Err (Msg e))
            | Ok parsed_cid \<Rightarrow> Returns (Ok (get_cid D I k parsed_cid)))
      else if domain = Some ''ipfs.io'' \<or> contains path ''/ipfs/'' \<or> contains path ''/ipns/''
      then Returns (Ok (get_resource D I k u))
      else (case domain of
              Some d \<Rightarrow>
                (case splitn 3 CHR ''.'' d of
                   sub # gateway # _ \<Rightarrow>
                     if ok (cid_from_str D sub) \<noteq> None \<and> gateway = ''ipfs''
                     then Returns (Ok (get_resource D I k u))
                     else Panics ''not yet implemented''
                 | _ \<Rightarrow> Panics ''index out of bounds'')
            | None \<Rightarrow> Panics ''not yet implemented''))"

definition fetch :: "deps \<Rightarrow> fetch_host \<Rightarrow> nat \<Rightarrow> resource \<Rightarrow> fetch_result" where
  "fetch D I k r =
     (case r of
        RscUrl u \<Rightarrow>
          (case fetch_url D I k u of
             Returns (Ok bytes) \<Rightarrow> Returns (Ok (RscUrl u, bytes))
           | Returns (Err e) \<Rightarrow> Returns (Err e)
           | Panics m \<Rightarrow> Panics m)
      | RscCid c \<Rightarrow> Returns (Ok (RscCid c, get_cid D I k c)))"

text \<open>\<open>try_collect\<close> stops at the first error.\<close>

fun try_collect :: "fetch_result list \<Rightarrow> (anyhow + (resource \<times> (anyhow + bytes)) list) outcome" where
  "try_collect [] = Returns (Ok [])"
| "try_collect (Panics m # rs) = Panics m"
| "try_collect (Returns (Err e) # rs) = Returns (Err e)"
| "try_collect (Returns (Ok x) # rs) =
     (case try_collect rs of Returns (Ok xs) \<Rightarrow> Returns (Ok (x # xs)) | res \<Rightarrow> res)"

definition get_resources ::
  "deps \<Rightarrow> fetch_host \<Rightarrow> workflow_settings \<Rightarrow> resource set \<Rightarrow> (anyhow + fetched) outcome" where
  "get_resources D I settings resources =
     (case try_collect (map (\<lambda>r. retry_fn I (unat (wfs_retries settings)) (\<lambda>k. fetch D I k r))
                          (completion I resources)) of
        Panics m \<Rightarrow> Panics m
      | Returns (Err _) \<Rightarrow> Returns (Err (Msg ''Failed to fetch resources from IPFS''))
      | Returns (Ok vec) \<Rightarrow>
          Returns (try_fold (\<lambda>acc res. and_then (snd res) (\<lambda>ans. Ok (im_insert (fst res) ans acc))) [] vec))"

text \<open>Without the \<open>ipfs\<close> feature nothing is fetched.\<close>

definition get_resources_plain :: "resource set \<Rightarrow> anyhow + fetched" where
  "get_resources_plain resources = Ok []"

text \<open>
  The function a worker is given to fetch with. A panic ends the task of the worker, as an error
  does, and is an error of the function here.
\<close>

definition fetch_fn :: "deps \<Rightarrow> fetch_host \<Rightarrow> workflow_settings \<Rightarrow> resource set \<Rightarrow> anyhow + fetched" where
  "fetch_fn D I settings resources =
     (case get_resources D I settings resources of Returns res \<Rightarrow> res | Panics m \<Rightarrow> Err (Msg m))"

end
