(* ===== verification/Fetch_Correct.thy ===== *)
theory Fetch_Correct
  imports Fetch Run_Correct
begin

text \<open>
  Properties of fetching: what a successful fetch returns, together with the scheduler that asks
  for it, and when a fetch is tried again.
\<close>

lemma retry_constant:
  assumes "retry_ok I" and "\<And>k e. f 0 = Returns (Err e) \<Longrightarrow> f k = Returns (Err e)"
  shows "retry_fn I n f = f 0"
proof (cases "\<exists>e. f 0 = Returns (Err e)")
  case True
  then obtain e where e: "\<And>k. f k = Returns (Err e)" using assms(2) by blast
  then have f: "f = (\<lambda>k. Returns (Err e))" by blast
  have "retry_fn I n (\<lambda>k. Returns (Err e)) = Returns (Err e)"
    using assms(1) by (induction n) (simp_all add: retry_ok_def)
  then show ?thesis by (simp add: f)
next
  case False
  then show ?thesis using assms(1) by (simp add: retry_ok_def)
qed

text \<open>
  The errors of the client are part of a successful fetch, and what else can fail does not depend
  on the attempt.
\<close>

lemma fetch_url_error:
  assumes "fetch_url D I 0 u = Returns (Err e)"
  shows "fetch_url D I k u = Returns (Err e)"
proof (cases "url_scheme I u = ''ipfs'' \<and> url_domain I u \<noteq> None")
  case True
  with assms show ?thesis by (simp add: fetch_url_def Let_def split: sum.splits)
next
  case False
  then have "fetch_url D I 0 u \<noteq> Returns (Err e)"
    unfolding fetch_url_def Let_def if_not_P [OF False] by (simp split: option.split list.split)
  with assms show ?thesis by simp
qed

lemma fetch_error: "fetch D I 0 r = Returns (Err e) \<Longrightarrow> fetch D I k r = Returns (Err e)"
  by (cases r) (auto simp: fetch_def dest: fetch_url_error [where k = k] split: outcome.splits sum.splits)

lemma retry_fetch: "retry_ok I \<Longrightarrow> retry_fn I n (\<lambda>k. fetch D I k r) = fetch D I 0 r"
  by (rule retry_constant) (auto intro: fetch_error)

lemma try_collect_Ok: "try_collect rs = Returns (Ok xs) \<Longrightarrow> rs = map (\<lambda>x. Returns (Ok x)) xs"
  by (induction rs arbitrary: xs rule: try_collect.induct)
    (auto split: outcome.splits sum.splits simp: Cons_eq_map_conv)

lemma fetch_names: "fetch D I k r = Returns (Ok (r', x)) \<Longrightarrow> r' = r"
  by (auto simp: fetch_def split: resource.splits outcome.splits sum.splits)

lemma try_fold_answers:
  "try_fold (\<lambda>acc res. and_then (snd res) (\<lambda>ans. Ok (im_insert (fst res) ans acc))) m vec = Ok m' \<longleftrightarrow>
     (\<exists>ys. map snd vec = map Ok ys \<and> m' = fold (\<lambda>(r, b). im_insert r b) (zip (map fst vec) ys) m)"
proof (induction vec arbitrary: m)
  case (Cons x vec)
  obtain r res where x: "x = (r, res)" by (cases x)
  show ?case
    using Cons by (cases res) (auto simp: x Cons_eq_map_conv)
qed auto

lemma get_resources_Ok:
  assumes "retry_ok I" and "get_resources D I settings S = Returns (Ok m)" and "r \<in> set (completion I S)"
  shows "\<exists>b. im_get m r = Some b \<and> fetch D I 0 r = Returns (Ok (r, Ok b))"
proof -
  obtain vec where vec: "map (fetch D I 0) (completion I S) = map (\<lambda>x. Returns (Ok x)) vec"
    and fold: "try_fold (\<lambda>acc res. and_then (snd res) (\<lambda>ans. Ok (im_insert (fst res) ans acc))) [] vec = Ok m"
    using assms(2) by (auto simp: get_resources_def retry_fetch [OF assms(1)] split: outcome.splits sum.splits dest!: try_collect_Ok)
  from fold obtain ys where ys: "map snd vec = map Ok ys" "m = fold (\<lambda>(r, b). im_insert r b) (zip (map fst vec) ys) []"
    by (auto simp: try_fold_answers)
  then have len: "length ys = length vec" by (metis length_map)
  have lenc: "length vec = length (completion I S)" using arg_cong [OF vec, of length] by simp
  have attempt: "fetch D I 0 (completion I S ! i) = Returns (Ok (vec ! i))" if "i < length vec" for i
    using arg_cong [OF vec, of "\<lambda>xs. xs ! i"] that lenc by simp
  have names: "map fst vec = completion I S"
  proof (rule nth_equalityI)
    show "length (map fst vec) = length (completion I S)" by (simp add: lenc)
    show "map fst vec ! i = completion I S ! i" if "i < length (map fst vec)" for i
      using that attempt [of i] by (cases "vec ! i") (auto dest: fetch_names)
  qed
  have "fst ` set (zip (map fst vec) ys) = set (completion I S)"
    using len by (simp add: names [symmetric] flip: set_map)
  then have "map_of (rev (zip (map fst vec) ys)) r \<noteq> None"
    using assms(3) by (simp add: map_of_eq_None_iff)
  then obtain b where "map_of (rev (zip (map fst vec) ys)) r = Some b" by blast
  then have b: "im_get m r = Some b" "(r, b) \<in> set (zip (map fst vec) ys)"
    by (auto simp: ys(2) im_get_fold_insert dest: map_of_SomeD)
  then obtain i where i: "i < length vec" "map fst vec ! i = r" "ys ! i = b"
    using len by (auto simp: in_set_zip)
  then have "vec ! i = (r, Ok b)"
    using arg_cong [OF ys(1), of "\<lambda>xs. xs ! i"] len by (simp add: prod_eq_iff)
  with attempt [OF i(1)] i names b(1) show ?thesis by auto
qed

section \<open>The resources of a run\<close>

text \<open>
  C23. When a run of the graph of a workflow starts, every resource of every task that is to run and
  has no receipt is in the map of fetched resources, with the bytes that a fetch of that
  resource returns; a failed download of any of them keeps the run from starting.
\<close>

theorem resources_fetched:
  assumes "retry_ok I" and "completion_ok I (fetch_request D g db)"
    and "graph D W S flow = Ok g" and "schedule_ok S" and "cid_text_ok D"
    and "scheduler_init D g db (fetch_fn D I settings) = Ok s"
    and "n \<in> set (concat (sch_run s))" and "node_cid D n c" and "no_receipt db c"
    and "im_get (g_resources g) c = Some l" and "r \<in> set l"
  shows "\<exists>b. im_get (sch_resources s) r = Some b \<and> fetch D I 0 r = Returns (Ok (r, Ok b))"
proof -
  have "r \<in> fetch_request D g db" 
    by (rule resource_asked [OF graph_nodes_known [OF assms(3-5)] assms(6-11)])
  then have asked: "r \<in> set (completion I (fetch_request D g db))"
    using assms(2) by (simp add: completion_ok_def)
  have "fetch_fn D I settings (fetch_request D g db) = Ok (sch_resources s)"
    by (rule scheduler_init_fetch [OF assms(6)])
  then have "get_resources D I settings (fetch_request D g db) = Returns (Ok (sch_resources s))"
    by (auto simp: fetch_fn_def split: outcome.splits)
  from get_resources_Ok [OF assms(1) this asked] show ?thesis .
qed

primrec retry_upto :: "nat \<Rightarrow> (nat \<Rightarrow> fetch_result) \<Rightarrow> fetch_result" where
  "retry_upto 0 f = f 0"
| "retry_upto (Suc n) f = (case f 0 of Returns (Err e) \<Rightarrow> retry_upto n (\<lambda>k. f (Suc k)) | res \<Rightarrow> res)"

definition ex_fetch :: "(nat \<Rightarrow> string \<Rightarrow> string + bytes list) \<Rightarrow> fetch_host" where
  "ex_fetch cat =
     \<lparr>url_scheme = (\<lambda>_. ''ipfs''), url_domain = (\<lambda>_. Some (cid_text (nth_cid 9))), url_path = (\<lambda>_. []),
      ipfs_cat = cat, retry_fn = retry_upto,
      completion = (\<lambda>S. filter (\<lambda>r. r \<in> S) [RscUrl (Url ''ipfs://add.wasm'')])\<rparr>"

lemma ex_retry_ok: "retry_ok (ex_fetch cat)"
  unfolding retry_ok_def
proof (intro conjI allI impI)
  fix n and f :: "nat \<Rightarrow> fetch_result"
  assume "\<forall>e. f 0 \<noteq> Returns (Err e)"
  then show "retry_fn (ex_fetch cat) n f = f 0"
    by (cases n) (auto simp: ex_fetch_def split: outcome.splits sum.splits)
qed (simp_all add: ex_fetch_def)

definition ex_cat :: "nat \<Rightarrow> string \<Rightarrow> string + bytes list" where
  "ex_cat k c = (if c = cid_text (nth_cid 9) then Ok [[1], [2]] else Err ''not found'')"

lemma ex_fetch_add:
  "fetch (ex_deps xs) (ex_fetch ex_cat) k (RscUrl u) = Returns (Ok (RscUrl u, Ok [1, 2]))"
  by (simp add: fetch_def fetch_url_def ex_fetch_def ex_cat_def get_cid_def ex_deps_def result_simps Let_def)

lemma ex_resources:
  "get_resources (ex_deps xs) (ex_fetch ex_cat) settings {RscUrl (Url ''ipfs://add.wasm'')} =
     Returns (Ok [(RscUrl (Url ''ipfs://add.wasm''), [1, 2])])"
proof -
  have "completion (ex_fetch ex_cat) {RscUrl (Url ''ipfs://add.wasm'')} = [RscUrl (Url ''ipfs://add.wasm'')]"
    by (simp add: ex_fetch_def)
  then show ?thesis
    by (simp add: get_resources_def retry_fetch [OF ex_retry_ok] ex_fetch_add result_simps)
qed

lemma ex_request:
  "fetch_request run_deps (wk_graph example_worker) (ex_db [ex_rt_receipt 5 0]) = {RscUrl (Url ''ipfs://add.wasm'')}"
  by (simp add: fetch_request_def example_worker_def run_sched_def run_node_def run_info_def run_url_def run_deps_def
      ex_sched_defs swap_remove_def)

theorem resources_fetched_witness:
  "\<exists>s. scheduler_init run_deps (wk_graph example_worker) (ex_db [ex_rt_receipt 5 0])
       (fetch_fn run_deps (ex_fetch ex_cat) workflow_settings_default) = Ok s \<and>
     im_get (sch_resources s) (RscUrl (Url ''ipfs://add.wasm'')) = Some [1, 2]"
proof -
  let ?g = "wk_graph example_worker"
  let ?f = "fetch_fn run_deps (ex_fetch ex_cat) workflow_settings_default"
  have f: "?f {RscUrl (Url ''ipfs://add.wasm'')} = Ok [(RscUrl (Url ''ipfs://add.wasm''), [1, 2])]"
    by (simp add: fetch_fn_def ex_resources run_deps_def)
  obtain s where s: "scheduler_init run_deps ?g (ex_db [ex_rt_receipt 5 0]) ?f = Ok s" "sch_run s = [[run_node 1]]"
    using f by (auto simp: scheduler_init_def example_worker_def run_sched_def run_node_def run_info_def run_url_def run_deps_def
        ex_sched_defs swap_remove_def)
  have c: "completion_ok (ex_fetch ex_cat) (fetch_request run_deps ?g (ex_db [ex_rt_receipt 5 0]))"
    by (simp add: completion_ok_def ex_request) (auto simp: ex_fetch_def)
  have "cid_text_ok run_deps" by (simp add: run_deps_def)
  from resources_fetched [OF ex_retry_ok c run_graph ex_schedule_ok this s(1),
      of "run_node 1" "nth_cid 1" "[RscUrl (Url ''ipfs://add.wasm'')]"]
  obtain b where "im_get (sch_resources s) (RscUrl (Url ''ipfs://add.wasm'')) = Some b"
    "fetch run_deps (ex_fetch ex_cat) 0 (RscUrl (Url ''ipfs://add.wasm'')) = Returns (Ok (RscUrl (Url ''ipfs://add.wasm''), Ok b))"
    by (auto simp: s(2) node_cid_def run_node_def node_new_def no_receipt_def ex_db_def ex_rt_receipt_def
        example_worker_def run_info_def run_url_def run_deps_def)
  with s(1) show ?thesis by (simp add: ex_fetch_add run_deps_def)
qed

text \<open>
  C39. The number of retries in the settings of a workflow has no effect on what is fetched: the
  errors of the IPFS client are returned inside a result that counts as a success, so no download
  is ever tried again.
\<close>

theorem retries_ineffective:
  assumes "retry_ok I"
  shows "get_resources D I settings S = get_resources D I (settings\<lparr>wfs_retries := n\<rparr>) S"
  by (simp add: get_resources_def retry_fetch [OF assms])

theorem retries_ineffective_witness:
  "get_resources (ex_deps []) (ex_fetch (\<lambda>k c. if k < 3 then Err ''busy'' else Ok [[1]]))
       (workflow_settings_default\<lparr>wfs_retries := 10\<rparr>) {RscUrl (Url ''ipfs://add.wasm'')} =
     Returns (Err (Msg ''busy''))"
proof -
  let ?I = "ex_fetch (\<lambda>k c. if k < 3 then Err ''busy'' else Ok [[1]])"
  have "completion ?I {RscUrl (Url ''ipfs://add.wasm'')} = [RscUrl (Url ''ipfs://add.wasm'')]"
    by (simp add: ex_fetch_def)
  moreover have "fetch (ex_deps []) ?I 0 (RscUrl (Url ''ipfs://add.wasm'')) =
      Returns (Ok (RscUrl (Url ''ipfs://add.wasm''), Err (Msg ''busy'')))"
    by (simp add: fetch_def fetch_url_def ex_fetch_def get_cid_def ex_deps_def result_simps Let_def)
  moreover have "retry_fn ?I 0 f = f 0" for f by (simp add: ex_fetch_def)
  ultimately have "get_resources (ex_deps []) ?I (workflow_settings_default\<lparr>wfs_retries := 0\<rparr>)
      {RscUrl (Url ''ipfs://add.wasm'')} = Returns (Err (Msg ''busy''))"
    by (simp add: get_resources_def result_simps)
  then show ?thesis
    using retries_ineffective [OF ex_retry_ok, of "ex_deps []" "\<lambda>k c. if k < 3 then Err ''busy'' else Ok [[1]]"
        "workflow_settings_default\<lparr>wfs_retries := 10\<rparr>" "{RscUrl (Url ''ipfs://add.wasm'')}" 0] by simp
qed

end
