(* ===== verification/Prom.thy ===== *)
theory Prom
  imports Webserver Atoms
begin

text \<open>
  The metrics of the node as data (\<open>network/webserver/prom.rs\<close>) and the method of the webserver that
  returns them. The text of a Prometheus exporter is cut into lines and families; the three regular
  expressions that take a line apart are parameters.
\<close>

section \<open>Text\<close>

text \<open>The replacement of \<open>\n\n\<close> by \<open>\n\<close>, and \<open>str::lines\<close>.\<close>

abbreviation newline :: char where "newline \<equiv> CHR 0x0A"

fun replace_newlines :: "string \<Rightarrow> string" where
  "replace_newlines (a # b # s) =
     (if a = newline \<and> b = newline then newline # replace_newlines s else a # replace_newlines (b # s))"
| "replace_newlines s = s"

definition strip_cr :: "string \<Rightarrow> string" where
  "strip_cr l = (if l \<noteq> [] \<and> last l = CHR 0x0D then butlast l else l)"

lemma drop_line_shorter: "s \<noteq> [] \<Longrightarrow> length (dropWhile P s) - Suc 0 < length s"
  using length_dropWhile_le [of P s] by (cases s) auto

function str_lines :: "string \<Rightarrow> string list" where
  "str_lines s =
     (if s = [] then []
      else let l = takeWhile (\<lambda>c. c \<noteq> newline) s; rest = dropWhile (\<lambda>c. c \<noteq> newline) s in
           if rest = [] then [l] else strip_cr l # str_lines (tl rest))"
  by auto

termination
  by (relation "measure length") (simp_all add: drop_line_shorter)

declare str_lines.simps [simp del]

fun split_ws :: "string \<Rightarrow> string \<Rightarrow> string list" where
  "split_ws word [] = (if word = [] then [] else [word])"
| "split_ws word (c # s) =
     (if is_whitespace c then (if word = [] then split_ws [] s else word # split_ws [] s)
      else split_ws (word @ [c]) s)"

definition split_whitespace :: "string \<Rightarrow> string list" where
  "split_whitespace s = split_ws [] s"

fun join :: "string \<Rightarrow> string list \<Rightarrow> string" where
  "join sep [] = []"
| "join sep [s] = s"
| "join sep (s # t # ss) = s @ sep @ join sep (t # ss)"

section \<open>Data\<close>

type_synonym labels = "(string, string) index_map"

record metric =
  me_labels :: "labels option"
  me_value :: string

record summary =
  su_labels :: "labels option"
  su_quantiles :: labels
  su_count :: string
  su_sum :: string

record histogram =
  hi_labels :: "labels option"
  hi_buckets :: labels
  hi_count :: string
  hi_sum :: string

datatype metric_type = Gauge | HistogramType | SummaryType

datatype metric_like = MetricData metric | SummaryData summary | HistogramData histogram

record metric_family =
  mf_type :: metric_type
  mf_name :: string
  mf_help :: string
  mf_data :: "metric_like list"

text \<open>
  Parsing ends with an error or with a panic. The parameters are the captures of the regular
  expressions: the value of a metric without labels; the labels and the value of one with labels;
  the pairs of a list of labels.
\<close>

datatype prom_stop = PromErr string | PromPanic string

record prom_regex =
  no_label :: "string \<Rightarrow> string option"
  with_label :: "string \<Rightarrow> (string \<times> string) option"
  label_pairs :: "string \<Rightarrow> (string \<times> string) list"

section \<open>Parsing\<close>

definition parse_from_string :: "prom_regex \<Rightarrow> string \<Rightarrow> prom_stop + string \<times> labels option" where
  "parse_from_string X s =
     (case no_label X s of
        Some v \<Rightarrow> Ok (v, None)
      | None \<Rightarrow>
          (case with_label X s of
             Some (ls, v) \<Rightarrow> Ok (v, Some (fold (\<lambda>(k, v). im_insert k v) (label_pairs X ls) []))
           | None \<Rightarrow> Err (PromErr (''invalid format '' @ s))))"

definition metric_from_string :: "prom_regex \<Rightarrow> string \<Rightarrow> prom_stop + metric" where
  "metric_from_string X s =
     map_ok (\<lambda>(v, ls). \<lparr>me_labels = ls, me_value = v\<rparr>) (parse_from_string X s)"

fun summary_label :: "string \<times> string \<Rightarrow> summary \<Rightarrow> summary" where
  "summary_label (k, v) su =
     (if k = ''quantile'' then su\<lparr>su_quantiles := im_insert k v (su_quantiles su)\<rparr>
      else su\<lparr>su_labels := map_option (im_insert k v) (su_labels su)\<rparr>)"

definition summary_line :: "prom_regex \<Rightarrow> string \<Rightarrow> summary \<Rightarrow> string \<Rightarrow> prom_stop + summary" where
  "summary_line X metric_name su line =
     (if prefix (metric_name @ ''_sum'') line
      then map_ok (\<lambda>p. su\<lparr>su_sum := fst p\<rparr>) (parse_from_string X line)
      else if prefix (metric_name @ ''_count'') line
      then map_ok (\<lambda>p. su\<lparr>su_count := fst p\<rparr>) (parse_from_string X line)
      else (case with_label X line of
              Some (ls, _) \<Rightarrow> Ok (fold summary_label (label_pairs X ls) su)
            | None \<Rightarrow> Err (PromErr (''invalid format '' @ line))))"

definition summary_from_raw :: "prom_regex \<Rightarrow> string \<Rightarrow> string list \<Rightarrow> prom_stop + summary" where
  "summary_from_raw X metric_name raw_lines =
     try_fold (summary_line X metric_name)
       \<lparr>su_labels = Some [], su_quantiles = [], su_count = [], su_sum = []\<rparr> raw_lines"

fun histogram_label :: "string \<Rightarrow> string \<times> string \<Rightarrow> histogram \<Rightarrow> histogram" where
  "histogram_label value (k, v) hi =
     (if k = ''le'' then hi\<lparr>hi_buckets := im_insert v value (hi_buckets hi)\<rparr>
      else hi\<lparr>hi_labels := map_option (im_insert k v) (hi_labels hi)\<rparr>)"

definition histogram_line :: "prom_regex \<Rightarrow> string \<Rightarrow> histogram \<Rightarrow> string \<Rightarrow> prom_stop + histogram" where
  "histogram_line X metric_name hi line =
     (if prefix (metric_name @ ''_sum'') line
      then map_ok (\<lambda>p. hi\<lparr>hi_sum := fst p\<rparr>) (parse_from_string X line)
      else if prefix (metric_name @ ''_count'') line
      then map_ok (\<lambda>p. hi\<lparr>hi_count := fst p\<rparr>) (parse_from_string X line)
      else (case with_label X line of
              Some (ls, v) \<Rightarrow> Ok (fold (histogram_label v) (label_pairs X ls) hi)
            | None \<Rightarrow> Err (PromErr (''invalid format '' @ line))))"

definition histogram_from_raw :: "prom_regex \<Rightarrow> string \<Rightarrow> string list \<Rightarrow> prom_stop + histogram" where
  "histogram_from_raw X metric_name raw_lines =
     try_fold (histogram_line X metric_name)
       \<lparr>hi_labels = Some [], hi_buckets = [], hi_count = [], hi_sum = []\<rparr> raw_lines"

text \<open>Indexing the words of a line out of range panics.\<close>

definition metric_name_and_type :: "string \<Rightarrow> prom_stop + string \<times> metric_type" where
  "metric_name_and_type type_line =
     (let tags = split_whitespace type_line in
      if length tags \<le> 3 then Err (PromPanic ''index out of bounds'')
      else let type_raw = tags ! 3 in
        if type_raw = ''gauge'' \<or> type_raw = ''counter'' then Ok (tags ! 2, Gauge)
        else if type_raw = ''histogram'' then Ok (tags ! 2, HistogramType)
        else if type_raw = ''summary'' then Ok (tags ! 2, SummaryType)
        else Err (PromErr (''invalid metric type '' @ type_raw)))"

definition metric_help_from_raw :: "string \<Rightarrow> prom_stop + string" where
  "metric_help_from_raw help_line =
     (let tags = split_whitespace help_line in
      if length tags < 3 then Err (PromPanic ''range start index out of range'')
      else Ok (join '' '' (drop 3 tags)))"

text \<open>A histogram or a summary is complete with the line of its count.\<close>

definition group_line ::
  "(string list \<Rightarrow> prom_stop + metric_like) \<Rightarrow> string \<Rightarrow> string list \<times> metric_like list \<Rightarrow> string \<Rightarrow>
   prom_stop + string list \<times> metric_like list" where
  "group_line from_raw count_prefix st line =
     (case st of (pending, data) \<Rightarrow>
        if prefix count_prefix line
        then map_ok (\<lambda>d. ([], data @ [d])) (from_raw (pending @ [line]))
        else Ok (pending @ [line], data))"

definition family_data :: "prom_regex \<Rightarrow> string \<Rightarrow> metric_type \<Rightarrow> string list \<Rightarrow> prom_stop + metric_like list" where
  "family_data X metric_name ty raw_iter =
     (case ty of
        Gauge \<Rightarrow> try_map (\<lambda>l. map_ok MetricData (metric_from_string X l)) raw_iter
      | HistogramType \<Rightarrow>
          map_ok snd (try_fold (group_line (\<lambda>ls. map_ok HistogramData (histogram_from_raw X metric_name ls))
            (metric_name @ ''_count'')) ([], []) raw_iter)
      | SummaryType \<Rightarrow>
          map_ok snd (try_fold (group_line (\<lambda>ls. map_ok SummaryData (summary_from_raw X metric_name ls))
            (metric_name @ ''_count'')) ([], []) raw_iter))"

definition family_from_raw :: "prom_regex \<Rightarrow> string list \<Rightarrow> prom_stop + metric_family" where
  "family_from_raw X raw =
     (case raw of
        [] \<Rightarrow> Err (PromErr ''invalid metric help'')
      | help_line # rest \<Rightarrow>
          and_then (metric_help_from_raw help_line) (\<lambda>help.
          case rest of
            [] \<Rightarrow> Err (PromErr (''invalid metric name/type '' @ join [newline] raw))
          | type_line # raw_iter \<Rightarrow>
              and_then (metric_name_and_type type_line) (\<lambda>(name, ty).
              and_then (family_data X name ty raw_iter) (\<lambda>data.
              Ok \<lparr>mf_type = ty, mf_name = name, mf_help = help, mf_data = data\<rparr>))))"

definition prom_step ::
  "prom_regex \<Rightarrow> metric_family list \<times> string list \<times> nat \<Rightarrow> string \<Rightarrow>
   prom_stop + metric_family list \<times> string list \<times> nat" where
  "prom_step X st line =
     (case st of (metrics, metric_lines, num_comment_lines) \<Rightarrow>
        if prefix ''#'' line
        then if num_comment_lines = 2
             then map_ok (\<lambda>f. (metrics @ [f], [line], 1)) (family_from_raw X metric_lines)
             else Ok (metrics, metric_lines @ [line], num_comment_lines + 1)
        else Ok (metrics, metric_lines @ [line], num_comment_lines))"

definition prometheus_from_string :: "prom_regex \<Rightarrow> string \<Rightarrow> prom_stop + metric_family list" where
  "prometheus_from_string X s =
     map_ok fst (try_fold (prom_step X) ([], [], 0) (str_lines (replace_newlines s)))"

text \<open>
  The method \<open>metrics\<close> of the webserver. \<open>params\<close> is the prefix in the parameters, if they have
  one; \<open>show_debug\<close> formats the error.
\<close>

definition metrics_method ::
  "prom_regex \<Rightarrow> (string \<Rightarrow> string) \<Rightarrow> string option \<Rightarrow> string \<Rightarrow> (error_object + metric_family list) outcome" where
  "metrics_method X show_debug params render =
     (case prometheus_from_string X render of
        Ok metrics \<Rightarrow> Returns (Ok metrics)
      | Err (PromErr e) \<Rightarrow>
          Returns (Err (InternalError
            (case params of
               Some pre \<Rightarrow> ''failed to render metrics @prefix '' @ pre @ '' : '' @ show_debug e
             | None \<Rightarrow> ''failed to render metrics: '' @ show_debug e)))
      | Err (PromPanic m) \<Rightarrow> Panics m)"

end
