(* ===== verification/Prom_Correct.thy ===== *)
theory Prom_Correct
  imports Prom
begin

text \<open>
  Properties of the metrics that the webserver returns: which families of an exported text reach a
  client, what is kept of the quantiles of a summary, and when parsing panics.
\<close>

section \<open>Families\<close>

text \<open>A family of an exported text: the comments with its help and its type, and its samples.\<close>

type_synonym exported = "string \<times> string \<times> string list"

definition family_lines :: "exported \<Rightarrow> string list" where
  "family_lines f = (case f of (help, ty, samples) \<Rightarrow> help # ty # samples)"

definition exported_ok :: "exported \<Rightarrow> bool" where
  "exported_ok f \<longleftrightarrow>
     (case f of (help, ty, samples) \<Rightarrow>
        prefix ''#'' help \<and> 3 \<le> length (split_whitespace help) \<and>
        prefix ''#'' ty \<and> 4 \<le> length (split_whitespace ty) \<and> list_all (\<lambda>l. \<not> prefix ''#'' l) samples)"

lemma prom_samples:
  "list_all (\<lambda>l. \<not> prefix ''#'' l) ls \<Longrightarrow>
     try_fold (prom_step X) (ms, acc, n) (ls @ rest) = try_fold (prom_step X) (ms, acc @ ls, n) rest"
  by (induction ls arbitrary: acc) (simp_all add: prom_step_def)

lemma prom_families:
  assumes "list_all exported_ok fs"
  shows "try_fold (prom_step X) (ms, family_lines f, 2) (concat (map family_lines fs)) =
    map_ok (\<lambda>gs. (ms @ gs, family_lines (last (f # fs)), 2))
      (try_map (\<lambda>f. family_from_raw X (family_lines f)) (butlast (f # fs)))"
  using assms
proof (induction fs arbitrary: f ms)
  case (Cons g fs)
  obtain h t ss where g: "g = (h, t, ss)" by (cases g)
  then have ok: "prefix ''#'' h" "prefix ''#'' t" "list_all (\<lambda>l. \<not> prefix ''#'' l) ss"
    using Cons.prems by (simp_all add: exported_ok_def)
  show ?case
  proof (cases "family_from_raw X (family_lines f)")
    case (Inl e)
    with ok show ?thesis by (simp add: g family_lines_def prom_step_def)
  next
    case (Inr m)
    have "try_fold (prom_step X) (ms, family_lines f, 2) (concat (map family_lines (g # fs))) =
        try_fold (prom_step X) (ms @ [m], family_lines g, 2) (concat (map family_lines fs))"
      using Inr ok prom_samples [OF ok(3)] by (simp add: g family_lines_def prom_step_def numeral_2_eq_2)
    with Cons Inr show ?thesis by (auto split: sum.splits)
  qed
qed simp

lemma prom_all:
  assumes "list_all exported_ok fs"
  shows "map_ok fst (try_fold (prom_step X) ([], [], 0) (concat (map family_lines fs))) =
    try_map (\<lambda>f. family_from_raw X (family_lines f)) (butlast fs)"
proof (cases fs)
  case (Cons g gs)
  obtain h t ss where g: "g = (h, t, ss)" by (cases g)
  then have ok: "prefix ''#'' h" "prefix ''#'' t" "list_all (\<lambda>l. \<not> prefix ''#'' l) ss"
    using assms Cons by (simp_all add: exported_ok_def)
  have "try_fold (prom_step X) ([], [], 0) (concat (map family_lines fs)) =
      try_fold (prom_step X) ([], family_lines g, 2) (concat (map family_lines gs))"
    using ok prom_samples [OF ok(3)] by (simp add: Cons g family_lines_def prom_step_def numeral_2_eq_2)
  also have "\<dots> = map_ok (\<lambda>ms. ([] @ ms, family_lines (last fs), 2))
      (try_map (\<lambda>f. family_from_raw X (family_lines f)) (butlast fs))"
    using assms prom_families [of gs X "[]" g] by (simp add: Cons)
  finally show ?thesis by (cases "try_map (\<lambda>f. family_from_raw X (family_lines f)) (butlast fs)") simp_all
qed simp

section \<open>Quantiles and panics\<close>

text \<open>All quantiles of a summary are kept under one key, so only the last one remains.\<close>

lemma quantile_labels:
  assumes "\<forall>p \<in> set (su_quantiles su). fst p = ''quantile''"
  shows "\<forall>p \<in> set (su_quantiles (fold summary_label ps su)). fst p = ''quantile''"
  using assms
proof (induction ps arbitrary: su)
  case (Cons p ps)
  obtain k v where p: "p = (k, v)" by (cases p)
  have "\<forall>q \<in> set (im_insert ''quantile'' v m). fst q = ''quantile''"
    if "\<forall>q \<in> set m. fst q = ''quantile''" for m :: labels
    using that by (induction m) auto
  with Cons.prems have "\<forall>q \<in> set (su_quantiles (summary_label p su)). fst q = ''quantile''"
    by (simp add: p)
  from Cons.IH [OF this] show ?case by simp
qed simp

lemma summary_one_quantile:
  assumes "summary_from_raw X n ls = Ok su"
  shows "\<forall>p \<in> set (su_quantiles su). fst p = ''quantile''"
proof (rule try_fold_invariant [OF assms [unfolded summary_from_raw_def]])
  show "\<forall>p \<in> set (su_quantiles su'). fst p = ''quantile''"
    if "\<forall>p \<in> set (su_quantiles su). fst p = ''quantile''" and "summary_line X n su l = Ok su'" for su su' l
    using that quantile_labels [OF that(1)]
    by (auto simp: summary_line_def result_simps split: if_splits option.splits)
qed simp

lemma parse_no_panic: "parse_from_string X s \<noteq> Err (PromPanic m)"
  by (simp add: parse_from_string_def split: option.split)

lemma try_fold_no_panic:
  "(\<And>s x. f s x \<noteq> Err (PromPanic m)) \<Longrightarrow> try_fold f s xs \<noteq> Err (PromPanic m)"
  by (induction xs arbitrary: s) (auto split: sum.splits)

lemma try_map_no_panic: "(\<And>x. f x \<noteq> Err (PromPanic m)) \<Longrightarrow> try_map f xs \<noteq> Err (PromPanic m)"
  by (induction xs) (auto split: sum.splits)

lemma map_ok_eq_Err: "map_ok f x = Err e \<longleftrightarrow> x = Err e"
  by (cases x) auto

lemma summary_no_panic: "summary_from_raw X n ls \<noteq> Err (PromPanic m)"
  unfolding summary_from_raw_def
  by (rule try_fold_no_panic) (auto simp: summary_line_def map_ok_eq_Err parse_no_panic split: option.split)

lemma histogram_no_panic: "histogram_from_raw X n ls \<noteq> Err (PromPanic m)"
  unfolding histogram_from_raw_def
  by (rule try_fold_no_panic) (auto simp: histogram_line_def map_ok_eq_Err parse_no_panic split: option.split)

lemma family_data_no_panic: "family_data X n ty ls \<noteq> Err (PromPanic m)"
  unfolding family_data_def metric_from_string_def
  by (auto simp: map_ok_eq_Err group_line_def summary_no_panic histogram_no_panic parse_no_panic
      dest!: try_fold_no_panic [THEN notE, rotated] try_map_no_panic [THEN notE, rotated] split: metric_type.splits if_splits)

lemma family_no_panic: "exported_ok f \<Longrightarrow> family_from_raw X (family_lines f) \<noteq> Err (PromPanic m)"
  by (auto simp: exported_ok_def family_lines_def family_from_raw_def metric_help_from_raw_def metric_name_and_type_def
      Let_def and_then_eq_Err family_data_no_panic split: if_splits)

section \<open>The method\<close>

text \<open>
  C31. The metrics a client gets are the families of the exported text in their order, each parsed on
  its own, except that the last family is always missing; a prefix in the parameters has no effect
  on them. Parsing does not panic when every family has a help and a type comment.
\<close>

theorem metrics_last_lost:
  assumes "list_all exported_ok fs" and "str_lines (replace_newlines render) = concat (map family_lines fs)"
  shows "\<exists>e. metrics_method X show_debug params render =
    Returns (case try_map (\<lambda>f. family_from_raw X (family_lines f)) (butlast fs) of
      Ok metrics \<Rightarrow> Ok metrics | Err _ \<Rightarrow> Err (InternalError e))"
proof -
  have parsed: "prometheus_from_string X render = try_map (\<lambda>f. family_from_raw X (family_lines f)) (butlast fs)"
    using prom_all [OF assms(1)] assms(2) by (simp add: prometheus_from_string_def)
  have "try_map (\<lambda>f. if exported_ok f then family_from_raw X (family_lines f) else Err (PromErr [])) (butlast fs) \<noteq>
      Err (PromPanic m)" for m
    by (rule try_map_no_panic) (simp add: family_no_panic)
  moreover have "try_map (\<lambda>f. if exported_ok f then family_from_raw X (family_lines f) else Err (PromErr [])) (butlast fs) =
      try_map (\<lambda>f. family_from_raw X (family_lines f)) (butlast fs)"
    using assms(1) by (intro try_map_cong) (auto simp: list_all_iff dest: in_set_butlastD)
  ultimately show ?thesis
    by (auto simp: metrics_method_def parsed split: sum.splits prom_stop.splits)
qed

definition ex_regex :: prom_regex where
  "ex_regex =
     \<lparr>no_label = (\<lambda>s. if CHR ''{'' \<in> set s then None else Some (tl (dropWhile (\<lambda>c. c \<noteq> CHR '' '') s))),
      with_label = (\<lambda>s. Some (takeWhile (\<lambda>c. c \<noteq> CHR ''}'') (tl (dropWhile (\<lambda>c. c \<noteq> CHR ''{'') s)),
        tl (dropWhile (\<lambda>c. c \<noteq> CHR '' '') s))),
      label_pairs = (\<lambda>s. [(takeWhile (\<lambda>c. c \<noteq> CHR ''='') s, tl (dropWhile (\<lambda>c. c \<noteq> CHR ''='') s))])\<rparr>"

definition ex_families :: "exported list" where
  "ex_families =
     [(''# HELP go_routines Number of goroutines.'', ''# TYPE go_routines gauge'', [''go_routines 31'']),
      (''# HELP go_info Information.'', ''# TYPE go_info gauge'', [''go_info{version=1.15} 1''])]"

definition ex_render :: string where
  "ex_render = ''# HELP go_routines Number of goroutines.'' @ [newline] @ ''# TYPE go_routines gauge'' @ [newline] @
     ''go_routines 31'' @ [newline, newline] @ ''# HELP go_info Information.'' @ [newline] @
     ''# TYPE go_info gauge'' @ [newline] @ ''go_info{version=1.15} 1''"

lemma ex_families_ok: "list_all exported_ok ex_families"
  by code_simp

lemma ex_render_lines: "str_lines (replace_newlines ex_render) = concat (map family_lines ex_families)"
  by code_simp

lemma ex_parsed:
  "try_map (\<lambda>f. family_from_raw ex_regex (family_lines f)) (butlast ex_families) =
     Ok [\<lparr>mf_type = Gauge, mf_name = ''go_routines'', mf_help = ''Number of goroutines.'',
          mf_data = [MetricData \<lparr>me_labels = None, me_value = ''31''\<rparr>]\<rparr>]"
  by code_simp

theorem metrics_last_lost_witness:
  "\<exists>ms. metrics_method ex_regex id None ex_render = Returns (Ok ms) \<and> map mf_name ms = [''go_routines'']"
  using metrics_last_lost [OF ex_families_ok ex_render_lines, of ex_regex id None] by (simp add: ex_parsed)

end
