(* ===== verification/Cli.thy ===== *)
theory Cli
  imports Runner
begin

text \<open>
  The command line (\<open>cli.rs\<close>, \<open>cli/error.rs\<close>, \<open>main.rs\<close>): the commands, what the client of the RPC
  server does for them, and the start of the runtime up to the loop of the runner. The parser of
  the arguments is clap's; the connection, the console, the daemon and the pool of database
  connections are parameters.
\<close>

section \<open>Commands\<close>

record rpc_args =
  ra_host :: string
  ra_port :: u16
  ra_timeout :: duration

definition rpc_args_default :: rpc_args where
  "rpc_args_default = \<lparr>ra_host = ''::1'', ra_port = 3030, ra_timeout = from_secs 60\<rparr>"

datatype cli_command =
    StartCmd "string option" "string option" bool string
  | StopCmd rpc_args
  | PingCmd rpc_args
  | RunCmd rpc_args "string option" read_workflow

definition DEFAULT_DB_PATH :: string where "DEFAULT_DB_PATH = ''homestar.db''"
definition TMP_DIR :: string where "TMP_DIR = ''/tmp''"

text \<open>
  The arguments of \<open>start\<close>. An option with an environment variable and a default takes the value on
  the command line, else that of the variable, else the default.
\<close>

definition start_command ::
  "string option \<Rightarrow> string option \<Rightarrow> string option \<Rightarrow> bool \<Rightarrow> string option \<Rightarrow> cli_command" where
  "start_command db database_path config daemon dir =
     StartCmd (Some (unwrap_or db (unwrap_or database_path DEFAULT_DB_PATH))) config daemon (unwrap_or dir TMP_DIR)"

fun command_name :: "cli_command \<Rightarrow> string" where
  "command_name (StartCmd _ _ _ _) = ''start''"
| "command_name (StopCmd _) = ''stop''"
| "command_name (PingCmd _) = ''ping''"
| "command_name (RunCmd _ _ _) = ''run''"

section \<open>Commands for a running node\<close>

datatype cli_error =
    CliMessage string
  | CliRpc string
  | CliRpcMessage rpc_error
  | CliIo string

record ping =
  pi_address :: socket_addr
  pi_response :: string

datatype console = PingTable ping | AckTable ack_workflow

text \<open>The calls of the RPC client, each with a transport error or the result of the method.\<close>

record cli_host =
  build_runtime :: "string + unit"
  rpc_connect :: "socket_addr \<Rightarrow> duration \<Rightarrow> string + unit"
  call_ping :: "string + string"
  call_stop :: "string + (rpc_error + unit)"
  call_run :: "string option \<Rightarrow> read_workflow \<Rightarrow> string + (rpc_error + ack_workflow)"
  echo_table :: "console \<Rightarrow> string + unit"

definition rpc_client :: "cli_host \<Rightarrow> rpc_args \<Rightarrow> cli_error + socket_addr" where
  "rpc_client C args =
     (let addr = (ra_host args, ra_port args) in
      map_ok (\<lambda>_. addr) (map_err CliIo (rpc_connect C addr (ra_timeout args))))"

text \<open>The result holds what is shown on the console.\<close>

definition handle_rpc_command :: "cli_host \<Rightarrow> cli_command \<Rightarrow> cli_error + console option" where
  "handle_rpc_command C cmd =
     and_then (map_err CliIo (build_runtime C)) (\<lambda>_.
     case cmd of
       PingCmd args \<Rightarrow>
         and_then (rpc_client C args) (\<lambda>addr.
         and_then (map_err CliRpc (call_ping C)) (\<lambda>response.
         (let table = PingTable \<lparr>pi_address = addr, pi_response = response\<rparr> in
          map_ok (\<lambda>_. Some table) (map_err CliIo (echo_table C table)))))
     | StopCmd args \<Rightarrow>
         and_then (rpc_client C args) (\<lambda>addr.
         and_then (map_err CliRpc (call_stop C)) (\<lambda>res.
         map_ok (\<lambda>_. None) (map_err CliRpcMessage res)))
     | RunCmd args name file \<Rightarrow>
         and_then (rpc_client C args) (\<lambda>addr.
         and_then (map_err CliRpc (call_run C name file)) (\<lambda>res.
         and_then (map_err CliRpcMessage res) (\<lambda>response.
         map_ok (\<lambda>_. Some (AckTable response)) (map_err CliIo (echo_table C (AckTable response))))))
     | _ \<Rightarrow> Err (CliMessage (''Invalid command '' @ command_name cmd)))"

section \<open>The main function\<close>

text \<open>
  \<open>load_settings\<close> reads the file that is given or the defaults, \<open>setup_pool\<close> builds the pool of
  connections for a URL and runs the migrations, \<open>start_runner\<close> is the result of the runner.
\<close>

record main_host =
  load_settings :: "string option \<Rightarrow> string + node_settings"
  daemon_start :: "string \<Rightarrow> string + unit"
  setup_pool :: "node_settings \<Rightarrow> string \<Rightarrow> string + unit"
  start_runner :: "node_settings \<Rightarrow> string \<Rightarrow> string + unit"
  main_client :: cli_host

datatype main_result = RanNode node_settings string | RanCommand "console option"

definition launch_node ::
  "main_host \<Rightarrow> node_settings \<Rightarrow> string option \<Rightarrow> environment \<Rightarrow> (cli_error + main_result) outcome" where
  "launch_node M settings database_url env =
     (case pool_url settings database_url env of
        (url, env') \<Rightarrow>
          if \<not> is_ok (setup_pool M settings url) then Panics ''to setup database pool''
          else if \<not> is_ok (database_url_var env') then Panics ''database url to be provided''
          else if \<not> is_ok (start_runner M settings url) then Panics ''Failed to start runtime''
          else Returns (Ok (RanNode settings url)))"

definition main :: "main_host \<Rightarrow> environment \<Rightarrow> cli_command \<Rightarrow> (cli_error + main_result) outcome" where
  "main M env cmd =
     (case cmd of
        StartCmd database_url config daemonize dir \<Rightarrow>
          (case load_settings M config of
             Err _ \<Rightarrow> Panics ''runtime settings to be loaded''
           | Ok settings \<Rightarrow>
               if daemonize \<and> \<not> is_ok (daemon_start M dir)
               then Panics ''runner to be started as a daemon process''
               else launch_node M settings database_url env)
      | _ \<Rightarrow> Returns (map_ok RanCommand (handle_rpc_command (main_client M) cmd)))"

end
