(* ===== verification/Cli_Correct.thy ===== *)
theory Cli_Correct
  imports Cli Runner_Correct
begin

text \<open>
  Properties of the command line: the database a node is started with, and what becomes of the
  command to stop it.
\<close>

section \<open>Starting a node\<close>

lemma pool_url_given: "pool_url settings (Some url) env = (url, env\<lparr>env_database_url := Some url\<rparr>)"
  by (simp add: pool_url_def set_url_def)

lemma launch_node_given:
  "launch_node M settings (Some url) env =
     (if \<not> is_ok (setup_pool M settings url) then Panics ''to setup database pool''
      else if \<not> is_ok (start_runner M settings url) then Panics ''Failed to start runtime''
      else Returns (Ok (RanNode settings url)))"
  by (simp add: launch_node_def pool_url_given database_url_var_def)

text \<open>
  Without the default of the command line, the start panics when the variable is set nowhere,
  whatever the settings say.
\<close>

lemma start_without_url:
  "launch_node M settings None (env\<lparr>env_database_url := None, env_dotenv := None\<rparr>) \<noteq> Returns x"
  by (simp add: launch_node_def pool_url_def set_url_def database_url_var_def split: option.splits)

text \<open>
  C32. A node that is started from the command line uses the database given by the option, else by the
  variable DATABASE_PATH, else homestar.db. The variable DATABASE_URL, the file .env and the URL
  in the settings have no effect.
\<close>

theorem database_from_cli:
  assumes "main M env (start_command db path config daemon dir) = Returns (Ok (RanNode settings url))"
  shows "url = unwrap_or db (unwrap_or path ''homestar.db'') \<and>
    main M env' (start_command db path config daemon dir) = Returns (Ok (RanNode settings url))"
  using assms
  by (auto simp: main_def start_command_def DEFAULT_DB_PATH_def launch_node_given split: sum.splits if_splits)

definition ex_client :: "cli_host" where
  "ex_client =
     \<lparr>build_runtime = Ok (), rpc_connect = (\<lambda>_ _. Ok ()), call_ping = Ok rpc_ping, call_stop = Ok (rpc_stop (Ok ())),
      call_run = (\<lambda>_ _. Err ''deadline exceeded''), echo_table = (\<lambda>_. Ok ())\<rparr>"

definition ex_main :: "main_host" where
  "ex_main =
     \<lparr>load_settings = (\<lambda>_. Ok (node_default\<lparr>nd_db := (nd_db node_default)\<lparr>dbs_url := Some ''settings.db''\<rparr>\<rparr>)),
      daemon_start = (\<lambda>_. Ok ()), setup_pool = (\<lambda>_ _. Ok ()), start_runner = (\<lambda>_ _. Ok ()), main_client = ex_client\<rparr>"

theorem database_from_cli_witness:
  "\<exists>settings. main ex_main \<lparr>env_database_url = Some ''url.db'', env_dotenv = None\<rparr>
       (start_command None None (Some ''config.toml'') False None) = Returns (Ok (RanNode settings ''homestar.db'')) \<and>
     dbs_url (nd_db settings) = Some ''settings.db''"
proof -
  obtain settings url where "main ex_main \<lparr>env_database_url = None, env_dotenv = None\<rparr>
      (start_command None None (Some ''config.toml'') False None) = Returns (Ok (RanNode settings url))"
    and "dbs_url (nd_db settings) = Some ''settings.db''"
    by (simp add: main_def start_command_def launch_node_given ex_main_def)
  with database_from_cli [of ex_main _ None None "Some ''config.toml''" False None settings url] show ?thesis
    by auto
qed

section \<open>Stopping a node\<close>

text \<open>
  C38. The command to stop a node succeeds and is then lost: the RPC server passes it on without a
  channel for the answer, which the loop of the runner expects, so the runner does not change and
  goes on. The same message with a channel would end it.
\<close>

theorem stop_ignored:
  assumes "build_runtime C = Ok ()" and "rpc_connect C (ra_host args, ra_port args) (ra_timeout args) = Ok ()"
    and "call_stop C = Ok (rpc_stop (Ok ()))"
  shows "handle_rpc_command C (StopCmd args) = Ok None \<and> serve_rpc R t rpc_stop_message r = (False, r) \<and>
    serve_rpc R t (ShutdownCmd, Some tx) r = (True, shutdown (mo_stages t) (mo_tx t) (mo_tx2 t) r)"
  using assms
  by (simp add: handle_rpc_command_def rpc_client_def rpc_stop_def rpc_stop_message_def serve_rpc_def
      handle_command_message_def)

theorem stop_ignored_witness:
  "handle_rpc_command ex_client (StopCmd rpc_args_default) = Ok None \<and>
   serve_rpc idle_host idle_moment rpc_stop_message idle_runner = (False, idle_runner)"
  using stop_ignored [of ex_client rpc_args_default idle_host idle_moment idle_runner] by (simp add: ex_client_def)

end
