(* ===== verification/Functions.thy ===== *)
theory Functions
  imports Wasm_Exec "HOL-Library.Sublist"
begin

text \<open>
  The functions of the Wasm modules that come with the repository (\<open>homestar-functions\<close>). The
  modules are built in release mode, where the addition of integers wraps around. The image crate,
  the base64 crate and the default hasher are parameters; \<open>unwrap\<close>, \<open>assert\<close> and indexing out of
  range panic.
\<close>

section \<open>Numbers and strings\<close>

definition fn_add_one :: "32 word \<Rightarrow> 32 word" where "fn_add_one a = a + 1"

definition fn_add_two :: "32 word \<Rightarrow> 32 word" where "fn_add_two a = a + 2"

definition test_add_one :: "32 word \<Rightarrow> 32 word" where "test_add_one a = a + 1"

definition append_string :: "string \<Rightarrow> string" where
  "append_string a = a @ [CHR 0x0A] @ ''world''"

definition join_strings :: "string \<Rightarrow> string \<Rightarrow> string" where
  "join_strings a b = a @ b"

text \<open>A decimal number, and a number padded with zeros.\<close>

fun show_nat :: "nat \<Rightarrow> string" where
  "show_nat n = (if n < 10 then [char_of (48 + n)] else show_nat (n div 10) @ [char_of (48 + n mod 10)])"

declare show_nat.simps [simp del]

definition padded :: "nat \<Rightarrow> nat \<Rightarrow> string" where
  "padded width n = replicate (width - length (show_nat n)) CHR ''0'' @ show_nat n"

definition host_fmt_current_time :: "wtime \<Rightarrow> string" where
  "host_fmt_current_time t =
     padded 2 (unat (seconds t)) @ '':'' @ padded 2 (unat (milliseconds t)) @ ''.'' @ padded 3 (unat (nanoseconds t))"

section \<open>Matrices\<close>

type_synonym matrix = "16 word list list"

definition transpose_matrix :: "matrix \<Rightarrow> matrix outcome" where
  "transpose_matrix matrix =
     (case matrix of
        [] \<Rightarrow> Panics ''assertion failed: !matrix.is_empty()''
      | first # _ \<Rightarrow>
          let len = length first in
          if list_ex (\<lambda>row. length row < len) matrix then Panics ''index out of bounds''
          else Returns (map (\<lambda>i. map (\<lambda>row. row ! i) matrix) [0..<len]))"

section \<open>Images\<close>

record 'img image_host =
  load_png :: "bytes \<Rightarrow> string + 'img"
  write_png :: "'img \<Rightarrow> string + bytes"
  img_blur :: "u32 \<Rightarrow> 'img \<Rightarrow> 'img"
  img_crop :: "u32 \<Rightarrow> u32 \<Rightarrow> u32 \<Rightarrow> u32 \<Rightarrow> 'img \<Rightarrow> 'img"
  img_grayscale :: "'img \<Rightarrow> 'img"
  img_rotate90 :: "'img \<Rightarrow> 'img"
  base64_decode :: "string \<Rightarrow> string + bytes"
  default_hash :: "string \<Rightarrow> u64"

fun unwrapped :: "string + 'a \<Rightarrow> 'a outcome" where
  "unwrapped (Ok x) = Returns x"
| "unwrapped (Err e) = Panics e"

fun then_do :: "'a outcome \<Rightarrow> ('a \<Rightarrow> 'b outcome) \<Rightarrow> 'b outcome" where
  "then_do (Returns x) f = f x"
| "then_do (Panics m) f = Panics m"

definition edit_png :: "'img image_host \<Rightarrow> ('img \<Rightarrow> 'img) \<Rightarrow> bytes \<Rightarrow> bytes outcome" where
  "edit_png I f data = then_do (unwrapped (load_png I data)) (\<lambda>img. unwrapped (write_png I (f img)))"

definition fn_blur :: "'img image_host \<Rightarrow> bytes \<Rightarrow> u32 \<Rightarrow> bytes outcome" where
  "fn_blur I data sigma = edit_png I (img_blur I sigma) data"

definition fn_crop :: "'img image_host \<Rightarrow> bytes \<Rightarrow> u32 \<Rightarrow> u32 \<Rightarrow> u32 \<Rightarrow> u32 \<Rightarrow> bytes outcome" where
  "fn_crop I data x y w h = edit_png I (img_crop I x y w h) data"

definition fn_grayscale :: "'img image_host \<Rightarrow> bytes \<Rightarrow> bytes outcome" where
  "fn_grayscale I data = edit_png I (img_grayscale I) data"

definition fn_rotate90 :: "'img image_host \<Rightarrow> bytes \<Rightarrow> bytes outcome" where
  "fn_rotate90 I data = edit_png I (img_rotate90 I) data"

text \<open>\<open>str::replace\<close> of a pattern by the empty string.\<close>

function remove_all :: "string \<Rightarrow> string \<Rightarrow> string" where
  "remove_all pat [] = []"
| "remove_all pat (c # s) =
     (if pat \<noteq> [] \<and> prefix pat (c # s) then remove_all pat (drop (length pat) (c # s)) else c # remove_all pat s)"
  by pat_completeness auto

termination
  by (relation "measure (length \<circ> snd)") auto

definition DATA_URL :: string where "DATA_URL = ''data:image/png;base64,''"

definition from_base64 :: "'img image_host \<Rightarrow> string \<Rightarrow> bytes outcome" where
  "from_base64 I data = unwrapped (base64_decode I (remove_all DATA_URL data))"

definition fn_blur_base64 :: "'img image_host \<Rightarrow> string \<Rightarrow> u32 \<Rightarrow> bytes outcome" where
  "fn_blur_base64 I data sigma = then_do (from_base64 I data) (\<lambda>decoded. fn_blur I decoded sigma)"

definition fn_crop_base64 :: "'img image_host \<Rightarrow> string \<Rightarrow> u32 \<Rightarrow> u32 \<Rightarrow> u32 \<Rightarrow> u32 \<Rightarrow> bytes outcome" where
  "fn_crop_base64 I data x y w h = then_do (from_base64 I data) (\<lambda>decoded. fn_crop I decoded x y w h)"

definition fn_grayscale_base64 :: "'img image_host \<Rightarrow> string \<Rightarrow> bytes outcome" where
  "fn_grayscale_base64 I data = then_do (from_base64 I data) (fn_grayscale I)"

definition fn_rotate90_base64 :: "'img image_host \<Rightarrow> string \<Rightarrow> bytes outcome" where
  "fn_rotate90_base64 I data = then_do (from_base64 I data) (fn_rotate90 I)"

section \<open>Hashing\<close>

definition to_be_bytes :: "u64 \<Rightarrow> bytes" where
  "to_be_bytes w = map (\<lambda>i. ucast (drop_bit (56 - 8 * i) w)) [0..<8]"

definition fn_hash :: "'img image_host \<Rightarrow> string \<Rightarrow> bytes" where
  "fn_hash I s = to_be_bytes (default_hash I s)"

section \<open>Lemmas\<close>

definition rectangular :: "nat \<Rightarrow> nat \<Rightarrow> matrix \<Rightarrow> bool" where
  "rectangular n k m \<longleftrightarrow> length m = n \<and> list_all (\<lambda>row. length row = k) m"

lemma transpose_rectangular:
  assumes "rectangular n k m" and "0 < n"
  shows "transpose_matrix m = Returns (map (\<lambda>i. map (\<lambda>row. row ! i) m) [0..<k])"
    and "rectangular k n (map (\<lambda>i. map (\<lambda>row. row ! i) m) [0..<k])"
  using assms
  by (cases m; auto simp: transpose_matrix_def rectangular_def list_all_iff list_ex_iff)+

text \<open>Transposing twice gives the matrix back, unless its rows are empty.\<close>

lemma transpose_twice:
  assumes "rectangular n k m" and "0 < n" and "0 < k"
  shows "then_do (transpose_matrix m) transpose_matrix = Returns m"
proof -
  have "map (\<lambda>i. map (\<lambda>row. row ! i) (map (\<lambda>i. map (\<lambda>row. row ! i) m) [0..<k])) [0..<n] = m"
    using assms(1) by (auto simp: rectangular_def list_all_iff o_def intro!: nth_equalityI)
  with transpose_rectangular [OF assms(1,2)] transpose_rectangular(1) [OF _ assms(3)] show ?thesis
    by simp
qed

lemma transpose_panics: "transpose_matrix m = Panics e \<longleftrightarrow>
  m = [] \<and> e = ''assertion failed: !matrix.is_empty()'' \<or>
  m \<noteq> [] \<and> e = ''index out of bounds'' \<and> (\<exists>row \<in> set m. length row < length (hd m))"
  by (cases m) (auto simp: transpose_matrix_def list_ex_iff Let_def split: if_splits)

lemma be_bytes_inj: "to_be_bytes v = to_be_bytes w \<Longrightarrow> v = w"
proof (rule bit_word_eqI)
  fix j
  assume eq: "to_be_bytes v = to_be_bytes w" and j: "j < LENGTH(64)"
  let ?i = "7 - j div 8"
  have byte: "to_be_bytes x ! ?i = ucast (drop_bit (56 - 8 * ?i) x)" for x
    unfolding to_be_bytes_def by (subst nth_map, simp, subst nth_upt, simp_all)
  from eq have "to_be_bytes v ! ?i = to_be_bytes w ! ?i" by simp
  then have "bit (ucast (drop_bit (56 - 8 * ?i) v) :: u8) (j mod 8) = bit (ucast (drop_bit (56 - 8 * ?i) w) :: u8) (j mod 8)"
    by (simp add: byte)
  moreover have "56 - 8 * ?i + j mod 8 = j" using j by simp presburger
  ultimately show "bit v j = bit w j"
    using j by (simp add: bit_simps)
qed

end
