(* ===== verification/Metrics.thy ===== *)
theory Metrics
  imports Settings
begin

text \<open>
  The metrics of the node (\<open>metrics/node.rs\<close>): what is described to the recorder, and the gauges that
  one collection sets. The figures are sysinfo's, the conversions to floating-point numbers and to
  megabytes are parameters; a floating-point number is its bit pattern.
\<close>

section \<open>Descriptions\<close>

datatype metric_unit = UnitBytes | UnitSeconds | UnitPercent

datatype described =
    DescribeGauge (described_name: string) metric_unit string
  | DescribeCounter (described_name: string) metric_unit string

definition metrics_describe :: "described list" where
  "metrics_describe =
     [DescribeGauge ''system_available_memory_bytes'' UnitBytes ''The amount of available memory.'',
      DescribeGauge ''system_used_memory_bytes'' UnitBytes ''The amount of used memory.'',
      DescribeGauge ''system_free_swap_bytes'' UnitBytes ''The amount of free swap space.'',
      DescribeGauge ''system_used_swap_bytes'' UnitBytes ''The amount of used swap space.'',
      DescribeGauge ''system_disk_available_space_bytes'' UnitBytes ''The total amount of available disk space.'',
      DescribeGauge ''system_uptime_seconds'' UnitSeconds ''The total system uptime.'',
      DescribeGauge ''system_load_average_percentage'' UnitPercent ''The load average over a five minute interval.'',
      DescribeGauge ''process_cpu_usage_percentage'' UnitPercent ''The CPU percentage used.'',
      DescribeGauge ''process_virtual_memory_bytes'' UnitBytes ''The virtual memory size in bytes.'',
      DescribeGauge ''process_memory_bytes'' UnitBytes ''Memory size in bytes.'',
      DescribeGauge ''process_disk_total_written_bytes'' UnitBytes ''The total bytes written to disk.'',
      DescribeGauge ''process_disk_written_bytes'' UnitBytes ''The bytes written to disk since last refresh.'',
      DescribeGauge ''process_disk_total_read_bytes'' UnitBytes ''Total bytes read from disk.'',
      DescribeGauge ''process_disk_read_bytes'' UnitBytes ''The bytes read from disk since last refresh.'',
      DescribeCounter ''process_uptime_seconds'' UnitSeconds ''How much time the process has been running in seconds.'',
      DescribeCounter ''network_transmitted_bytes'' UnitBytes ''The bytes transmitted since last refresh.'',
      DescribeCounter ''network_received_bytes'' UnitBytes ''The bytes received since last refresh.'',
      DescribeCounter ''database_size_bytes'' UnitBytes ''The sqlite database size.'']"

section \<open>Collection\<close>

record process_info =
  pr_cpu_usage :: u32
  pr_virtual_memory :: u64
  pr_memory :: u64
  pr_total_written_bytes :: u64
  pr_written_bytes :: u64
  pr_total_read_bytes :: u64
  pr_read_bytes :: u64
  pr_run_time :: u64

record sys_info =
  si_available_memory :: u64
  si_used_memory :: u64
  si_free_swap :: u64
  si_used_swap :: u64
  si_disks :: "u64 list"
  si_uptime :: u64
  si_load_five :: u64
  si_pid :: "string + nat"
  si_processes :: "(nat, process_info) index_map"
  si_core_count :: "nat option"
  si_networks :: "(string \<times> u64 \<times> u64) list"

text \<open>
  \<open>u64_as_f64\<close> is the cast, \<open>cpu_per_core\<close> the quotient of the usage and the number of cores as an
  \<open>f64\<close>, \<open>adjusted_mb\<close> the value of a size in megabytes, \<open>file_len\<close> the length of a file.
\<close>

record metrics_host =
  u64_as_f64 :: "u64 \<Rightarrow> u64"
  cpu_per_core :: "u32 \<Rightarrow> nat \<Rightarrow> u64"
  adjusted_mb :: "u64 \<Rightarrow> u64"
  file_len :: "string \<Rightarrow> string + u64"

definition db_size :: "metrics_host \<Rightarrow> environment \<Rightarrow> anyhow + u64" where
  "db_size M env =
     and_then (database_url_var env) (\<lambda>url.
     map_ok (adjusted_mb M) (map_err Msg (file_len M url)))"

definition compute_available_disk_space :: "u64 list \<Rightarrow> u64" where
  "compute_available_disk_space disks = fold (\<lambda>disk acc. acc + disk) disks 0"

definition compute_network_transmitted :: "(string \<times> u64 \<times> u64) list \<Rightarrow> u64" where
  "compute_network_transmitted networks = fold (\<lambda>(_, transmitted, _) acc. acc + transmitted) networks 0"

definition compute_network_received :: "(string \<times> u64 \<times> u64) list \<Rightarrow> u64" where
  "compute_network_received networks = fold (\<lambda>(_, _, received) acc. acc + received) networks 0"

definition system_gauges :: "metrics_host \<Rightarrow> sys_info \<Rightarrow> (string \<times> u64) list" where
  "system_gauges M sys =
     [(''system_available_memory_bytes'', u64_as_f64 M (si_available_memory sys)),
      (''system_used_memory_bytes'', u64_as_f64 M (si_used_memory sys)),
      (''system_free_swap_bytes'', u64_as_f64 M (si_free_swap sys)),
      (''system_used_swap_bytes'', u64_as_f64 M (si_used_swap sys)),
      (''system_disk_available_space_bytes'', u64_as_f64 M (compute_available_disk_space (si_disks sys))),
      (''system_uptime_seconds'', u64_as_f64 M (si_uptime sys)),
      (''system_load_average_percentage'', si_load_five sys)]"

definition process_gauges :: "metrics_host \<Rightarrow> nat \<Rightarrow> process_info \<Rightarrow> (string \<times> u64) list" where
  "process_gauges M cpus pr =
     [(''process_cpu_usage_percentage'', cpu_per_core M (pr_cpu_usage pr) cpus),
      (''process_virtual_memory_bytes'', u64_as_f64 M (pr_virtual_memory pr)),
      (''process_memory_bytes'', u64_as_f64 M (pr_memory pr)),
      (''process_disk_total_written_bytes'', u64_as_f64 M (pr_total_written_bytes pr)),
      (''process_disk_written_bytes'', u64_as_f64 M (pr_written_bytes pr)),
      (''process_disk_total_read_bytes'', u64_as_f64 M (pr_total_read_bytes pr)),
      (''process_disk_read_bytes'', u64_as_f64 M (pr_read_bytes pr)),
      (''process_uptime_seconds'', u64_as_f64 M (pr_run_time pr))]"

text \<open>The gauges that are set, in order, and the result: those before an error stay set.\<close>

definition collect_stats ::
  "metrics_host \<Rightarrow> environment \<Rightarrow> sys_info \<Rightarrow> (string \<times> u64) list \<times> (anyhow + unit)" where
  "collect_stats M env sys =
     (case si_pid sys of
        Err e \<Rightarrow> (system_gauges M sys, Err (Msg (''no process pid found '' @ e)))
      | Ok pid \<Rightarrow>
          (case im_get (si_processes sys) pid of
             None \<Rightarrow> (system_gauges M sys, Err (Msg ''no process associated with pid''))
           | Some pr \<Rightarrow>
               (system_gauges M sys @ process_gauges M (unwrap_or (si_core_count sys) 1) pr @
                [(''network_transmitted_bytes'', u64_as_f64 M (compute_network_transmitted (si_networks sys))),
                 (''network_received_bytes'', u64_as_f64 M (compute_network_received (si_networks sys)))] @
                (case db_size M env of Ok mb \<Rightarrow> [(''database_size_bytes'', mb)] | Err _ \<Rightarrow> []),
                Ok ())))"

section \<open>Lemmas\<close>

text \<open>Every gauge that is set has been described, each at most once per collection.\<close>

lemma described_names:
  "map described_name metrics_describe =
     map fst (system_gauges M sys) @ map fst (process_gauges M n pr) @
     [''network_transmitted_bytes'', ''network_received_bytes'', ''database_size_bytes'']"
  by (simp add: metrics_describe_def system_gauges_def process_gauges_def)

lemma collected_described:
  "\<exists>k. map fst (fst (collect_stats M env sys)) = take k (map described_name metrics_describe)"
proof (cases "si_pid sys")
  case (Inl e)
  then show ?thesis
    by (intro exI [of _ 7]) (simp add: collect_stats_def metrics_describe_def system_gauges_def)
next
  case (Inr pid)
  show ?thesis
  proof (cases "im_get (si_processes sys) pid")
    case None
    with Inr show ?thesis
      by (intro exI [of _ 7]) (simp add: collect_stats_def metrics_describe_def system_gauges_def)
  next
    case (Some pr)
    with Inr show ?thesis
      by (intro exI [of _ "if is_ok (db_size M env) then 18 else 17"])
        (auto simp: collect_stats_def metrics_describe_def system_gauges_def process_gauges_def split: sum.splits)
  qed
qed

text \<open>The size of the database is described in bytes, and set in megabytes.\<close>

lemma database_size_unit:
  assumes "(''database_size_bytes'', v) \<in> set (fst (collect_stats M env sys))"
  shows "\<exists>url len. database_url_var env = Ok url \<and> file_len M url = Ok len \<and> v = adjusted_mb M len"
  using assms
  by (auto simp: collect_stats_def system_gauges_def process_gauges_def db_size_def result_simps
      split: sum.splits option.splits)

end
