(* ===== verification/Spec2Isabelle.thy ===== *)
theory Spec2Isabelle
  imports Run_Correct Wasm_Correct Store_Correct Net_Correct Web_Correct Runner_Correct Fetch_Correct Prom_Correct Cli_Correct Functions Metrics
begin

text \<open>
  Homestar is a runtime for workflows of content-addressed WebAssembly functions. A workflow is a
  list of tasks; an argument of a task may await the result of another task. A node orders the
  tasks, runs them, records a receipt for every result, and shares receipts and the progress of
  workflows with other nodes, so that a result that is known anywhere is not computed again. This
  development models the crates \<^verbatim>\<open>homestar-core\<close>, \<^verbatim>\<open>homestar-wasm\<close>, \<^verbatim>\<open>homestar-runtime\<close> and
  \<^verbatim>\<open>homestar-functions\<close> as executable definitions and step relations, and proves what makes them
  correct. Paths below are relative to \<^verbatim>\<open>src/\<close>; \<^verbatim>\<open>runtime/\<close> stands for \<^verbatim>\<open>homestar-runtime/src/\<close>.

  \<^bold>\<open>How the parts interact.\<close> A client hands a workflow to the runner, over the RPC server of the
  command line or over the webserver. The runner creates a worker, with a deadline, and spawns its
  run. The worker builds the graph of the workflow, looks for receipts of earlier runs to find the
  batch to resume at, fetches the resources of the tasks that remain, and runs batch after batch:
  it resolves the awaited results of a task (from the link map of the run, the database, or other
  nodes through the event handler), interprets the arguments as component values, calls the
  function, and stores the receipt. Every stored receipt is announced to the event handler, which
  notifies websocket clients, gossips the receipt, and puts it and the workflow's progress in the
  DHT. The event handler also serves the events of the swarm and answers the requests of workers
  and of other nodes.

  \<^bold>\<open>Foundations.\<close>
  \<^item> \<^verbatim>\<open>Prelude\<close>: Rust's \<^verbatim>\<open>Result\<close> (\<^verbatim>\<open>'e + 't\<close>, \<^verbatim>\<open>Ok\<close> is \<^verbatim>\<open>Inr\<close>) with its combinators, machine integers
    as words, durations, \<^verbatim>\<open>BTreeMap\<close> as ordered lists (\<^verbatim>\<open>bt_*\<close>), \<^verbatim>\<open>IndexMap\<close> and \<^verbatim>\<open>HashMap\<close> as association
    lists (\<^verbatim>\<open>im_*\<close>), a call that may panic (\<^verbatim>\<open>outcome\<close>); the collections \<^verbatim>\<open>result_simps\<close>, \<^verbatim>\<open>map_laws\<close>
    and \<^verbatim>\<open>map_invs\<close> on which the component proofs run.
  \<^item> \<^verbatim>\<open>Ipld\<close>: the IPLD data model, CIDs, the errors of the core and its codec traits
    (\<^verbatim>\<open>homestar-core/src/ipld/\<close>, \<^verbatim>\<open>error.rs\<close>). The locale \<^verbatim>\<open>ipld_codec\<close> is the contract of a type with an
    IPLD form; every such type of the program interprets it.
  \<^item> \<^verbatim>\<open>Atoms\<close>, \<^verbatim>\<open>Input\<close>, \<^verbatim>\<open>Workflow_Core\<close>: the types of \<^verbatim>\<open>homestar-core/src/workflow/\<close> with their
    conversions, the resolution of promises in arguments, and CIDs of instructions and workflows.
  \<^item> \<^verbatim>\<open>Wasm_Val\<close>, \<^verbatim>\<open>Wasm_Exec\<close>: \<^verbatim>\<open>homestar-wasm/src/wasmtime/\<close>: the interpreter between IPLD and
    component values, and the world, store, limits and host functions of an execution.
  \<^item> \<^verbatim>\<open>Functions\<close>: the guest functions of \<^verbatim>\<open>homestar-functions\<close>.

  \<^bold>\<open>The runtime.\<close>
  \<^item> \<^verbatim>\<open>Rt_Workflow\<close>, \<^verbatim>\<open>Scheduler\<close>: the graph of a workflow and its resources (\<^verbatim>\<open>runtime/workflow.rs\<close>) and
    the split of its schedule at the point to resume (\<^verbatim>\<open>runtime/scheduler.rs\<close>).
  \<^item> \<^verbatim>\<open>Rt_Receipt\<close>, \<^verbatim>\<open>Db\<close>: receipts, workflow information, capsules and gossip messages
    (\<^verbatim>\<open>runtime/receipt.rs\<close>, \<^verbatim>\<open>workflow/info.rs\<close>, \<^verbatim>\<open>network/pubsub/message.rs\<close>) and the tables of the database
    with the queries on them (\<^verbatim>\<open>runtime/db.rs\<close>). The locale \<^verbatim>\<open>receipt_store\<close> is what the worker relies on.
  \<^item> \<^verbatim>\<open>Worker\<close>: \<^verbatim>\<open>runtime/worker.rs\<close>, \<^verbatim>\<open>tasks.rs\<close> and the set-up of workflow information. A run is the
    relation \<^verbatim>\<open>wstep\<close>: start a batch, run one of the spawned tasks, join one of the finished tasks,
    return. Tasks of a batch interleave freely. What a step depends on besides the state of the
    worker is a value of \<^verbatim>\<open>surroundings\<close>, which may differ from step to step: what the network answers to a
    query, whether the pool gives a connection, a query the database refuses, and whether the
    event channel has room. A step that sends needs room. A guest function may not return
    (\<^verbatim>\<open>call_returns\<close>), and then its task does not finish.
  \<^item> \<^verbatim>\<open>Events\<close>, \<^verbatim>\<open>Handler\<close>, \<^verbatim>\<open>Swarm\<close>, \<^verbatim>\<open>Swarm_Events\<close>: \<^verbatim>\<open>runtime/event_handler.rs\<close>, the modules under it, and
    \<^verbatim>\<open>network/swarm.rs\<close>. Calls to libp2p are recorded in order in the state. The loop of the handler
    is \<^verbatim>\<open>hstep\<close>: an event of its channel, an event of the swarm, an event of another component that
    is sent to it, or a timer of its cache. Entries of the cache may also expire while the handler
    inserts another one (\<^verbatim>\<open>evicted_keys\<close>), and their events are then sent to its own channel.
  \<^item> \<^verbatim>\<open>Runner\<close>: \<^verbatim>\<open>runtime/runner.rs\<close>, \<^verbatim>\<open>runner/\<close> and \<^verbatim>\<open>network/rpc.rs\<close>. The loop of \<^verbatim>\<open>serve\<close> is \<^verbatim>\<open>rstep\<close>.
  \<^item> \<^verbatim>\<open>Webserver\<close>, \<^verbatim>\<open>Prom\<close>: \<^verbatim>\<open>network/webserver.rs\<close> and the modules under it: the port, the methods, the
    loops that serve subscriptions, and the parser of exported metrics.
  \<^item> \<^verbatim>\<open>Fetch\<close>, \<^verbatim>\<open>Settings\<close>, \<^verbatim>\<open>Cli\<close>, \<^verbatim>\<open>Metrics\<close>: \<^verbatim>\<open>tasks/fetch.rs\<close> with \<^verbatim>\<open>network/ipfs.rs\<close>, \<^verbatim>\<open>settings.rs\<close> with the
    key pair, \<^verbatim>\<open>cli.rs\<close> with \<^verbatim>\<open>main.rs\<close>, and \<^verbatim>\<open>metrics/node.rs\<close>.

  \<^bold>\<open>Third-party code\<close> is given by records of functions, which the definitions take as arguments:
  \<^verbatim>\<open>deps\<close> (serde, encoders and hashes of libipld), \<^verbatim>\<open>wasm_deps\<close>, \<^verbatim>\<open>wasm_host\<close> and \<^verbatim>\<open>engine_host\<close> (wasmtime),
  \<^verbatim>\<open>net_deps\<close> and \<^verbatim>\<open>swarm_host\<close> (libp2p), \<^verbatim>\<open>key_deps\<close>, \<^verbatim>\<open>sink_host\<close> (jsonrpsee), \<^verbatim>\<open>file_host\<close>,
  \<^verbatim>\<open>runner_host\<close>, \<^verbatim>\<open>fetch_host\<close>, \<^verbatim>\<open>prom_regex\<close>, \<^verbatim>\<open>cli_host\<close>, \<^verbatim>\<open>main_host\<close>, \<^verbatim>\<open>metrics_host\<close>, \<^verbatim>\<open>image_host\<close>. What is
  relied on is a named hypothesis of the theorems that need it, such as \<^verbatim>\<open>serde_ok\<close> (serde reads a
  value exactly from its own form), \<^verbatim>\<open>cid_text_ok\<close>, \<^verbatim>\<open>cid_bytes_ok\<close> and \<^verbatim>\<open>cbor_ok\<close> (what is written is
  read back), or that a schedule contains the nodes of its graph after what they depend on.
  \<^verbatim>\<open>Instances\<close>, \<^verbatim>\<open>Run_Example\<close> and the sections on concrete data give instances that satisfy them,
  and the witnesses apply the properties there.

  \<^bold>\<open>What is shown.\<close>
  \<^item> \<^verbatim>\<open>Core_Correct\<close>: workflows survive the way to IPLD and back, and are determined by their CIDs as
    long as encodings do not collide; resolution removes exactly the promises that are answered.
  \<^item> \<^verbatim>\<open>Wasm_Correct\<close>: exact values survive the interpreter, where it panics, the limit on memory,
    also when growths fail, and that tasks run without the limits they ask for.
  \<^item> \<^verbatim>\<open>Store_Correct\<close>: the constraints of the tables hold after every sequence of operations, the
    table of receipts refines a map, the information of a workflow counts a committed receipt once,
    and which notifications are read back.
  \<^item> \<^verbatim>\<open>Run_Correct\<close>: the scheduler splits the schedule where the receipts end; a run keeps its invariant
    under every interleaving, refines step by step an abstract run (\<^verbatim>\<open>spec_step\<close>) that computes the
    tasks of its batches and records and announces their receipts, is bounded, can always return as
    long as the network sends no receipt, guest functions return and the event channel gets room,
    answers every promise between tasks from the link map when nothing fails, and has recorded
    every task when it completes. Beside this: what failures, receipts from the network and batches
    that are partly done do to a run.
  \<^item> \<^verbatim>\<open>Handler_Laws\<close>, \<^verbatim>\<open>Net_Correct\<close>: the invariant of the event handler, that its database changes by
    the receipts it is gossiped and by nothing else, answers at most as often as asked, the limit on connections, the delivery of receipts and workflow information between two nodes
    over the DHT, gossip and requests, and when the handler blocks on its own channel.
  \<^item> \<^verbatim>\<open>Runner_Laws\<close>, \<^verbatim>\<open>Runner_Correct\<close>: the invariant of the runner, one answer per request, deadlines,
    the shutdown, and the run of a workflow that is already running.
  \<^item> \<^verbatim>\<open>Web_Correct\<close>, \<^verbatim>\<open>Prom_Correct\<close>, \<^verbatim>\<open>Fetch_Correct\<close>, \<^verbatim>\<open>Cli_Correct\<close>: the port and what subscribers receive (the
    locale \<^verbatim>\<open>subscription_loop\<close> has both loops as instances), the metrics that reach a client, the
    resources a run has, the database a node uses, and what stopping a node does.
  \<^item> This theory: the way of a result through worker, database, event handler and webserver to the
    client that asked for the run and is subscribed to it when the handler comes to the result.

  \<^bold>\<open>Choices of the model.\<close> No definition uses fuel. Loops that end are recursive functions, with a
  termination proof where the recursion is not structural; loops that may run for ever are step
  relations, and that a run of a worker ends is shown by the measure \<^verbatim>\<open>wmeasure\<close>. The lookups and
  the call of one task are one step of \<^verbatim>\<open>wstep\<close>: the code may also switch between tasks at the
  awaits inside, which the model does not; a task that waits for a lock that is never released
  stays in \<^verbatim>\<open>ws_waiting\<close>. The garbage collection of the runner sees the handles that are finished at
  one moment. A bounded channel is a list with a capacity, and a full one blocks the sender. A
  shutdown is a list of stages of which the drain timeout may cut off the last ones. A panic is a
  value of \<^verbatim>\<open>outcome\<close> or an error. Integers wrap around as in a release build. Instants are durations
  since the creation of the state that holds them. During a run the worker is the only one that
  changes the database: what the event handler or another worker stores meanwhile is not part of
  \<^verbatim>\<open>wstep\<close>. Queries return rows in the order in which they were inserted, which is what SQLite does for
  these tables and no part of its documentation. In the event handler the pool may refuse a
  connection (\<^verbatim>\<open>pool_get\<close>), while a query on a connection fails only for the reasons the tables
  give. The features are those of the default build: \<^verbatim>\<open>ipfs\<close>, \<^verbatim>\<open>monitoring\<close> and \<^verbatim>\<open>websocket-notify\<close>.

  \<^bold>\<open>Not modelled.\<close>
  \<^item> Output: the tables of \<^verbatim>\<open>cli/show.rs\<close> and \<^verbatim>\<open>cli/\<close> formatting, \<^verbatim>\<open>logger.rs\<close>, log lines everywhere.
  \<^item> Process set-up: \<^verbatim>\<open>daemon.rs\<close>, the recorder of \<^verbatim>\<open>metrics/exporter.rs\<close>, the timer around the collection
    of metrics, the tokio runtime, signals. Their results are inputs where something depends on them.
  \<^item> \<^verbatim>\<open>channel.rs\<close>, typed links (\<^verbatim>\<open>ipld/link.rs\<close>), accessors and constructors that only wrap a value: the model
    uses the value itself.
  \<^item> The transports and engines of tarpc, jsonrpsee, libp2p, diesel, wasmtime, clap and config, of which
    the sources only call the interface.
  \<^item> The variants for builds without the default features, test utilities, and the example program.
\<close>

section \<open>From a task to a client\<close>

text \<open>The receipts a worker announces, in order, and what every announcement says.\<close>

fun announced_by :: "event \<Rightarrow> captured list" where
  "announced_by (CapturedReceipt cap) = [cap]"
| "announced_by _ = []"

definition announcements :: "worker_state \<Rightarrow> captured list" where
  "announcements s = concat (map announced_by (ws_events s))"

definition announces :: "worker \<Rightarrow> worker_state \<Rightarrow> bool" where
  "announces w s \<longleftrightarrow> i_cid (ws_info s) = i_cid (wk_info w) \<and>
     (\<forall>t \<in> set (ws_spawned s) \<union> fst ` set (ws_finished s). t_add_meta t = additional_meta False (wk_info w) (wk_name w)) \<and>
     (\<forall>cap \<in> set (announcements s). i_cid (cap_workflow cap) = i_cid (wk_info w) \<and>
        cap_metadata cap = Some (additional_meta False (wk_info w) (wk_name w)))"

lemma announced_in: "cap \<in> set (announcements s) \<longleftrightarrow> CapturedReceipt cap \<in> set (ws_events s)"
proof -
  have "cap \<in> set (announced_by e) \<longleftrightarrow> e = CapturedReceipt cap" for e by (cases e) auto
  then show ?thesis by (auto simp: announcements_def)
qed

lemma announces_step:
  assumes "wstep E s s'" and "announces w s" and "we_name E = wk_name w"
  shows "announces w s'"
  using assms(1)
proof cases
  case (next_batch b bs ts)
  have "additional_meta False (ws_info s) (wk_name w) = additional_meta False (wk_info w) (wk_name w)"
    using assms(2) by (simp add: announces_def additional_meta_def)
  with next_batch assms(2,3) prepare_batch_in [OF next_batch(7)] prepare_task_Some show ?thesis
    by (fastforce simp: announces_def announcements_def)
next
  case (run_one i net r lm db evs)
  with run_task_Some [OF run_one(5)] assms(2) set_drop_nth_subset [of i "ws_spawned s"] show ?thesis
    by (auto simp: announces_def announced_in)
next
  case (run_waits i net lm db evs)
  with run_task_effects [OF run_waits(5)] assms(2) set_drop_nth_subset [of i "ws_spawned s"] show ?thesis
    by (auto simp: announces_def announced_in)
next
  case (join_ok i t x net s1)
  have t: "t \<in> fst ` set (ws_finished s)" using join_ok(3,4) nth_mem by force
  from join_task_Ok [OF join_ok(6)] obtain r :: rt_receipt where "ws_info s1 = bump_progress (we_resume_step E) (ws_info s)"
    "ws_events s1 = ws_events s @
       [CapturedReceipt \<lparr>cap_receipt = ptr_cid (r_cid r),
          cap_workflow = bump_progress (we_resume_step E) (ws_info s), cap_metadata = Some (t_add_meta t)\<rparr>]" by blast
  with join_ok(1) t assms(2) join_task_frame [OF join_ok(6)] set_drop_nth_subset [of i "ws_finished s"] show ?thesis
    by (auto simp: announces_def announced_in)
qed (use assms(2) in \<open>auto simp: announces_def announcements_def\<close>)

lemma announces_steps: "wsteps E s s' \<Longrightarrow> we_name E = wk_name w \<Longrightarrow> announces w s \<Longrightarrow> announces w s'"
  by (induction rule: rtranclp_induct) (auto dest: announces_step)

lemma announces_start: "worker_run D W w conn ff running hs db = Ok (sch, s0) \<Longrightarrow> announces w s0"
  by (auto simp: worker_run_def run_queue_start_def announces_def announced_in replay_events_def result_simps
      split: sum.splits if_splits)

lemma announced_found:
  assumes "db_inv db" and "worker_run D W w conn ff running hs db = Ok (sch, s0)" and "wsteps E s0 s"
    and "cap \<in> set (announcements s)"
  obtains r where "find_receipt_by_cid (cap_receipt cap) (ws_db s) = Ok r" and "r_cid r = Pointer (cap_receipt cap)"
    and "r \<in> set (t_receipts (ws_db s))"
proof -
  have inv: "winv (we_deps E) (we_wasm E) (i_cid (wk_info w)) (i_progress (wk_info w)) db s"
    using worker_run_start [OF assms(2)] winv_start [OF assms(1)] winv_steps [OF assms(3)] by blast
  then obtain r where r: "r \<in> set (t_receipts (ws_db s))" "r_cid r = Pointer (cap_receipt cap)"
    using assms(4) by (fastforce simp: winv_def db_inv_def captured_recorded_def announced_in)
  moreover have "db_inv (ws_db s)" using inv by (simp add: winv_def)
  ultimately have "find_receipt_by_cid (cap_receipt cap) (ws_db s) = Ok r"
    by (simp add: find_receipt_by_cid_iff)
  with r that show thesis by blast
qed

text \<open>
  C5. What a client that is subscribed to a run gets of it. At whatever state of the worker: let the
  event handler handle the receipts the worker has announced, with the database of the worker, some of
  them before the client is subscribed and the next ones after it, until the stream of the client ends or
  lags. The announced receipts are all stored. The client's sink is offered the notifications of exactly
  the receipts handled after the subscription, in the order in which they were announced, and the client
  gets those the sink takes: all of them when the sink is never full or closed. The
  receipts handled before the subscription do not reach it.
\<close>

theorem run_reaches_client:
  assumes "db_inv db" and "worker_run D W w conn ff running hs db = Ok (sch, s0)" and "wsteps E s0 s"
    and "we_name E = wk_name w" and "h_db h = ws_db s"
    and "net_ok N" and "\<And>cs. pool_get X cs = Ok ()" and "\<And>b. sub_json K b = Ok (j b)" and "ends_loop rest"
    and "announcements s = before @ after @ later"
    and "h1 = fold (\<lambda>cap. handle_event D' N X (CapturedReceipt cap)) before h"
    and "h2 = fold (\<lambda>cap. handle_event D' N X (CapturedReceipt cap)) after h1"
  shows "\<exists>rs got ls' res. set rs \<subseteq> set (t_receipts (ws_db s)) \<and>
    map r_cid rs = map (\<lambda>cap. Pointer (cap_receipt cap)) after \<and>
    subscribe_run_workflow D' W' K sid ls (Ok req) (Ok ()) (Some (WebAckWorkflow (i_cid (wk_info w)) (wk_name w))) (Ok ())
      (map NextMessage (drop (length (h_ws_workflow h1)) (h_ws_workflow h2)) @ rest) = Subscribed got ls' res \<and>
    got = sink_takes K [] (concat (map (\<lambda>r. receipt_json D' j r (wk_info w) (wk_name w)) rs)) \<and>
    ((\<forall>ms. try_send K ms = SendOk) \<longrightarrow> got = concat (map (\<lambda>r. receipt_json D' j r (wk_info w) (wk_name w)) rs))"
proof -
  let ?found = "\<lambda>cap r. find_receipt_by_cid (cap_receipt cap) (ws_db s) = Ok r \<and> r_cid r = Pointer (cap_receipt cap) \<and>
      r \<in> set (t_receipts (ws_db s))"
  have after: "cap \<in> set (announcements s)" if "cap \<in> set after" for cap using that assms(10) by simp
  have "\<forall>cap \<in> set after. \<exists>r. ?found cap r"
    using announced_found [OF assms(1-3)] after by metis
  then obtain f where f: "\<forall>cap \<in> set after. ?found cap (f cap)" by metis
  have meta: "announces w s" by (rule announces_steps [OF assms(3,4) announces_start [OF assms(2)]])
  let ?x = "\<lambda>cap. (f cap, cap_workflow cap, wk_name w)"
  have same: "additional_meta False (cap_workflow cap) (wk_name w) = additional_meta False (wk_info w) (wk_name w)"
    if "cap \<in> set after" for cap
    using after [OF that] meta by (simp add: announces_def additional_meta_def)
  have capture: "capture_of (?x cap) = cap" if "cap \<in> set after" for cap
    using f after [OF that] that meta by (simp add: capture_of_def announces_def same [OF that])
  then have h2: "h2 = fold (\<lambda>x. handle_event D' N X (CapturedReceipt (capture_of x))) (map ?x after) h1"
    unfolding assms(12) fold_map by (intro fold_cong) (simp_all add: comp_def)
  have "h_db h1 = ws_db s" unfolding assms(11) using assms(5) by (simp add: stores)
  then have stored: "\<forall>(r, i, n) \<in> set (map ?x after). find_receipt_by_cid (ptr_cid (r_cid r)) (h_db h1) = Ok r"
    using f by simp
  have json: "receipt_json D' j r (cap_workflow cap) (wk_name w) = receipt_json D' j r (wk_info w) (wk_name w)"
    if "cap \<in> set after" for cap r
    by (simp add: receipt_json_def same [OF that])
  have cids: "i_cid (cap_workflow cap) = i_cid (wk_info w)" if "cap \<in> set after" for cap
    using after [OF that] meta by (simp add: announces_def)
  have "notifications D' j (i_cid (wk_info w)) (wk_name w) (map ?x after) =
      concat (map (\<lambda>r. receipt_json D' j r (wk_info w) (wk_name w)) (map f after))"
    unfolding notifications_def by (auto simp: json cids comp_def intro!: arg_cong [where f = concat])
  with client_gets [OF assms(6,7) stored assms(8,9) h2, of D' W' sid ls req "i_cid (wk_info w)" "wk_name w"] f
    sink_takes_all [of K "[]"] show ?thesis
    by (intro exI [of _ "map f after"]) (auto simp: comp_def)
qed

theorem run_reaches_client_witness:
  "\<exists>got ls' res. subscribe_run_workflow web_deps ex_wasm web_sink ''s'' [] (Ok \<lparr>rp_name = ''run'', rp_workflow = ex_flow\<rparr>)
      (Ok ()) (Some (WebAckWorkflow (nth_cid 20) ''run'')) (Ok ())
      (map NextMessage (h_ws_workflow (fold (\<lambda>cap. handle_event web_deps run_net ex_net (CapturedReceipt cap))
        (announcements (run_state 2 2 [] [] (Returned (Ok ()))))
        (ex_handler (ws_db (run_state 2 2 [] [] (Returned (Ok ()))))))) @ [StreamEnd]) =
    Subscribed (''x'' # got) ls' res"
proof -
  let ?s = "run_state 2 2 [] [] (Returned (Ok ()))"
  let ?json = "\<lambda>r. receipt_json web_deps (\<lambda>b. replicate (length b) CHR ''x'') r run_info ''run''"
  have name: "we_name (run_env (\<lambda>_. Err RecvTimeout)) = wk_name example_worker" by (simp add: example_worker_def)
  have h: "h_db (ex_handler (ws_db ?s)) = ws_db ?s" "h_ws_workflow (ex_handler (ws_db ?s)) = []"
    by (simp_all add: ex_handler_defs)
  have pool: "pool_get ex_net cs = Ok ()" for cs by (simp add: ex_net_def)
  have sink: "sub_json web_sink b = Ok (replicate (length b) CHR ''x'')" "try_send web_sink ms = SendOk" for b ms
    by (simp_all add: web_sink_def)
  have rest: "ends_loop [StreamEnd]" by (simp add: ends_loop_def)
  have w: "wk_info example_worker = run_info" "wk_name example_worker = ''run''" by (simp_all add: example_worker_def)
  have "announcements ?s = [] @ announcements ?s @ []" by simp
  from run_reaches_client [OF run_db_inv run_start run_path [of "\<lambda>_. Err RecvTimeout"] name h(1) run_net_ok pool sink(1) rest this refl refl,
      of web_deps ex_wasm "''s''" "[]" "\<lparr>rp_name = ''run'', rp_workflow = ex_flow\<rparr>"] sink(2)
  obtain rs got ls' res where rs: "set rs \<subseteq> set (t_receipts (ws_db ?s))"
    "map r_cid rs = map (\<lambda>cap. Pointer (cap_receipt cap)) (announcements ?s)"
    "subscribe_run_workflow web_deps ex_wasm web_sink ''s'' [] (Ok \<lparr>rp_name = ''run'', rp_workflow = ex_flow\<rparr>)
      (Ok ()) (Some (WebAckWorkflow (nth_cid 20) ''run'')) (Ok ())
      (map NextMessage (h_ws_workflow (fold (\<lambda>cap. handle_event web_deps run_net ex_net (CapturedReceipt cap))
        (announcements ?s) (ex_handler (ws_db ?s)))) @ [StreamEnd]) = Subscribed got ls' res"
    "got = concat (map ?json rs)"
    by (auto simp: h w)
  have "map r_cid rs = [Pointer (nth_cid 2), Pointer (nth_cid 3)]"
    by (simp add: rs(2) announcements_def run_state_def numeral_2_eq_2)
  then obtain r rs' where r: "rs = r # rs'" "r_cid r = Pointer (nth_cid 2)" by auto
  with rs(1) have "r = run_stored 0" by (auto simp: run_state_def run_stored_def rt_receipt_new_def)
  with rs(3,4) r(1) show ?thesis by (simp add: notice_json [folded web_deps_def])
qed

end
